(* ===== verification/Xbbg_Prelude.thy ===== *)
theory Xbbg_Prelude
  imports Main "HOL-Library.Word" "HOL-Library.AList" "HOL-Library.List_Lexorder" "HOL-Library.Char_ord"
    "HOL-Library.Multiset"
begin

text \<open>
  Shared vocabulary of the development: the machine integers of the engine, Rust's
  \<open>Result\<close> as a sum, the string functions of the standard library the engine uses, and
  the list, option and map lemmas that several components need.

  A Rust string is a list of characters. The engine looks inside strings only through
  equality, ASCII case folding and the white-space test, so a character here is a Unicode
  scalar value below 256 and the white-space test is \<open>char::is_whitespace\<close> on that range.
  A \<open>HashMap\<close> whose iteration order the code observes is an association list (the order
  is then an arbitrary but fixed iteration order); a \<open>HashMap\<close> that is only looked up is a
  partial function.
\<close>

section \<open>Integers and results\<close>

type_synonym u32 = "32 word"
type_synonym u64 = "64 word"
type_synonym i64 = "64 word" \<comment> \<open>read through \<open>sint\<close>\<close>

text \<open>\<open>SlabKey\<close> is \<open>usize\<close>.\<close>

type_synonym slab_key = nat

text \<open>\<open>Result<T, E>\<close>, the error on the left.\<close>

type_synonym ('a, 'e) result = "'e + 'a"

text \<open>One poll of a future.\<close>

datatype 'a poll = Ready 'a | Pending

definition saturating_inc :: "u64 \<Rightarrow> u64" where
  "saturating_inc w = (if w = - 1 then - 1 else w + 1)"

lemma unat_saturating_inc:
  "unat (saturating_inc w) = min (unat w + 1) (2 ^ 64 - 1)"
proof (cases "w = - 1")
  case True
  then show ?thesis by (simp add: saturating_inc_def unsigned_minus_1_eq_mask mask_eq_exp_minus_1)
next
  case False
  then have "unat w \<noteq> unat (- 1 :: u64)" by (simp only: word_unat_eq_iff not_False_eq_True)
  moreover have "unat w < 2 ^ 64" using unsigned_less [of w] by simp
  ultimately have "unat w < 2 ^ 64 - 1" by (simp add: unsigned_minus_1_eq_mask mask_eq_exp_minus_1)
  with False show ?thesis
    by (simp add: saturating_inc_def unat_word_ariths)
qed

lemma saturating_inc_neq_0 [simp]: "saturating_inc w \<noteq> 0"
proof -
  have "unat (saturating_inc w) \<noteq> 0" by (simp add: unat_saturating_inc)
  then show ?thesis by auto
qed

section \<open>Result plumbing\<close>

definition map_err :: "('e \<Rightarrow> 'f) \<Rightarrow> ('a, 'e) result \<Rightarrow> ('a, 'f) result" where
  "map_err f r = (case r of Inl e \<Rightarrow> Inl (f e) | Inr a \<Rightarrow> Inr a)"

definition and_then :: "('a, 'e) result \<Rightarrow> ('a \<Rightarrow> ('b, 'e) result) \<Rightarrow> ('b, 'e) result" where
  "and_then r f = (case r of Inl e \<Rightarrow> Inl e | Inr a \<Rightarrow> f a)"

lemma map_err_simps [simp]:
  "map_err f (Inl e) = Inl (f e)" "map_err f (Inr a) = Inr a"
  by (simp_all add: map_err_def)

lemma and_then_simps [simp]:
  "and_then (Inl e) f = Inl e" "and_then (Inr a) f = f a"
  by (simp_all add: and_then_def)

lemma and_then_Inr: "and_then r f = Inr b \<longleftrightarrow> (\<exists>a. r = Inr a \<and> f a = Inr b)"
  by (cases r) simp_all

lemma and_then_Inl: "and_then r f = Inl e \<longleftrightarrow> r = Inl e \<or> (\<exists>a. r = Inr a \<and> f a = Inl e)"
  by (cases r) auto

section \<open>Strings\<close>

definition is_whitespace :: "char \<Rightarrow> bool" where
  "is_whitespace c \<longleftrightarrow> (let n = (of_char c :: nat) in
     (9 \<le> n \<and> n \<le> 13) \<or> n = 32 \<or> n = 133 \<or> n = 160)"

definition trim :: "string \<Rightarrow> string" where
  "trim s = rev (dropWhile is_whitespace (rev (dropWhile is_whitespace s)))"

definition to_ascii_lowercase_char :: "char \<Rightarrow> char" where
  "to_ascii_lowercase_char c = (let n = (of_char c :: nat) in
     if 65 \<le> n \<and> n \<le> 90 then char_of (n + 32) else c)"

definition to_ascii_lowercase :: "string \<Rightarrow> string" where
  "to_ascii_lowercase s = map to_ascii_lowercase_char s"

definition eq_ignore_ascii_case :: "string \<Rightarrow> string \<Rightarrow> bool" where
  "eq_ignore_ascii_case s t \<longleftrightarrow> to_ascii_lowercase s = to_ascii_lowercase t"

text \<open>\<open>str::starts_with\<close>, \<open>str::contains\<close> and the decimal and hexadecimal \<open>Display\<close> of an
  unsigned integer.\<close>

definition starts_with :: "string \<Rightarrow> string \<Rightarrow> bool" where
  "starts_with s p \<longleftrightarrow> take (length p) s = p"

fun str_contains :: "string \<Rightarrow> string \<Rightarrow> bool" where
  "str_contains [] p = (p = [])"
| "str_contains (c # s) p = (starts_with (c # s) p \<or> str_contains s p)"

fun show_nat :: "nat \<Rightarrow> string" where
  "show_nat n =
     (if n < 10 then [char_of (48 + n)] else show_nat (n div 10) @ [char_of (48 + n mod 10)])"

declare show_nat.simps [simp del]

definition hex_digit :: "nat \<Rightarrow> char" where
  "hex_digit n = char_of (if n < 10 then 48 + n else 87 + n)"

fun show_hex :: "nat \<Rightarrow> string" where
  "show_hex n = (if n < 16 then [hex_digit n] else show_hex (n div 16) @ [hex_digit (n mod 16)])"

declare show_hex.simps [simp del]

text \<open>\<open>{:?}\<close> of a \<open>str\<close>: the standard escapes, and \<open>\u{..}\<close> for a character that is not
  printable (below 256: the two control ranges, the no-break space and the soft hyphen).\<close>

definition escape_debug_char :: "char \<Rightarrow> string" where
  "escape_debug_char c = (let n = (of_char c :: nat) in
     if n = 0 then [CHR 0x5C, CHR ''0'']
     else if n = 9 then [CHR 0x5C, CHR ''t'']
     else if n = 10 then [CHR 0x5C, CHR ''n'']
     else if n = 13 then [CHR 0x5C, CHR ''r'']
     else if n = 34 \<or> n = 92 then [CHR 0x5C, c]
     else if n < 32 \<or> 127 \<le> n \<and> n \<le> 160 \<or> n = 173
     then [CHR 0x5C, CHR ''u'', CHR 0x7B] @ show_hex n @ [CHR 0x7D]
     else [c])"

definition debug_str :: "string \<Rightarrow> string" where
  "debug_str s = [CHR 0x22] @ concat (map escape_debug_char s) @ [CHR 0x22]"

lemma to_ascii_lowercase_char_idem [simp]:
  "to_ascii_lowercase_char (to_ascii_lowercase_char c) = to_ascii_lowercase_char c"
  by (simp add: to_ascii_lowercase_char_def Let_def)

lemma to_ascii_lowercase_idem [simp]: "to_ascii_lowercase (to_ascii_lowercase s) = to_ascii_lowercase s"
  by (simp add: to_ascii_lowercase_def)

lemma dropWhile_idem_rev:
  "dropWhile P (rev (dropWhile P (rev (dropWhile P s)))) = rev (dropWhile P (rev (dropWhile P s)))"
proof (cases "dropWhile P s")
  case Nil
  then show ?thesis by (simp only: rev.simps dropWhile.simps)
next
  case (Cons c t)
  then have c: "\<not> P c" by (metis hd_dropWhile list.sel(1) list.simps(3))
  have "rev (dropWhile P (rev (c # t))) = c # rev (dropWhile P (rev t))" if "\<not> P c"
    using that by (induction t rule: rev_induct) auto
  with c Cons show ?thesis by simp
qed

lemma trim_idem [simp]: "trim (trim s) = trim s"
  by (simp add: trim_def dropWhile_idem_rev)

end
