(* ===== verification/Errors.thy ===== *)
theory Errors
  imports Xbbg_Prelude
begin

text \<open>
  The two error enums of the engine, \<open>BlpError\<close> of xbbg-core and \<open>BlpAsyncError\<close> of
  xbbg-async, and the handling of the SDK request identifiers a failed request carries.
  A boxed \<open>dyn Error\<close> source is only ever printed, so it is its text. The fields of a
  constructor stand in the order of the source.
\<close>

section \<open>Data\<close>

datatype correlation_context = U64 u64 | Tag string

record validation_error =
  ve_path :: string
  ve_message :: string
  ve_suggestion :: "string option"

datatype blp_error =
    SessionStart "string option" "string option" \<comment> \<open>source, label\<close>
  | OpenService string "string option" "string option" \<comment> \<open>service, source, label\<close>
  | RequestFailure string "string option" "correlation_context option" "string option"
      "string option" "string list" "string option"
      \<comment> \<open>service, operation, cid, label, request id, Bloomberg request ids, source\<close>
  | InvalidArgument string
  | Timeout
  | RequestTimeout "string option" "string list" \<comment> \<open>request id, Bloomberg request ids\<close>
  | TemplateTerminated "correlation_context option"
  | SubscriptionFailure "correlation_context option" "string option" \<comment> \<open>cid, label\<close>
  | SubscriptionDataLoss string string \<comment> \<open>topic, detail\<close>
  | Internal string
  | SchemaOperationNotFound string string
  | SchemaElementNotFound string string
  | SchemaTypeMismatch string string string
  | SchemaUnsupported string string \<comment> \<open>element, detail\<close>
  | Validation string "validation_error list"

datatype blp_async_error =
    Blp blp_error
  | AsyncInternal string
  | ConfigError string
  | ChannelClosed
  | AllWorkersDown nat

section \<open>Bloomberg request identifiers\<close>

fun bloomberg_request_ids :: "blp_error \<Rightarrow> string list" where
  "bloomberg_request_ids (RequestFailure _ _ _ _ _ ids _) = ids"
| "bloomberg_request_ids (RequestTimeout _ ids) = ids"
| "bloomberg_request_ids _ = []"

text \<open>\<open>extend\<close>, \<open>sort_unstable\<close>, \<open>dedup\<close>: equal identifiers are indistinguishable, so
  the unstable sort is a sort.\<close>

definition union_ids :: "string list \<Rightarrow> string list \<Rightarrow> string list" where
  "union_ids old new = remdups_adj (sort (old @ new))"

fun extend_bloomberg_request_ids :: "blp_error \<Rightarrow> string list \<Rightarrow> blp_error" where
  "extend_bloomberg_request_ids (RequestFailure sv op c l rid ids src) new =
     RequestFailure sv op c l rid (union_ids ids new) src"
| "extend_bloomberg_request_ids (RequestTimeout rid ids) new =
     RequestTimeout rid (union_ids ids new)"
| "extend_bloomberg_request_ids e new = e"

fun async_bloomberg_request_ids :: "blp_async_error \<Rightarrow> string list" where
  "async_bloomberg_request_ids (Blp e) = bloomberg_request_ids e"
| "async_bloomberg_request_ids _ = []"

fun is_request_error :: "blp_error \<Rightarrow> bool" where
  "is_request_error (RequestFailure _ _ _ _ _ _ _) = True"
| "is_request_error (RequestTimeout _ _) = True"
| "is_request_error _ = False"

fun try_extend_bloomberg_request_ids ::
  "blp_async_error \<Rightarrow> string list \<Rightarrow> blp_async_error \<times> bool" where
  "try_extend_bloomberg_request_ids (Blp e) ids =
     (if \<not> is_request_error e then (Blp e, False)
      else (Blp (extend_bloomberg_request_ids e ids), True))"
| "try_extend_bloomberg_request_ids e ids = (e, False)"

section \<open>Lemmas\<close>

lemma set_union_ids [simp]: "set (union_ids old new) = set old \<union> set new"
  by (simp add: union_ids_def)

lemma sorted_union_ids [simp]: "sorted (union_ids old new)"
  by (simp add: union_ids_def)

lemma distinct_remdups_adj_sorted: "sorted xs \<Longrightarrow> distinct (remdups_adj xs)"
  by (induction xs rule: remdups_adj.induct) (auto simp: order.antisym)

lemma distinct_union_ids [simp]: "distinct (union_ids old new)"
  by (simp add: union_ids_def distinct_remdups_adj_sorted)

text \<open>A merged list is determined by its set, so merging is order-insensitive.\<close>

lemma union_ids_cong:
  "set old \<union> set new = set old' \<union> set new' \<Longrightarrow> union_ids old new = union_ids old' new'"
  by (rule sorted_distinct_set_unique) simp_all

lemma bloomberg_request_ids_extend:
  "bloomberg_request_ids (extend_bloomberg_request_ids e ids) =
     (if is_request_error e then union_ids (bloomberg_request_ids e) ids else [])"
  by (cases e) auto

lemma is_request_error_extend [simp]:
  "is_request_error (extend_bloomberg_request_ids e ids) = is_request_error e"
  by (cases e) auto

lemma extend_extend:
  "extend_bloomberg_request_ids (extend_bloomberg_request_ids e xs) ys =
     extend_bloomberg_request_ids e (xs @ ys)"
  by (cases e) (auto intro!: union_ids_cong)

lemma extend_commute:
  "extend_bloomberg_request_ids (extend_bloomberg_request_ids e xs) ys =
     extend_bloomberg_request_ids (extend_bloomberg_request_ids e ys) xs"
  by (cases e) (auto intro!: union_ids_cong)

end
