(* ===== verification/Channel.thy ===== *)
theory Channel
  imports Errors
begin

text \<open>
  The bounded subscription transport (engine/state/channel.rs): the strict queue whose
  capacity is a semaphore, the overwrite queue that counts evictions, and the inline
  callback sink, with the sending half and the weak terminator over them.

  A shared object behind an \<open>Arc\<close> is a record and every method takes it and returns it
  updated. A method runs here without interference; theory Channel_Concurrency interleaves
  the atomic sections of the same methods. The stored permit of the \<open>Notify\<close> is the flag
  \<open>sh_ready\<close>: \<open>notify_one\<close> raises it and a completed wait lowers it. A user callback is an
  identifier, and the log of its calls stands for what it does. A panic is \<open>None\<close>.
\<close>

section \<open>Data\<close>

datatype overflow_policy = DropNewest | DropOldest | Block

definition requires_deliveries_policy :: "overflow_policy \<Rightarrow> bool" where
  "requires_deliveries_policy p = (case p of DropOldest \<Rightarrow> True | DropNewest \<Rightarrow> False | Block \<Rightarrow> False)"

text \<open>\<open>Result<SubscriptionUpdate, BlpError>\<close>. No channel operation looks inside an update.\<close>

type_synonym 'u item = "('u, blp_error) result"

datatype 'a try_send_error = Full 'a | Closed 'a

datatype try_recv_error = Empty | Disconnected

record subscription_gap =
  dropped_updates :: u64

datatype 'u subscription_event =
    Update 'u "subscription_gap option"
  | EError blp_error

record ('u, 'g) channel_state =
  cs_queue :: "'u list"
  cs_pending_gap :: 'g
  cs_terminal_error :: "blp_error option"
  cs_terminal_delivered :: bool
  cs_receiver_closed :: bool

record ('u, 'g, 'q) shared =
  sh_accepting :: bool
  sh_state :: "('u, 'g) channel_state"
  sh_slots :: 'q
  sh_sender_count :: u64
  sh_ready :: bool
  sh_on_closed :: "nat option"
  sh_closed_log :: "nat list"

text \<open>tokio's \<open>Semaphore\<close> as far as the queue uses it: a permit count and the closed bit.\<close>

record semaphore =
  permits :: nat
  sem_closed :: bool

record drop_oldest =
  dq_capacity :: nat

type_synonym 'u strict = "('u, unit, semaphore) shared"
type_synonym 'u lossy = "('u, u64, drop_oldest) shared"

record 'u callback_shared =
  cb_callback_log :: "'u item list"
  cb_accepting :: bool
  cb_keep_open_on_data_loss :: bool
  cb_sender_count :: u64
  cb_field_error :: "nat option"
  cb_field_error_log :: "(nat \<times> blp_error \<times> bool) list"
  cb_stream_availability :: "nat option"
  cb_stream_log :: "(nat \<times> bool) list"
  cb_on_closed :: "nat option"
  cb_closed_log :: "nat list"

datatype 'u sender_shared =
    SChannel "'u strict"
  | SCallback "'u callback_shared"
  | SDropOldest "'u lossy"

section \<open>The queue strategies\<close>

datatype acquire_result = Acquired semaphore | AcquireClosed | NoPermits

definition try_acquire :: "semaphore \<Rightarrow> acquire_result" where
  "try_acquire q =
     (if sem_closed q then AcquireClosed
      else if permits q = 0 then NoPermits
      else Acquired (q\<lparr>permits := permits q - 1\<rparr>))"

definition add_permits :: "nat \<Rightarrow> semaphore \<Rightarrow> semaphore" where
  "add_permits n q = q\<lparr>permits := permits q + n\<rparr>"

definition semaphore_close :: "semaphore \<Rightarrow> semaphore" where
  "semaphore_close q = q\<lparr>sem_closed := True\<rparr>"

definition drop_oldest_close :: "drop_oldest \<Rightarrow> drop_oldest" where
  "drop_oldest_close q = q"

section \<open>Operations common to both queues\<close>

definition accepts_data :: "('u, 'g) channel_state \<Rightarrow> bool" where
  "accepts_data st \<longleftrightarrow>
     \<not> cs_receiver_closed st \<and> cs_terminal_error st = None \<and> \<not> cs_terminal_delivered st"

text \<open>\<open>Shared::new\<close> asserts a positive capacity. The default gap is the strategy's.\<close>

definition shared_new :: "'g \<Rightarrow> nat \<Rightarrow> 'q \<Rightarrow> ('u, 'g, 'q) shared option" where
  "shared_new default_gap capacity slots =
     (if capacity > 0 then
        Some \<lparr>sh_accepting = True,
          sh_state = \<lparr>cs_queue = [], cs_pending_gap = default_gap, cs_terminal_error = None,
            cs_terminal_delivered = False, cs_receiver_closed = False\<rparr>,
          sh_slots = slots, sh_sender_count = 1, sh_ready = False,
          sh_on_closed = None, sh_closed_log = []\<rparr>
      else None)"

definition notify_closed :: "('u, 'g, 'q) shared \<Rightarrow> ('u, 'g, 'q) shared" where
  "notify_closed s = (case sh_on_closed s of
       None \<Rightarrow> s | Some cb \<Rightarrow> s\<lparr>sh_closed_log := sh_closed_log s @ [cb]\<rparr>)"

definition shared_send_terminal ::
  "('q \<Rightarrow> 'q) \<Rightarrow> ('u, 'g, 'q) shared \<Rightarrow> blp_error \<Rightarrow>
     ('u, 'g, 'q) shared \<times> (unit, 'u item) result" where
  "shared_send_terminal close_slots s e =
     (if sh_sender_count s = 0 \<or> \<not> accepts_data (sh_state s) then (s, Inl (Inl e))
      else (notify_closed (s\<lparr>sh_state := (sh_state s)\<lparr>cs_terminal_error := Some e\<rparr>,
              sh_accepting := False, sh_slots := close_slots (sh_slots s), sh_ready := True\<rparr>),
            Inr ()))"

definition shared_close :: "('q \<Rightarrow> 'q) \<Rightarrow> ('u, 'g, 'q) shared \<Rightarrow> ('u, 'g, 'q) shared" where
  "shared_close close_slots s =
     (if cs_receiver_closed (sh_state s) then s
      else notify_closed (s\<lparr>sh_state := (sh_state s)\<lparr>cs_receiver_closed := True\<rparr>,
             sh_accepting := False, sh_slots := close_slots (sh_slots s), sh_ready := True\<rparr>))"

definition shared_sender_dropped :: "('u, 'g, 'q) shared \<Rightarrow> ('u, 'g, 'q) shared" where
  "shared_sender_dropped s =
     (let old = sh_sender_count s; s' = s\<lparr>sh_sender_count := old - 1\<rparr> in
      if old = 1 then notify_closed (s'\<lparr>sh_accepting := False, sh_ready := True\<rparr>) else s')"

definition shared_receiver_dropped :: "('q \<Rightarrow> 'q) \<Rightarrow> ('u, 'g, 'q) shared \<Rightarrow> ('u, 'g, 'q) shared" where
  "shared_receiver_dropped close_slots s =
     notify_closed (s\<lparr>sh_state := (sh_state s)\<lparr>cs_receiver_closed := True, cs_queue := [],
         cs_terminal_error := None\<rparr>,
       sh_accepting := False, sh_slots := close_slots (sh_slots s), sh_ready := True\<rparr>)"

definition shared_on_closed :: "('u, 'g, 'q) shared \<Rightarrow> nat \<Rightarrow> ('u, 'g, 'q) shared" where
  "shared_on_closed s cb =
     (let s' = (case sh_on_closed s of None \<Rightarrow> s\<lparr>sh_on_closed := Some cb\<rparr> | Some _ \<Rightarrow> s) in
      if \<not> sh_accepting s' then notify_closed s' else s')"

text \<open>What a reader finds once the queue is empty.\<close>

definition at_end :: "('u, 'g, 'q) shared \<Rightarrow> bool" where
  "at_end s \<longleftrightarrow> cs_receiver_closed (sh_state s) \<or> cs_terminal_delivered (sh_state s)
     \<or> sh_sender_count s = 0"

section \<open>The strict queue\<close>

definition subscription_channel :: "nat \<Rightarrow> 'u strict option" where
  "subscription_channel capacity =
     shared_new () capacity \<lparr>permits = capacity, sem_closed = False\<rparr>"

text \<open>The locked section of \<open>send\<close> and \<open>try_send\<close>, entered with a permit in hand. A
  rejected update drops the permit, which returns it to the semaphore.\<close>

definition push_locked :: "'u strict \<Rightarrow> 'u \<Rightarrow> 'u strict \<times> bool" where
  "push_locked s u =
     (if \<not> accepts_data (sh_state s) then (s\<lparr>sh_slots := add_permits 1 (sh_slots s)\<rparr>, False)
      else (s\<lparr>sh_state := (sh_state s)\<lparr>cs_queue := cs_queue (sh_state s) @ [u]\<rparr>\<rparr>, True))"

definition strict_try_send ::
  "'u strict \<Rightarrow> 'u item \<Rightarrow> 'u strict \<times> (unit, 'u item try_send_error) result" where
  "strict_try_send s it =
     (if \<not> sh_accepting s then (s, Inl (Closed it))
      else case it of
        Inl e \<Rightarrow> (let (s', r) = shared_send_terminal semaphore_close s e in (s', map_err Closed r))
      | Inr u \<Rightarrow>
          (case try_acquire (sh_slots s) of
             AcquireClosed \<Rightarrow> (s, Inl (Closed (Inr u)))
           | NoPermits \<Rightarrow> (s, Inl (if \<not> sh_accepting s then Closed (Inr u) else Full (Inr u)))
           | Acquired q \<Rightarrow>
               (case push_locked (s\<lparr>sh_slots := q\<rparr>) u of
                  (s', False) \<Rightarrow> (s', Inl (Closed (Inr u)))
                | (s', True) \<Rightarrow> (s'\<lparr>sh_ready := True\<rparr>, Inr ()))))"

text \<open>One poll of the \<open>send\<close> future. Without a permit the future stays pending.\<close>

definition strict_send ::
  "'u strict \<Rightarrow> 'u item \<Rightarrow> 'u strict \<times> (unit, 'u item) result poll" where
  "strict_send s it =
     (if \<not> sh_accepting s then (s, Ready (Inl it))
      else case it of
        Inl e \<Rightarrow> (let (s', r) = shared_send_terminal semaphore_close s e in (s', Ready r))
      | Inr u \<Rightarrow>
          (case try_acquire (sh_slots s) of
             AcquireClosed \<Rightarrow> (s, Ready (Inl (Inr u)))
           | NoPermits \<Rightarrow> (s, Pending)
           | Acquired q \<Rightarrow>
               (case push_locked (s\<lparr>sh_slots := q\<rparr>) u of
                  (s', False) \<Rightarrow> (s', Ready (Inl (Inr u)))
                | (s', True) \<Rightarrow> (s'\<lparr>sh_ready := True\<rparr>, Ready (Inr ())))))"

text \<open>The locked section of \<open>recv\<close> and \<open>try_recv\<close>.\<close>

definition pop_locked ::
  "('u, 'g, 'q) shared \<Rightarrow> ('u, 'g, 'q) shared \<times> ('u item, try_recv_error) result" where
  "pop_locked s =
     (case cs_queue (sh_state s) of
        u # us \<Rightarrow> (s\<lparr>sh_state := (sh_state s)\<lparr>cs_queue := us\<rparr>\<rparr>, Inr (Inr u))
      | [] \<Rightarrow>
          (case cs_terminal_error (sh_state s) of
             Some e \<Rightarrow> (s\<lparr>sh_state := (sh_state s)\<lparr>cs_terminal_error := None,
                            cs_terminal_delivered := True\<rparr>\<rparr>, Inr (Inl e))
           | None \<Rightarrow> (s, Inl (if at_end s then Disconnected else Empty))))"

text \<open>A delivered update returns its permit after the lock is released.\<close>

definition strict_try_recv ::
  "'u strict \<Rightarrow> 'u strict \<times> ('u item, try_recv_error) result" where
  "strict_try_recv s =
     (let (s', r) = pop_locked s in
      (case r of Inr (Inr u) \<Rightarrow> s'\<lparr>sh_slots := add_permits 1 (sh_slots s')\<rparr> | _ \<Rightarrow> s', r))"

text \<open>One iteration of the \<open>recv\<close> loop: \<open>None\<close> is end of stream, pending awaits a
  notification.\<close>

definition strict_recv :: "'u strict \<Rightarrow> 'u strict \<times> 'u item option poll" where
  "strict_recv s =
     (case strict_try_recv s of
        (s', Inr it) \<Rightarrow> (s', Ready (Some it))
      | (s', Inl Disconnected) \<Rightarrow> (s', Ready None)
      | (s', Inl Empty) \<Rightarrow> (s', Pending))"

section \<open>The overwrite queue\<close>

definition drop_oldest_channel :: "nat \<Rightarrow> 'u lossy option" where
  "drop_oldest_channel capacity = shared_new 0 capacity \<lparr>dq_capacity = capacity\<rparr>"

definition try_send_lossy ::
  "'u lossy \<Rightarrow> 'u \<Rightarrow> 'u lossy \<times> (u64, 'u try_send_error) result" where
  "try_send_lossy s u =
     (let st = sh_state s in
      if \<not> accepts_data st \<or> \<not> sh_accepting s then (s, Inl (Closed u))
      else if length (cs_queue st) = dq_capacity (sh_slots s) then
        (let evicted = (cs_queue st \<noteq> []);
             st' = st\<lparr>cs_pending_gap := saturating_inc (cs_pending_gap st),
                      cs_queue := tl (cs_queue st) @ [u]\<rparr> in
         (s\<lparr>sh_state := st', sh_ready := True\<rparr>, Inr (if evicted then 1 else 0)))
      else (s\<lparr>sh_state := st\<lparr>cs_queue := cs_queue st @ [u]\<rparr>, sh_ready := True\<rparr>, Inr 0))"

definition try_send_error_inner :: "'a try_send_error \<Rightarrow> 'a" where
  "try_send_error_inner e = (case e of Full a \<Rightarrow> a | Closed a \<Rightarrow> a)"

definition lossy_send :: "'u lossy \<Rightarrow> 'u item \<Rightarrow> 'u lossy \<times> (unit, 'u item) result" where
  "lossy_send s it =
     (case it of
        Inr u \<Rightarrow> (let (s', r) = try_send_lossy s u in
                  (s', case r of Inl e \<Rightarrow> Inl (Inr (try_send_error_inner e)) | Inr _ \<Rightarrow> Inr ()))
      | Inl e \<Rightarrow> shared_send_terminal drop_oldest_close s e)"

definition lossy_try_recv_event ::
  "'u lossy \<Rightarrow> 'u lossy \<times> ('u subscription_event, try_recv_error) result" where
  "lossy_try_recv_event s =
     (let st = sh_state s in
      case cs_queue st of
        u # us \<Rightarrow>
          (s\<lparr>sh_state := st\<lparr>cs_queue := us, cs_pending_gap := 0\<rparr>\<rparr>,
           Inr (Update u (if cs_pending_gap st = 0 then None
                          else Some \<lparr>dropped_updates = cs_pending_gap st\<rparr>)))
      | [] \<Rightarrow>
          (case cs_terminal_error st of
             Some e \<Rightarrow> (s\<lparr>sh_state := st\<lparr>cs_terminal_error := None,
                            cs_terminal_delivered := True\<rparr>\<rparr>, Inr (EError e))
           | None \<Rightarrow> (s, Inl (if at_end s then Disconnected else Empty))))"

definition lossy_recv_event :: "'u lossy \<Rightarrow> 'u lossy \<times> 'u subscription_event option poll" where
  "lossy_recv_event s =
     (case lossy_try_recv_event s of
        (s', Inr ev) \<Rightarrow> (s', Ready (Some ev))
      | (s', Inl Disconnected) \<Rightarrow> (s', Ready None)
      | (s', Inl Empty) \<Rightarrow> (s', Pending))"

definition subscription_channel_with_policy :: "nat \<Rightarrow> overflow_policy \<Rightarrow> 'u sender_shared option" where
  "subscription_channel_with_policy capacity policy =
     (case policy of
        DropOldest \<Rightarrow> map_option SDropOldest (drop_oldest_channel capacity)
      | _ \<Rightarrow> map_option SChannel (subscription_channel capacity))"

section \<open>The callback sink\<close>

definition callback_new :: "'u callback_shared" where
  "callback_new = \<lparr>cb_callback_log = [], cb_accepting = True, cb_keep_open_on_data_loss = False,
     cb_sender_count = 1, cb_field_error = None, cb_field_error_log = [],
     cb_stream_availability = None, cb_stream_log = [], cb_on_closed = None, cb_closed_log = []\<rparr>"

definition callback_notify_closed :: "'u callback_shared \<Rightarrow> 'u callback_shared" where
  "callback_notify_closed c = (case cb_on_closed c of
       None \<Rightarrow> c | Some cb \<Rightarrow> c\<lparr>cb_closed_log := cb_closed_log c @ [cb]\<rparr>)"

definition is_data_loss :: "blp_error \<Rightarrow> bool" where
  "is_data_loss e = (case e of SubscriptionDataLoss _ _ \<Rightarrow> True | _ \<Rightarrow> False)"

definition callback_send ::
  "'u callback_shared \<Rightarrow> 'u item \<Rightarrow> 'u callback_shared \<times> (unit, 'u item) result" where
  "callback_send c it =
     (if \<not> cb_accepting c then (c, Inl it)
      else let terminal = (case it of
                 Inl e \<Rightarrow> \<not> (is_data_loss e \<and> cb_keep_open_on_data_loss c) | Inr _ \<Rightarrow> False);
               c' = (if terminal then c\<lparr>cb_accepting := False\<rparr> else c);
               c'' = c'\<lparr>cb_callback_log := cb_callback_log c' @ [it]\<rparr> in
           (if terminal then callback_notify_closed c'' else c'', Inr ()))"

section \<open>The sending half\<close>

definition sender_on_closed :: "'u sender_shared \<Rightarrow> nat \<Rightarrow> 'u sender_shared" where
  "sender_on_closed s cb =
     (case s of
        SChannel q \<Rightarrow> SChannel (shared_on_closed q cb)
      | SDropOldest q \<Rightarrow> SDropOldest (shared_on_closed q cb)
      | SCallback c \<Rightarrow>
          (let c' = (case cb_on_closed c of None \<Rightarrow> c\<lparr>cb_on_closed := Some cb\<rparr> | Some _ \<Rightarrow> c) in
           SCallback (if \<not> cb_accepting c' then callback_notify_closed c' else c')))"

definition sender_callback :: "'u sender_shared" where
  "sender_callback = SCallback callback_new"

definition sender_is_callback :: "'u sender_shared \<Rightarrow> bool" where
  "sender_is_callback s = (case s of SCallback _ \<Rightarrow> True | _ \<Rightarrow> False)"

definition sender_on_field_error :: "'u sender_shared \<Rightarrow> nat \<Rightarrow> 'u sender_shared" where
  "sender_on_field_error s cb =
     (case s of
        SCallback c \<Rightarrow> SCallback (case cb_field_error c of
           None \<Rightarrow> c\<lparr>cb_field_error := Some cb\<rparr> | Some _ \<Rightarrow> c)
      | _ \<Rightarrow> s)"

definition sender_on_stream_availability :: "'u sender_shared \<Rightarrow> nat \<Rightarrow> 'u sender_shared" where
  "sender_on_stream_availability s cb =
     (case s of
        SCallback c \<Rightarrow> SCallback (case cb_stream_availability c of
           None \<Rightarrow> c\<lparr>cb_stream_availability := Some cb\<rparr> | Some _ \<Rightarrow> c)
      | _ \<Rightarrow> s)"

definition sender_report_stream_availability :: "'u sender_shared \<Rightarrow> bool \<Rightarrow> 'u sender_shared" where
  "sender_report_stream_availability s active =
     (case s of
        SCallback c \<Rightarrow>
          SCallback (if cb_accepting c
            then (case cb_stream_availability c of
                    None \<Rightarrow> c | Some cb \<Rightarrow> c\<lparr>cb_stream_log := cb_stream_log c @ [(cb, active)]\<rparr>)
            else c)
      | _ \<Rightarrow> s)"

definition sender_keep_open_on_data_loss :: "'u sender_shared \<Rightarrow> 'u sender_shared" where
  "sender_keep_open_on_data_loss s =
     (case s of SCallback c \<Rightarrow> SCallback (c\<lparr>cb_keep_open_on_data_loss := True\<rparr>) | _ \<Rightarrow> s)"

definition sender_report_field_error ::
  "'u sender_shared \<Rightarrow> blp_error \<Rightarrow> bool \<Rightarrow> 'u sender_shared \<times> bool" where
  "sender_report_field_error s e scalar =
     (case s of
        SCallback c \<Rightarrow>
          (case cb_field_error c of
             None \<Rightarrow> (s, False)
           | Some cb \<Rightarrow>
               (SCallback (c\<lparr>cb_field_error_log := cb_field_error_log c @ [(cb, e, scalar)]\<rparr>), True))
      | _ \<Rightarrow> (s, False))"

definition sender_send_terminal ::
  "'u sender_shared \<Rightarrow> blp_error \<Rightarrow> 'u sender_shared \<times> (unit, 'u item) result" where
  "sender_send_terminal s e =
     (case s of
        SChannel q \<Rightarrow> map_prod SChannel id (shared_send_terminal semaphore_close q e)
      | SDropOldest q \<Rightarrow> map_prod SDropOldest id (shared_send_terminal drop_oldest_close q e)
      | SCallback c \<Rightarrow> map_prod SCallback id (callback_send c (Inl e)))"

definition sender_send ::
  "'u sender_shared \<Rightarrow> 'u item \<Rightarrow> 'u sender_shared \<times> (unit, 'u item) result poll" where
  "sender_send s it =
     (case s of
        SChannel q \<Rightarrow> map_prod SChannel id (strict_send q it)
      | SCallback c \<Rightarrow> map_prod SCallback Ready (callback_send c it)
      | SDropOldest q \<Rightarrow> map_prod SDropOldest Ready (lossy_send q it))"

definition sender_try_send ::
  "'u sender_shared \<Rightarrow> 'u item \<Rightarrow> 'u sender_shared \<times> (unit, 'u item try_send_error) result" where
  "sender_try_send s it =
     (case s of
        SChannel q \<Rightarrow> map_prod SChannel id (strict_try_send q it)
      | SCallback c \<Rightarrow> map_prod SCallback (map_err Closed) (callback_send c it)
      | SDropOldest q \<Rightarrow> map_prod SDropOldest (map_err Closed) (lossy_send q it))"

text \<open>The \<open>unreachable!\<close> arm of the error conversion is the outer \<open>None\<close>.\<close>

definition eviction_error :: "'u item try_send_error \<Rightarrow> 'u try_send_error option" where
  "eviction_error e =
     (case e of Closed (Inr u) \<Rightarrow> Some (Closed u) | Full (Inr u) \<Rightarrow> Some (Full u)
      | Closed (Inl _) \<Rightarrow> None | Full (Inl _) \<Rightarrow> None)"

definition sender_try_send_with_eviction ::
  "'u sender_shared \<Rightarrow> 'u \<Rightarrow> 'u sender_shared \<times> (u64, 'u try_send_error) result option" where
  "sender_try_send_with_eviction s u =
     (case s of
        SDropOldest q \<Rightarrow> map_prod SDropOldest Some (try_send_lossy q u)
      | _ \<Rightarrow> (let (s', r) = sender_try_send s (Inr u) in
              (s', case r of Inr () \<Rightarrow> Some (Inr 0)
                   | Inl e \<Rightarrow> map_option Inl (eviction_error e))))"

definition sender_fail :: "'u sender_shared \<Rightarrow> blp_error \<Rightarrow> 'u sender_shared" where
  "sender_fail s e = fst (sender_send_terminal s e)"

definition sender_close :: "'u sender_shared \<Rightarrow> 'u sender_shared" where
  "sender_close s =
     (case s of
        SChannel q \<Rightarrow> SChannel (shared_close semaphore_close q)
      | SDropOldest q \<Rightarrow> SDropOldest (shared_close drop_oldest_close q)
      | SCallback c \<Rightarrow> SCallback (callback_notify_closed (c\<lparr>cb_accepting := False\<rparr>)))"

definition sender_is_closed :: "'u sender_shared \<Rightarrow> bool" where
  "sender_is_closed s =
     (case s of
        SChannel q \<Rightarrow> \<not> sh_accepting q
      | SDropOldest q \<Rightarrow> \<not> sh_accepting q
      | SCallback c \<Rightarrow> \<not> cb_accepting c)"

definition sender_clone :: "'u sender_shared \<Rightarrow> 'u sender_shared" where
  "sender_clone s =
     (case s of
        SChannel q \<Rightarrow> SChannel (q\<lparr>sh_sender_count := sh_sender_count q + 1\<rparr>)
      | SDropOldest q \<Rightarrow> SDropOldest (q\<lparr>sh_sender_count := sh_sender_count q + 1\<rparr>)
      | SCallback c \<Rightarrow> SCallback (c\<lparr>cb_sender_count := cb_sender_count c + 1\<rparr>))"

definition sender_drop :: "'u sender_shared \<Rightarrow> 'u sender_shared" where
  "sender_drop s =
     (case s of
        SChannel q \<Rightarrow> SChannel (shared_sender_dropped q)
      | SDropOldest q \<Rightarrow> SDropOldest (shared_sender_dropped q)
      | SCallback c \<Rightarrow>
          (let old = cb_sender_count c; c' = c\<lparr>cb_sender_count := old - 1\<rparr> in
           SCallback (if old = 1 then callback_notify_closed (c'\<lparr>cb_accepting := False\<rparr>) else c')))"

text \<open>The weak terminator: \<open>None\<close> is a reference that no longer upgrades.\<close>

definition terminator_fail :: "'u sender_shared option \<Rightarrow> blp_error \<Rightarrow> 'u sender_shared option" where
  "terminator_fail target e = map_option (\<lambda>s. fst (sender_send_terminal s e)) target"

section \<open>Events\<close>

definition event_from_item :: "'u item \<Rightarrow> 'u subscription_event" where
  "event_from_item it = (case it of Inr u \<Rightarrow> Update u None | Inl e \<Rightarrow> EError e)"

definition event_into_legacy :: "'u subscription_event \<Rightarrow> 'u item" where
  "event_into_legacy ev = (case ev of Update u _ \<Rightarrow> Inr u | EError e \<Rightarrow> Inl e)"

end
