(* ===== verification/Channel_Lemmas.thy ===== *)
theory Channel_Lemmas
  imports Channel
begin

text \<open>
  Sequential behaviour of the subscription transport: what a reader drains, what a closed
  channel refuses, and how the overwrite queue accounts for every update it evicts. The
  contract that both queues give a reader is the locale \<open>terminal_queue\<close>; the strict and
  the overwrite queue interpret it.
\<close>

section \<open>Simplification rules for the shared record\<close>

named_theorems chan_simps \<open>definitions a proof about one channel step unfolds\<close>

declare notify_closed_def [chan_simps] shared_send_terminal_def [chan_simps]
  shared_close_def [chan_simps] shared_sender_dropped_def [chan_simps]
  shared_receiver_dropped_def [chan_simps] push_locked_def [chan_simps]
  try_acquire_def [chan_simps] add_permits_def [chan_simps] semaphore_close_def [chan_simps]
  drop_oldest_close_def [chan_simps] accepts_data_def [chan_simps] at_end_def [chan_simps]

lemma notify_closed_frame [simp]:
  "sh_accepting (notify_closed s) = sh_accepting s"
  "sh_state (notify_closed s) = sh_state s"
  "sh_slots (notify_closed s) = sh_slots s"
  "sh_sender_count (notify_closed s) = sh_sender_count s"
  "sh_ready (notify_closed s) = sh_ready s"
  "sh_on_closed (notify_closed s) = sh_on_closed s"
  by (simp_all add: notify_closed_def split: option.splits)

section \<open>Draining a queue\<close>

text \<open>Read until the channel has nothing more to give, at most \<open>n\<close> times.\<close>

fun drain :: "('s \<Rightarrow> 's \<times> ('ev, 'e) result) \<Rightarrow> nat \<Rightarrow> 's \<Rightarrow> 's \<times> 'ev list" where
  "drain recv 0 s = (s, [])"
| "drain recv (Suc n) s =
     (case recv s of
        (s', Inl _) \<Rightarrow> (s', [])
      | (s', Inr ev) \<Rightarrow> (let (s'', evs) = drain recv n s' in (s'', ev # evs)))"

text \<open>
  The reader's contract: pending updates come first and in order, a terminal error comes
  after the last of them and once, and a queue with neither reports whether it has ended.
\<close>

locale terminal_queue =
  fixes recv :: "'s \<Rightarrow> 's \<times> ('ev, try_recv_error) result"
    and pending :: "'s \<Rightarrow> 'u list"
    and terminal :: "'s \<Rightarrow> blp_error option"
    and finished :: "'s \<Rightarrow> bool"
    and payload :: "'ev \<Rightarrow> 'u item"
  assumes recv_data: "pending s = u # us \<Longrightarrow>
      \<exists>s' ev. recv s = (s', Inr ev) \<and> payload ev = Inr u \<and> pending s' = us
        \<and> terminal s' = terminal s \<and> finished s' = finished s"
    and recv_terminal: "pending s = [] \<Longrightarrow> terminal s = Some e \<Longrightarrow>
      \<exists>s' ev. recv s = (s', Inr ev) \<and> payload ev = Inl e \<and> pending s' = []
        \<and> terminal s' = None \<and> finished s'"
    and recv_end: "pending s = [] \<Longrightarrow> terminal s = None \<Longrightarrow>
      recv s = (s, Inl (if finished s then Disconnected else Empty))"
begin

lemma drain_terminal:
  assumes "terminal s = Some e" and "length (pending s) < n"
  shows "\<exists>s' evs. drain recv n s = (s', evs) \<and> map payload evs = map Inr (pending s) @ [Inl e]
    \<and> recv s' = (s', Inl Disconnected)"
  using assms
proof (induction n arbitrary: s)
  case 0
  then show ?case by simp
next
  case (Suc n)
  show ?case
  proof (cases "pending s")
    case Nil
    with Suc.prems obtain s' ev where step: "recv s = (s', Inr ev)" "payload ev = Inl e"
        "pending s' = []" "terminal s' = None" "finished s'"
      using recv_terminal by blast
    then have fin: "recv s' = (s', Inl Disconnected)" by (simp add: recv_end)
    then have "drain recv n s' = (s', [])" by (cases n) simp_all
    with step Nil fin show ?thesis by simp
  next
    case (Cons u us)
    then obtain s' ev where step: "recv s = (s', Inr ev)" "payload ev = Inr u"
        "pending s' = us" "terminal s' = terminal s"
      using recv_data by blast
    with Suc.prems Cons obtain s'' evs where "drain recv n s' = (s'', evs)"
        "map payload evs = map Inr us @ [Inl e]" "recv s'' = (s'', Inl Disconnected)"
      using Suc.IH [of s'] by auto
    with step Cons show ?thesis by simp
  qed
qed

lemma drain_no_terminal:
  assumes "terminal s = None" and "length (pending s) \<le> n"
  shows "\<exists>s' evs. drain recv n s = (s', evs) \<and> map payload evs = map Inr (pending s)
    \<and> recv s' = (s', Inl (if finished s then Disconnected else Empty))"
  using assms
proof (induction n arbitrary: s)
  case 0
  then show ?case by (simp add: recv_end)
next
  case (Suc n)
  show ?case
  proof (cases "pending s")
    case Nil
    with Suc.prems show ?thesis by (simp add: recv_end)
  next
    case (Cons u us)
    then obtain s' ev where step: "recv s = (s', Inr ev)" "payload ev = Inr u"
        "pending s' = us" "terminal s' = terminal s" "finished s' = finished s"
      using recv_data by blast
    with Suc.prems Cons obtain s'' evs where "drain recv n s' = (s'', evs)"
        "map payload evs = map Inr us"
        "recv s'' = (s'', Inl (if finished s then Disconnected else Empty))"
      using Suc.IH [of s'] by auto
    with step Cons show ?thesis by simp
  qed
qed

end

abbreviation sh_queue :: "('u, 'g, 'q) shared \<Rightarrow> 'u list" where
  "sh_queue s \<equiv> cs_queue (sh_state s)"

abbreviation sh_terminal :: "('u, 'g, 'q) shared \<Rightarrow> blp_error option" where
  "sh_terminal s \<equiv> cs_terminal_error (sh_state s)"

interpretation strict_reader: terminal_queue strict_try_recv sh_queue sh_terminal at_end id
  by unfold_locales
    (auto simp: strict_try_recv_def pop_locked_def at_end_def split: list.splits option.splits)

interpretation lossy_reader: terminal_queue lossy_try_recv_event sh_queue sh_terminal at_end
  event_into_legacy
  by unfold_locales
    (auto simp: lossy_try_recv_event_def event_into_legacy_def at_end_def Let_def
      split: list.splits option.splits)

section \<open>A failed channel\<close>

text \<open>The operations a sender can still attempt.\<close>

datatype 'u sender_op = OpSend "'u item" | OpTrySend "'u item" | OpFail blp_error | OpClose

fun sender_op_step :: "'u sender_shared \<Rightarrow> 'u sender_op \<Rightarrow> 'u sender_shared" where
  "sender_op_step s (OpSend it) = fst (sender_send s it)"
| "sender_op_step s (OpTrySend it) = fst (sender_try_send s it)"
| "sender_op_step s (OpFail e) = sender_fail s e"
| "sender_op_step s OpClose = sender_close s"

text \<open>What the reader of a bounded queue will still be given.\<close>

fun undelivered :: "'u sender_shared \<Rightarrow> 'u item list" where
  "undelivered (SChannel q) = map Inr (sh_queue q) @ (case sh_terminal q of None \<Rightarrow> [] | Some e \<Rightarrow> [Inl e])"
| "undelivered (SDropOldest q) = map Inr (sh_queue q) @ (case sh_terminal q of None \<Rightarrow> [] | Some e \<Rightarrow> [Inl e])"
| "undelivered (SCallback c) = []"

fun has_failed :: "'u sender_shared \<Rightarrow> bool" where
  "has_failed (SChannel q) = (\<not> sh_accepting q \<and> \<not> accepts_data (sh_state q))"
| "has_failed (SDropOldest q) = (\<not> sh_accepting q \<and> \<not> accepts_data (sh_state q))"
| "has_failed (SCallback c) = (\<not> cb_accepting c)"

lemma shared_send_terminal_refused:
  "\<not> accepts_data (sh_state s) \<Longrightarrow> shared_send_terminal cl s e = (s, Inl (Inl e))"
  by (simp add: shared_send_terminal_def)

lemma sender_op_step_failed:
  assumes "has_failed s"
  shows "has_failed (sender_op_step s opn) \<and> undelivered (sender_op_step s opn) = undelivered s"
  using assms
  by (cases s; cases opn)
    (auto simp: sender_send_def sender_try_send_def sender_fail_def sender_close_def
      sender_send_terminal_def strict_send_def strict_try_send_def lossy_send_def try_send_lossy_def
      callback_send_def shared_send_terminal_refused shared_close_def accepts_data_def Let_def
      callback_notify_closed_def
      split: sum.splits option.splits)

lemma foldl_sender_op_step_failed:
  "has_failed s \<Longrightarrow> has_failed (foldl sender_op_step s ops)
     \<and> undelivered (foldl sender_op_step s ops) = undelivered s"
proof (induction ops arbitrary: s)
  case (Cons opn ops)
  then show ?case using sender_op_step_failed [OF Cons.prems, of opn] by simp
qed simp

section \<open>The overwrite queue accounts for every eviction\<close>

text \<open>One use of the overwrite queue: an update offered by the producer or a read.\<close>

datatype 'u lossy_op = LSend 'u | LRecv

text \<open>A run, with the updates it accepted and the update events it delivered.\<close>

fun lossy_run :: "'u lossy \<Rightarrow> 'u lossy_op list \<Rightarrow> 'u lossy \<times> 'u list \<times> ('u \<times> u64) list" where
  "lossy_run s [] = (s, [], [])"
| "lossy_run s (LSend u # ops) =
     (case try_send_lossy s u of
        (s', Inl _) \<Rightarrow> lossy_run s' ops
      | (s', Inr _) \<Rightarrow> (let (s'', sent, got) = lossy_run s' ops in (s'', u # sent, got)))"
| "lossy_run s (LRecv # ops) =
     (case lossy_try_recv_event s of
        (s', Inr (Update u gap)) \<Rightarrow>
          (let (s'', sent, got) = lossy_run s' ops in
           (s'', sent, (u, case gap of None \<Rightarrow> 0 | Some g \<Rightarrow> dropped_updates g) # got))
      | (s', _) \<Rightarrow> lossy_run s' ops)"

text \<open>
  Replaying a delivered sequence against the sent one: a gap of \<open>g\<close> skips \<open>g\<close> sent updates,
  the delivered update must be the next. The result is what was sent after the last
  delivery.
\<close>

fun replay :: "'u list \<Rightarrow> ('u \<times> u64) list \<Rightarrow> 'u list option" where
  "replay sent [] = Some sent"
| "replay sent ((u, g) # evs) =
     (case drop (unat g) sent of
        [] \<Rightarrow> None
      | x # rest \<Rightarrow> if x = u then replay rest evs else None)"

definition lossy_inv :: "'u lossy \<Rightarrow> bool" where
  "lossy_inv s \<longleftrightarrow> length (sh_queue s) \<le> dq_capacity (sh_slots s) \<and> 0 < dq_capacity (sh_slots s)
     \<and> (cs_pending_gap (sh_state s) \<noteq> 0 \<longrightarrow> sh_queue s \<noteq> [])"

lemma lossy_inv_new: "drop_oldest_channel c = Some s \<Longrightarrow> lossy_inv s"
  by (auto simp: drop_oldest_channel_def shared_new_def lossy_inv_def split: if_splits)

lemma try_send_lossy_inv: "lossy_inv s \<Longrightarrow> lossy_inv (fst (try_send_lossy s u))"
  by (cases "sh_queue s") (auto simp: try_send_lossy_def lossy_inv_def Let_def)

lemma lossy_try_recv_inv: "lossy_inv s \<Longrightarrow> lossy_inv (fst (lossy_try_recv_event s))"
  by (auto simp: lossy_try_recv_event_def lossy_inv_def Let_def split: list.splits option.splits)

lemma try_send_lossy_slots: "try_send_lossy s u = (s', r) \<Longrightarrow> sh_slots s' = sh_slots s"
  by (auto simp: try_send_lossy_def Let_def split: if_splits)

lemma lossy_try_recv_slots: "lossy_try_recv_event s = (s', r) \<Longrightarrow> sh_slots s' = sh_slots s"
  by (auto simp: lossy_try_recv_event_def Let_def split: list.splits option.splits)

lemma lossy_run_slots: "lossy_run s ops = (s', sent, got) \<Longrightarrow> sh_slots s' = sh_slots s"
proof (induction ops arbitrary: s sent got)
  case (Cons opn ops)
  show ?case
  proof (cases opn)
    case (LSend u)
    obtain s1 r where "try_send_lossy s u = (s1, r)" by fastforce
    with LSend Cons show ?thesis
      by (cases r) (auto dest: try_send_lossy_slots split: prod.splits)
  next
    case LRecv
    obtain s1 r where "lossy_try_recv_event s = (s1, r)" by fastforce
    with LRecv Cons show ?thesis
      by (auto dest: lossy_try_recv_slots split: prod.splits sum.splits subscription_event.splits)
  qed
qed simp

text \<open>
  What the queue owes its reader: the updates evicted since the last read, then the queue.
  A send appends to it and a read takes the next event from its front.
\<close>

definition owed :: "'u lossy \<Rightarrow> 'u list \<Rightarrow> bool" where
  "owed s R \<longleftrightarrow> drop (unat (cs_pending_gap (sh_state s))) R = sh_queue s
     \<and> unat (cs_pending_gap (sh_state s)) \<le> length R"

lemma owed_send:
  assumes "owed s R" "lossy_inv s" "try_send_lossy s u = (s', Inr d)"
    and "length R < 2 ^ 64 - 1"
  shows "owed s' (R @ [u])"
proof (cases "length (sh_queue s) = dq_capacity (sh_slots s)")
  case True
  let ?g = "cs_pending_gap (sh_state s)"
  from True assms(2) obtain x q where q: "sh_queue s = x # q"
    by (cases "sh_queue s") (auto simp: lossy_inv_def)
  with assms(1) have R: "drop (unat ?g) R = x # q" and "unat ?g < length R"
    by (auto simp: owed_def) (metis drop_all le_less_linear list.distinct(1))
  with assms(4) have g': "unat (saturating_inc ?g) = unat ?g + 1"
    by (simp add: unat_saturating_inc)
  have "drop (unat ?g + 1) (R @ [u]) = q @ [u]"
  proof -
    have "drop (Suc (unat ?g)) R = q"
      using R by (metis drop_Suc drop_tl list.sel(3))
    then show ?thesis using \<open>unat ?g < length R\<close> by simp
  qed
  with True assms(3) q g' \<open>unat ?g < length R\<close> show ?thesis
    by (auto simp: owed_def try_send_lossy_def Let_def split: if_splits)
next
  case False
  with assms show ?thesis
    by (auto simp: owed_def try_send_lossy_def Let_def split: if_splits)
qed

lemma owed_recv:
  assumes "owed s R" "lossy_try_recv_event s = (s', Inr (Update u gap))"
  shows "\<exists>R'. drop (unat (case gap of None \<Rightarrow> 0 | Some g \<Rightarrow> dropped_updates g)) R = u # R'
    \<and> owed s' R'"
  using assms
  by (auto simp: owed_def lossy_try_recv_event_def Let_def split: list.splits option.splits if_splits)

lemma owed_recv_other:
  "owed s R \<Longrightarrow> lossy_try_recv_event s = (s', r) \<Longrightarrow> (\<forall>u g. r \<noteq> Inr (Update u g)) \<Longrightarrow> owed s' R"
  by (auto simp: owed_def lossy_try_recv_event_def Let_def split: list.splits option.splits)

lemma lossy_run_owed:
  assumes "owed s R" "lossy_inv s" "lossy_run s ops = (s', sent, got)"
    and "length R + length sent < 2 ^ 64"
  shows "\<exists>R'. replay (R @ sent) got = Some R' \<and> owed s' R' \<and> lossy_inv s'"
  using assms
proof (induction ops arbitrary: s R sent got)
  case Nil
  then show ?case by auto
next
  case (Cons opn ops)
  show ?case
  proof (cases opn)
    case (LSend u)
    obtain s1 r where send: "try_send_lossy s u = (s1, r)" by fastforce
    with Cons.prems(2) have inv1: "lossy_inv s1" using try_send_lossy_inv [of s u] by simp
    show ?thesis
    proof (cases r)
      case (Inl e)
      with send have "s1 = s" by (auto simp: try_send_lossy_def Let_def split: if_splits)
      with Inl send LSend Cons show ?thesis by auto
    next
      case (Inr d)
      with send LSend Cons.prems(3) obtain sent' where sent: "sent = u # sent'"
          and run: "lossy_run s1 ops = (s', sent', got)"
        by (auto split: prod.splits)
      have "owed s1 (R @ [u])"
        using owed_send [OF Cons.prems(1,2)] send Inr Cons.prems(4) sent by simp
      from Cons.IH [OF this inv1 run] sent Cons.prems(4) show ?thesis by simp
    qed
  next
    case LRecv
    obtain s1 r where recv: "lossy_try_recv_event s = (s1, r)" by fastforce
    with Cons.prems(2) have inv1: "lossy_inv s1" using lossy_try_recv_inv [of s] by simp
    show ?thesis
    proof (cases "\<exists>u g. r = Inr (Update u g)")
      case True
      then obtain u gap where r: "r = Inr (Update u gap)" by blast
      let ?g = "case gap of None \<Rightarrow> 0 | Some g \<Rightarrow> dropped_updates g"
      from recv r LRecv Cons.prems(3) obtain got' where got: "got = (u, ?g) # got'"
          and run: "lossy_run s1 ops = (s', sent, got')"
        by (auto split: prod.splits)
      from owed_recv [OF Cons.prems(1)] recv r obtain R' where
          R': "drop (unat ?g) R = u # R'" and o: "owed s1 R'" by blast
      then have "length R' \<le> length R" by (metis Suc_leD diff_le_self length_Cons length_drop le_trans)
      with Cons.IH [OF o inv1 run] Cons.prems(4) obtain R'' where
          "replay (R' @ sent) got' = Some R''" "owed s' R''" "lossy_inv s'" by auto
      moreover have "drop (unat ?g) (R @ sent) = u # R' @ sent"
      proof -
        have "unat ?g < length R" using R' by (metis drop_all le_less_linear list.distinct(1))
        then show ?thesis using R' by simp
      qed
      ultimately show ?thesis using got by simp
    next
      case False
      with recv LRecv Cons.prems(3) have run: "lossy_run s1 ops = (s', sent, got)"
        by (auto split: prod.splits sum.splits subscription_event.splits)
      have "owed s1 R" using owed_recv_other [OF Cons.prems(1) recv] False by blast
      from Cons.IH [OF this inv1 run] Cons.prems(4) show ?thesis by simp
    qed
  qed
qed

section \<open>The callback sink stops at its first terminal error\<close>

definition terminal_item :: "bool \<Rightarrow> 'u item \<Rightarrow> bool" where
  "terminal_item keep_open it =
     (case it of Inl e \<Rightarrow> \<not> (is_data_loss e \<and> keep_open) | Inr _ \<Rightarrow> False)"

text \<open>The items up to and including the first terminal one.\<close>

fun take_until :: "('a \<Rightarrow> bool) \<Rightarrow> 'a list \<Rightarrow> 'a list" where
  "take_until P [] = []"
| "take_until P (x # xs) = (if P x then [x] else x # take_until P xs)"

fun callback_run :: "'u callback_shared \<Rightarrow> 'u item list \<Rightarrow> 'u callback_shared" where
  "callback_run c [] = c"
| "callback_run c (it # its) = callback_run (fst (callback_send c it)) its"

lemma callback_notify_closed_frame [simp]:
  "cb_callback_log (callback_notify_closed c) = cb_callback_log c"
  "cb_accepting (callback_notify_closed c) = cb_accepting c"
  "cb_keep_open_on_data_loss (callback_notify_closed c) = cb_keep_open_on_data_loss c"
  by (simp_all add: callback_notify_closed_def split: option.splits)

lemma callback_run_closed: "\<not> cb_accepting c \<Longrightarrow> callback_run c its = c"
  by (induction its) (simp_all add: callback_send_def)

lemma callback_run_log:
  "cb_accepting c \<Longrightarrow>
     cb_callback_log (callback_run c its) =
       cb_callback_log c @ take_until (terminal_item (cb_keep_open_on_data_loss c)) its
     \<and> (cb_accepting (callback_run c its) \<longleftrightarrow>
          (\<forall>it \<in> set its. \<not> terminal_item (cb_keep_open_on_data_loss c) it))"
proof (induction its arbitrary: c)
  case (Cons it its)
  show ?case
  proof (cases "terminal_item (cb_keep_open_on_data_loss c) it")
    case True
    with Cons.prems show ?thesis
      by (auto simp: callback_send_def terminal_item_def Let_def callback_run_closed split: sum.splits)
  next
    case False
    let ?c = "c\<lparr>cb_callback_log := cb_callback_log c @ [it]\<rparr>"
    from False Cons.prems have "fst (callback_send c it) = ?c"
      by (auto simp: callback_send_def terminal_item_def Let_def split: sum.splits)
    with Cons.IH [of ?c] Cons.prems False show ?thesis by simp
  qed
qed simp

section \<open>Properties\<close>

text \<open>C6: a reader that drains a failed bounded queue receives every queued update in order, then
  the terminal error once, and then end of stream for ever, whichever strategy the queue uses.\<close>

theorem drain_delivers_all_then_error:
  fixes q :: "'u strict" and d :: "'u lossy"
  assumes "sh_terminal q = Some e" and "length (sh_queue q) < n"
    and "sh_terminal d = Some e'" and "length (sh_queue d) < n"
  shows "(\<exists>q'. drain strict_try_recv n q = (q', map Inr (sh_queue q) @ [Inl e])
          \<and> strict_try_recv q' = (q', Inl Disconnected))
    \<and> (\<exists>d' evs. drain lossy_try_recv_event n d = (d', evs)
          \<and> map event_into_legacy evs = map Inr (sh_queue d) @ [Inl e']
          \<and> lossy_try_recv_event d' = (d', Inl Disconnected))"
  using strict_reader.drain_terminal [OF assms(1,2)] lossy_reader.drain_terminal [OF assms(3,4)]
  by auto

definition sample_strict_failed :: "nat strict" where
  "sample_strict_failed = \<lparr>sh_accepting = False,
     sh_state = \<lparr>cs_queue = [1, 2], cs_pending_gap = (), cs_terminal_error = Some Timeout,
       cs_terminal_delivered = False, cs_receiver_closed = False\<rparr>,
     sh_slots = \<lparr>permits = 0, sem_closed = True\<rparr>, sh_sender_count = 1, sh_ready = True,
     sh_on_closed = None, sh_closed_log = []\<rparr>"

definition sample_lossy_failed :: "nat lossy" where
  "sample_lossy_failed = \<lparr>sh_accepting = False,
     sh_state = \<lparr>cs_queue = [5], cs_pending_gap = 3, cs_terminal_error = Some (Internal ''x''),
       cs_terminal_delivered = False, cs_receiver_closed = False\<rparr>,
     sh_slots = \<lparr>dq_capacity = 1\<rparr>, sh_sender_count = 1, sh_ready = True,
     sh_on_closed = None, sh_closed_log = []\<rparr>"

theorem drain_delivers_all_then_error_witness:
  "(\<exists>q'. drain strict_try_recv 3 sample_strict_failed = (q', [Inr 1, Inr 2, Inl Timeout])
      \<and> strict_try_recv q' = (q', Inl Disconnected))
    \<and> (\<exists>d' evs. drain lossy_try_recv_event 3 sample_lossy_failed = (d', evs)
      \<and> map event_into_legacy evs = [Inr 5, Inl (Internal ''x'')])"
  using drain_delivers_all_then_error [of sample_strict_failed Timeout 3 sample_lossy_failed
      "Internal ''x''"]
  by (auto simp: sample_strict_failed_def sample_lossy_failed_def)



text \<open>C5: the overwrite queue accounts for every update. In any run of sends and reads on a fresh
  queue, skipping each reported gap in the sent sequence finds the delivered updates exactly,
  the updates sent after the last delivery are those still queued after the pending gap, and
  the queue never exceeds its capacity.\<close>

theorem overwrite_gaps_are_exact:
  assumes "drop_oldest_channel capacity = Some s" and "lossy_run s ops = (s', sent, got)"
    and "length sent < 2 ^ 64"
  shows "\<exists>rest. replay sent got = Some rest
    \<and> drop (unat (cs_pending_gap (sh_state s'))) rest = sh_queue s'
    \<and> unat (cs_pending_gap (sh_state s')) \<le> length rest
    \<and> length (sh_queue s') \<le> capacity"
proof -
  from assms(1) have "owed s []" and "dq_capacity (sh_slots s) = capacity"
    by (auto simp: drop_oldest_channel_def shared_new_def owed_def split: if_splits)
  moreover from lossy_run_owed [OF \<open>owed s []\<close> lossy_inv_new [OF assms(1)] assms(2)] assms(3)
  obtain R where "replay sent got = Some R" "owed s' R" "lossy_inv s'" by auto
  ultimately show ?thesis using lossy_run_slots [OF assms(2)] by (auto simp: owed_def lossy_inv_def)
qed

definition sample_lossy :: "nat lossy" where
  "sample_lossy = \<lparr>sh_accepting = True,
     sh_state = \<lparr>cs_queue = [], cs_pending_gap = 0, cs_terminal_error = None,
       cs_terminal_delivered = False, cs_receiver_closed = False\<rparr>,
     sh_slots = \<lparr>dq_capacity = 2\<rparr>, sh_sender_count = 1, sh_ready = False,
     sh_on_closed = None, sh_closed_log = []\<rparr>"

theorem overwrite_gaps_are_exact_witness:
  "drop_oldest_channel 2 = Some sample_lossy
   \<and> fst (snd (lossy_run sample_lossy [LSend 1, LSend 2, LSend 3, LSend 4, LRecv, LSend 5])) = [1, 2, 3, 4, 5]
   \<and> snd (snd (lossy_run sample_lossy [LSend 1, LSend 2, LSend 3, LSend 4, LRecv, LSend 5])) = [(3, 2)]
   \<and> replay [1, 2, 3, 4, 5 :: nat] [(3, 2)] = Some [4, 5]"
proof -
  let ?ops = "[LSend 1, LSend 2, LSend 3, LSend 4, LRecv, LSend 5] :: nat lossy_op list"
  have new: "drop_oldest_channel 2 = Some sample_lossy"
    by (simp add: drop_oldest_channel_def shared_new_def sample_lossy_def)
  obtain s' where run: "lossy_run sample_lossy ?ops = (s', [1, 2, 3, 4, 5], [(3, 2)])"
    by (simp add: sample_lossy_def try_send_lossy_def lossy_try_recv_event_def accepts_data_def
        saturating_inc_def)
  from overwrite_gaps_are_exact [OF new run] obtain rest where
    "replay [1, 2, 3, 4, 5 :: nat] [(3, 2)] = Some rest" by auto
  then show ?thesis using new run by simp
qed

text \<open>C8: an inline callback receives exactly the items up to and including the first terminal
  error, a data-loss error being terminal unless the sink was told to stay open, and the sink
  closes precisely when such an error was delivered.\<close>

theorem callback_stops_at_terminal:
  assumes "cb_accepting c"
  shows "cb_callback_log (callback_run c its) =
      cb_callback_log c @ take_until (terminal_item (cb_keep_open_on_data_loss c)) its
    \<and> (cb_accepting (callback_run c its) \<longleftrightarrow>
        \<not> (\<exists>it \<in> set its. terminal_item (cb_keep_open_on_data_loss c) it))"
  using callback_run_log [OF assms, of its] by blast

theorem callback_stops_at_terminal_witness:
  "cb_accepting (callback_new :: nat callback_shared)
   \<and> cb_callback_log (callback_run (callback_new :: nat callback_shared) [Inr 1, Inl Timeout, Inr 2])
       = [Inr 1, Inl Timeout]"
proof -
  have "cb_accepting (callback_new :: nat callback_shared)" by (simp add: callback_new_def)
  with callback_stops_at_terminal [of "callback_new :: nat callback_shared" "[Inr 1, Inl Timeout, Inr 2]"] show ?thesis
    by (simp add: terminal_item_def is_data_loss_def, simp add: callback_new_def)
qed

end
