(* ===== verification/Channel_Concurrency.thy ===== *)
theory Channel_Concurrency
  imports Channel_Lemmas
begin

text \<open>
  The strict queue under interleaving. Each method of channel.rs is cut at its lock and
  semaphore operations; the sections are those of theory Channel and a step of the system
  is one section of one call. Sender calls in flight are a multiset of program points, the
  one reader (\<open>recv\<close> and \<open>try_recv\<close> take \<open>&mut self\<close>) has a program point of its own. The
  fields \<open>sy_accepted\<close>, \<open>sy_received\<close> and \<open>sy_errors\<close> record what was pushed and returned.

  The lemmas show that no interleaving exceeds the capacity or loses a permit, that
  updates arrive in the order they were accepted, that a terminal error arrives once and
  after the last of them, and that a parked reader never misses a wake-up.
\<close>

section \<open>Program points\<close>

datatype 'u thread =
    TAcquire 'u \<comment> \<open>\<open>send\<close> has seen the channel accepting and awaits a permit\<close>
  | TPush 'u \<comment> \<open>holds a permit, has not taken the lock\<close>
  | TNotify \<comment> \<open>pushed and unlocked, has not notified\<close>
  | TCloseSlots \<comment> \<open>left the lock of a terminating method, has not closed the semaphore\<close>
  | TWake \<comment> \<open>has not notified the reader of the end\<close>
  | TCallClosed \<comment> \<open>has not called the closed callback\<close>
  | TDropped \<comment> \<open>dropped the last sender, has not cleared \<open>accepting\<close>\<close>

datatype reader = Reading | Releasing | Parked | Gone

record 'u sys =
  sy_chan :: "'u strict"
  sy_threads :: "'u thread multiset"
  sy_reader :: reader
  sy_accepted :: "'u list"
  sy_received :: "'u list"
  sy_errors :: "blp_error list"

definition sys_init :: "'u strict \<Rightarrow> 'u sys" where
  "sys_init q = \<lparr>sy_chan = q, sy_threads = {#}, sy_reader = Reading,
     sy_accepted = [], sy_received = [], sy_errors = []\<rparr>"

section \<open>Steps\<close>

inductive chan_step :: "'u sys \<Rightarrow> 'u sys \<Rightarrow> bool" where
  send_begin: "sh_accepting (sy_chan s) \<Longrightarrow>
    chan_step s (s\<lparr>sy_threads := add_mset (TAcquire u) (sy_threads s)\<rparr>)"
| send_acquire: "sy_threads s = add_mset (TAcquire u) T \<Longrightarrow>
    try_acquire (sh_slots (sy_chan s)) = Acquired q \<Longrightarrow>
    chan_step s (s\<lparr>sy_chan := (sy_chan s)\<lparr>sh_slots := q\<rparr>, sy_threads := add_mset (TPush u) T\<rparr>)"
| send_abandon: "sy_threads s = add_mset (TAcquire u) T \<Longrightarrow> chan_step s (s\<lparr>sy_threads := T\<rparr>)"
| send_push: "sy_threads s = add_mset (TPush u) T \<Longrightarrow> push_locked (sy_chan s) u = (q, True) \<Longrightarrow>
    chan_step s (s\<lparr>sy_chan := q, sy_threads := add_mset TNotify T,
      sy_accepted := sy_accepted s @ [u]\<rparr>)"
| send_reject: "sy_threads s = add_mset (TPush u) T \<Longrightarrow> push_locked (sy_chan s) u = (q, False) \<Longrightarrow>
    chan_step s (s\<lparr>sy_chan := q, sy_threads := T\<rparr>)"
| send_notify: "sy_threads s = add_mset TNotify T \<Longrightarrow>
    chan_step s (s\<lparr>sy_chan := (sy_chan s)\<lparr>sh_ready := True\<rparr>, sy_threads := T\<rparr>)"
| fail_locked: "sh_sender_count (sy_chan s) \<noteq> 0 \<Longrightarrow> accepts_data (sh_state (sy_chan s)) \<Longrightarrow>
    chan_step s (s\<lparr>sy_chan := (sy_chan s)\<lparr>sh_state := (sh_state (sy_chan s))
        \<lparr>cs_terminal_error := Some e\<rparr>, sh_accepting := False\<rparr>,
      sy_threads := add_mset TCloseSlots (sy_threads s)\<rparr>)"
| close_locked: "\<not> cs_receiver_closed (sh_state (sy_chan s)) \<Longrightarrow>
    chan_step s (s\<lparr>sy_chan := (sy_chan s)\<lparr>sh_state := (sh_state (sy_chan s))
        \<lparr>cs_receiver_closed := True\<rparr>, sh_accepting := False\<rparr>,
      sy_threads := add_mset TCloseSlots (sy_threads s)\<rparr>)"
| close_slots: "sy_threads s = add_mset TCloseSlots T \<Longrightarrow>
    chan_step s (s\<lparr>sy_chan := (sy_chan s)\<lparr>sh_slots := semaphore_close (sh_slots (sy_chan s))\<rparr>,
      sy_threads := add_mset TWake T\<rparr>)"
| wake: "sy_threads s = add_mset TWake T \<Longrightarrow>
    chan_step s (s\<lparr>sy_chan := (sy_chan s)\<lparr>sh_ready := True\<rparr>, sy_threads := add_mset TCallClosed T\<rparr>)"
| call_closed: "sy_threads s = add_mset TCallClosed T \<Longrightarrow>
    chan_step s (s\<lparr>sy_chan := notify_closed (sy_chan s), sy_threads := T\<rparr>)"
| sender_clone: "sh_sender_count (sy_chan s) \<noteq> 0 \<Longrightarrow> sh_sender_count (sy_chan s) + 1 \<noteq> 0 \<Longrightarrow>
    chan_step s (s\<lparr>sy_chan := (sy_chan s)\<lparr>sh_sender_count := sh_sender_count (sy_chan s) + 1\<rparr>\<rparr>)"
| sender_drop: "sh_sender_count (sy_chan s) \<noteq> 0 \<Longrightarrow>
    chan_step s (s\<lparr>sy_chan := (sy_chan s)\<lparr>sh_sender_count := sh_sender_count (sy_chan s) - 1\<rparr>,
      sy_threads := (if sh_sender_count (sy_chan s) = 1
        then add_mset TDropped (sy_threads s) else sy_threads s)\<rparr>)"
| sender_dropped: "sy_threads s = add_mset TDropped T \<Longrightarrow>
    chan_step s (s\<lparr>sy_chan := (sy_chan s)\<lparr>sh_accepting := False\<rparr>, sy_threads := add_mset TWake T\<rparr>)"
| recv_update: "sy_reader s = Reading \<Longrightarrow> pop_locked (sy_chan s) = (q, Inr (Inr u)) \<Longrightarrow>
    chan_step s (s\<lparr>sy_chan := q, sy_reader := Releasing, sy_received := sy_received s @ [u]\<rparr>)"
| recv_release: "sy_reader s = Releasing \<Longrightarrow>
    chan_step s (s\<lparr>sy_chan := (sy_chan s)\<lparr>sh_slots := add_permits 1 (sh_slots (sy_chan s))\<rparr>,
      sy_reader := Reading\<rparr>)"
| recv_error: "sy_reader s = Reading \<Longrightarrow> pop_locked (sy_chan s) = (q, Inr (Inl e)) \<Longrightarrow>
    chan_step s (s\<lparr>sy_chan := q, sy_errors := sy_errors s @ [e]\<rparr>)"
| recv_park: "sy_reader s = Reading \<Longrightarrow> pop_locked (sy_chan s) = (q, Inl Empty) \<Longrightarrow>
    chan_step s (s\<lparr>sy_reader := Parked\<rparr>)"
| recv_wake: "sy_reader s = Parked \<Longrightarrow> sh_ready (sy_chan s) \<Longrightarrow>
    chan_step s (s\<lparr>sy_chan := (sy_chan s)\<lparr>sh_ready := False\<rparr>, sy_reader := Reading\<rparr>)"
| recv_cancel: "sy_reader s = Parked \<Longrightarrow> chan_step s (s\<lparr>sy_reader := Reading\<rparr>)"
| recv_dropped: "sy_reader s = Reading \<Longrightarrow>
    chan_step s (s\<lparr>sy_chan := (sy_chan s)\<lparr>sh_state := (sh_state (sy_chan s))
        \<lparr>cs_receiver_closed := True, cs_queue := [], cs_terminal_error := None\<rparr>, sh_accepting := False\<rparr>,
      sy_threads := add_mset TCloseSlots (sy_threads s), sy_reader := Gone\<rparr>)"

inductive chan_reach :: "nat \<Rightarrow> 'u sys \<Rightarrow> bool" for capacity where
  reach_init: "subscription_channel capacity = Some q \<Longrightarrow> chan_reach capacity (sys_init q)"
| reach_step: "chan_reach capacity s \<Longrightarrow> chan_step s s' \<Longrightarrow> chan_reach capacity s'"

section \<open>The invariant\<close>

definition is_pusher :: "'u thread \<Rightarrow> bool" where
  "is_pusher t = (case t of TPush _ \<Rightarrow> True | _ \<Rightarrow> False)"

definition is_waker :: "'u thread \<Rightarrow> bool" where
  "is_waker t \<longleftrightarrow> t = TNotify \<or> t = TCloseSlots \<or> t = TWake \<or> t = TDropped"

definition pushers :: "'u sys \<Rightarrow> nat" where
  "pushers s = size (filter_mset is_pusher (sy_threads s))"

definition releasing :: "'u sys \<Rightarrow> nat" where
  "releasing s = (if sy_reader s = Releasing then 1 else 0)"

text \<open>Every permit is free, held by a pushing sender, standing for a queued update, or about
  to be returned by the reader. A dropped receiver takes its queue's permits with it.\<close>

definition permits_inv :: "nat \<Rightarrow> 'u sys \<Rightarrow> bool" where
  "permits_inv capacity s \<longleftrightarrow>
     (let total = permits (sh_slots (sy_chan s)) + pushers s + length (sh_queue (sy_chan s))
            + releasing s in
      total \<le> capacity \<and> (sy_reader s \<noteq> Gone \<longrightarrow> total = capacity))"

definition closed_inv :: "'u sys \<Rightarrow> bool" where
  "closed_inv s \<longleftrightarrow>
     (sh_accepting (sy_chan s) \<longrightarrow> accepts_data (sh_state (sy_chan s)))
     \<and> (sem_closed (sh_slots (sy_chan s)) \<longrightarrow> \<not> accepts_data (sh_state (sy_chan s)))
     \<and> (TCloseSlots \<in># sy_threads s \<longrightarrow> \<not> accepts_data (sh_state (sy_chan s)))
     \<and> (sy_reader s = Gone \<longrightarrow> cs_receiver_closed (sh_state (sy_chan s)) \<and> sh_queue (sy_chan s) = [])"

definition order_inv :: "'u sys \<Rightarrow> bool" where
  "order_inv s \<longleftrightarrow>
     (sy_reader s \<noteq> Gone \<longrightarrow> sy_accepted s = sy_received s @ sh_queue (sy_chan s))
     \<and> (\<exists>rest. sy_accepted s = sy_received s @ rest)"

definition terminal_inv :: "'u sys \<Rightarrow> bool" where
  "terminal_inv s \<longleftrightarrow>
     (if cs_terminal_delivered (sh_state (sy_chan s))
      then length (sy_errors s) = 1 \<and> sh_queue (sy_chan s) = []
        \<and> sh_terminal (sy_chan s) = None
      else sy_errors s = [])"

definition nothing_to_read :: "('u, 'g, 'q) shared \<Rightarrow> bool" where
  "nothing_to_read q \<longleftrightarrow> sh_queue q = [] \<and> sh_terminal q = None \<and> \<not> at_end q"

definition wakeup_inv :: "'u sys \<Rightarrow> bool" where
  "wakeup_inv s \<longleftrightarrow>
     (sy_reader s = Parked \<longrightarrow>
        nothing_to_read (sy_chan s) \<or> sh_ready (sy_chan s) \<or> (\<exists>t \<in># sy_threads s. is_waker t))"

lemma pushers_simps:
  "sy_threads s = add_mset t T \<Longrightarrow>
     pushers s = (if is_pusher t then 1 else 0) + size (filter_mset is_pusher T)"
  by (simp add: pushers_def)

lemma pop_locked_Update:
  "pop_locked s = (q, Inr (Inr u)) \<longleftrightarrow>
     (\<exists>us. sh_queue s = u # us \<and> q = s\<lparr>sh_state := (sh_state s)\<lparr>cs_queue := us\<rparr>\<rparr>)"
  by (auto simp: pop_locked_def split: list.splits option.splits)

lemma pop_locked_Error:
  "pop_locked s = (q, Inr (Inl e)) \<longleftrightarrow>
     sh_queue s = [] \<and> sh_terminal s = Some e
     \<and> q = s\<lparr>sh_state := (sh_state s)\<lparr>cs_terminal_error := None, cs_terminal_delivered := True\<rparr>\<rparr>"
  by (auto simp: pop_locked_def split: list.splits option.splits)

lemma pop_locked_Empty:
  "pop_locked s = (q, Inl Empty) \<longleftrightarrow> nothing_to_read s \<and> q = s"
  by (auto simp: pop_locked_def nothing_to_read_def split: list.splits option.splits if_splits)

lemma push_locked_True:
  "push_locked s u = (q, True) \<longleftrightarrow> accepts_data (sh_state s)
     \<and> q = s\<lparr>sh_state := (sh_state s)\<lparr>cs_queue := sh_queue s @ [u]\<rparr>\<rparr>"
  by (auto simp: push_locked_def)

lemma push_locked_False:
  "push_locked s u = (q, False) \<longleftrightarrow> \<not> accepts_data (sh_state s)
     \<and> q = s\<lparr>sh_slots := add_permits 1 (sh_slots s)\<rparr>"
  by (auto simp: push_locked_def)

lemma try_acquire_Acquired:
  "try_acquire p = Acquired q \<longleftrightarrow> \<not> sem_closed p \<and> 0 < permits p
     \<and> q = p\<lparr>permits := permits p - 1\<rparr>"
  by (auto simp: try_acquire_def)

lemmas section_simps = pop_locked_Update pop_locked_Error pop_locked_Empty push_locked_True
  push_locked_False try_acquire_Acquired

lemma chan_step_permits:
  assumes "chan_step s s'" "closed_inv s" "permits_inv c s"
  shows "permits_inv c s'"
  using assms
  by (induction rule: chan_step.induct)
    (auto simp: section_simps permits_inv_def closed_inv_def pushers_def releasing_def is_pusher_def
      add_permits_def semaphore_close_def accepts_data_def Let_def)

lemma chan_step_closed:
  assumes "chan_step s s'" "closed_inv s"
  shows "closed_inv s'"
  using assms
  by (induction rule: chan_step.induct)
    (auto simp: section_simps closed_inv_def add_permits_def semaphore_close_def accepts_data_def)

lemma chan_step_order:
  assumes "chan_step s s'" "closed_inv s" "order_inv s"
  shows "order_inv s'"
  using assms
  by (induction rule: chan_step.induct)
    (auto simp: section_simps order_inv_def closed_inv_def accepts_data_def)

lemma chan_step_terminal:
  assumes "chan_step s s'" "terminal_inv s"
  shows "terminal_inv s'"
  using assms
  by (induction rule: chan_step.induct)
    (auto simp: section_simps terminal_inv_def accepts_data_def split: if_splits)

lemma chan_step_wakeup:
  assumes "chan_step s s'" "wakeup_inv s"
  shows "wakeup_inv s'"
  using assms
  by (induction rule: chan_step.induct)
    (auto simp: section_simps wakeup_inv_def is_waker_def nothing_to_read_def at_end_def
      accepts_data_def add_permits_def semaphore_close_def)

lemma chan_reach_inv:
  assumes "chan_reach c s"
  shows "permits_inv c s \<and> closed_inv s \<and> order_inv s \<and> terminal_inv s \<and> wakeup_inv s"
  using assms
proof (induction rule: chan_reach.induct)
  case (reach_init q)
  then have q: "sh_slots q = \<lparr>permits = c, sem_closed = False\<rparr>" "sh_queue q = []"
      "accepts_data (sh_state q)" "\<not> cs_terminal_delivered (sh_state q)"
    by (auto simp: subscription_channel_def shared_new_def accepts_data_def split: if_splits)
  then show ?case
    by (simp add: sys_init_def permits_inv_def closed_inv_def order_inv_def terminal_inv_def
        wakeup_inv_def pushers_def releasing_def)
next
  case (reach_step s s')
  then show ?case
    using chan_step_permits chan_step_closed chan_step_order chan_step_terminal chan_step_wakeup
    by blast
qed

section \<open>Methods are runs of steps\<close>

text \<open>A method of theory Channel, run alone, is a sequence of steps of the system, so what
  holds of every reachable state holds around every call.\<close>

lemma try_send_steps:
  assumes "strict_try_send (sy_chan s) (Inr u) = (q', Inr ())"
  shows "chan_step\<^sup>*\<^sup>* s (s\<lparr>sy_chan := q', sy_accepted := sy_accepted s @ [u]\<rparr>)"
proof -
  let ?q = "sy_chan s" and ?T = "sy_threads s"
  from assms obtain sl q where acc: "sh_accepting ?q" and acq: "try_acquire (sh_slots ?q) = Acquired sl"
      and push: "push_locked (?q\<lparr>sh_slots := sl\<rparr>) u = (q, True)" and q': "q' = q\<lparr>sh_ready := True\<rparr>"
    by (auto simp: strict_try_send_def split: if_splits acquire_result.splits prod.splits bool.splits)
  let ?s1 = "s\<lparr>sy_threads := add_mset (TAcquire u) ?T\<rparr>"
  let ?s2 = "?s1\<lparr>sy_chan := ?q\<lparr>sh_slots := sl\<rparr>, sy_threads := add_mset (TPush u) ?T\<rparr>"
  let ?s3 = "?s2\<lparr>sy_chan := q, sy_threads := add_mset TNotify ?T, sy_accepted := sy_accepted s @ [u]\<rparr>"
  have "chan_step s ?s1" using acc by (rule chan_step.send_begin)
  moreover have "chan_step ?s1 ?s2"
    using chan_step.send_acquire [of ?s1 u ?T sl] acq by simp
  moreover have "chan_step ?s2 ?s3"
    using chan_step.send_push [of ?s2 u ?T q] push by simp
  moreover have "chan_step ?s3 (s\<lparr>sy_chan := q', sy_accepted := sy_accepted s @ [u]\<rparr>)"
    using chan_step.send_notify [of ?s3 ?T] q' by (cases s) simp
  ultimately show ?thesis by (meson converse_rtranclp_into_rtranclp rtranclp.rtrancl_refl)
qed

lemma send_terminal_steps:
  assumes "shared_send_terminal semaphore_close (sy_chan s) e = (q', Inr ())"
  shows "chan_step\<^sup>*\<^sup>* s (s\<lparr>sy_chan := q'\<rparr>)"
proof -
  let ?q = "sy_chan s" and ?T = "sy_threads s"
  from assms have guard: "sh_sender_count ?q \<noteq> 0" "accepts_data (sh_state ?q)"
    and q': "q' = notify_closed (?q\<lparr>sh_state := (sh_state ?q)\<lparr>cs_terminal_error := Some e\<rparr>,
        sh_accepting := False, sh_slots := semaphore_close (sh_slots ?q), sh_ready := True\<rparr>)"
    by (auto simp: shared_send_terminal_def split: if_splits)
  let ?q1 = "?q\<lparr>sh_state := (sh_state ?q)\<lparr>cs_terminal_error := Some e\<rparr>, sh_accepting := False\<rparr>"
  let ?s1 = "s\<lparr>sy_chan := ?q1, sy_threads := add_mset TCloseSlots ?T\<rparr>"
  let ?s2 = "s\<lparr>sy_chan := ?q1\<lparr>sh_slots := semaphore_close (sh_slots ?q)\<rparr>, sy_threads := add_mset TWake ?T\<rparr>"
  let ?s3 = "s\<lparr>sy_chan := ?q1\<lparr>sh_slots := semaphore_close (sh_slots ?q), sh_ready := True\<rparr>,
    sy_threads := add_mset TCallClosed ?T\<rparr>"
  have "chan_step s ?s1" using guard by (rule chan_step.fail_locked)
  moreover have "chan_step ?s1 ?s2" using chan_step.close_slots [of ?s1 ?T] by simp
  moreover have "chan_step ?s2 ?s3" using chan_step.wake [of ?s2 ?T] by simp
  moreover have "chan_step ?s3 (s\<lparr>sy_chan := q'\<rparr>)"
    using chan_step.call_closed [of ?s3 ?T] q' by simp
  ultimately show ?thesis by (meson converse_rtranclp_into_rtranclp rtranclp.rtrancl_refl)
qed

lemma try_recv_steps:
  assumes "sy_reader s = Reading" and "strict_try_recv (sy_chan s) = (q', Inr (Inr u))"
  shows "chan_step\<^sup>*\<^sup>* s (s\<lparr>sy_chan := q', sy_received := sy_received s @ [u]\<rparr>)"
proof -
  from assms(2) obtain q where pop: "pop_locked (sy_chan s) = (q, Inr (Inr u))"
      and q': "q' = q\<lparr>sh_slots := add_permits 1 (sh_slots q)\<rparr>"
    by (auto simp: strict_try_recv_def Let_def split: prod.splits)
  let ?s1 = "s\<lparr>sy_chan := q, sy_reader := Releasing, sy_received := sy_received s @ [u]\<rparr>"
  have "chan_step s ?s1" using chan_step.recv_update [OF assms(1) pop] .
  moreover have "chan_step ?s1 (s\<lparr>sy_chan := q', sy_received := sy_received s @ [u]\<rparr>)"
    using chan_step.recv_release [of ?s1] q' assms(1) by (cases s) simp
  ultimately show ?thesis by (meson converse_rtranclp_into_rtranclp rtranclp.rtrancl_refl)
qed

lemma chan_reach_steps: "chan_step\<^sup>*\<^sup>* s s' \<Longrightarrow> chan_reach c s \<Longrightarrow> chan_reach c s'"
  by (induction rule: rtranclp_induct) (auto intro: reach_step)

section \<open>Sample runs\<close>

definition sample_chan :: "nat list \<Rightarrow> nat \<Rightarrow> nat strict" where
  "sample_chan q p = \<lparr>sh_accepting = True,
     sh_state = \<lparr>cs_queue = q, cs_pending_gap = (), cs_terminal_error = None,
       cs_terminal_delivered = False, cs_receiver_closed = False\<rparr>,
     sh_slots = \<lparr>permits = p, sem_closed = False\<rparr>, sh_sender_count = 1, sh_ready = False,
     sh_on_closed = None, sh_closed_log = []\<rparr>"

text \<open>The reader parks on an empty queue and a sender pushes without having notified yet.\<close>

definition sample_parked :: "nat sys" where
  "sample_parked = \<lparr>sy_chan = sample_chan [7] 0, sy_threads = {#TNotify#}, sy_reader = Parked,
     sy_accepted = [7], sy_received = [], sy_errors = []\<rparr>"

text \<open>One update is sent and received, then the channel fails and the error is received.\<close>

definition sample_failed :: "nat sys" where
  "sample_failed = \<lparr>sy_chan = \<lparr>sh_accepting = False,
       sh_state = \<lparr>cs_queue = [], cs_pending_gap = (), cs_terminal_error = None,
         cs_terminal_delivered = True, cs_receiver_closed = False\<rparr>,
       sh_slots = \<lparr>permits = 2, sem_closed = True\<rparr>, sh_sender_count = 1, sh_ready = True,
       sh_on_closed = None, sh_closed_log = []\<rparr>,
     sy_threads = {#}, sy_reader = Reading, sy_accepted = [7], sy_received = [7],
     sy_errors = [Timeout]\<rparr>"

lemma sample_start: "chan_reach c (sys_init (sample_chan [] c))" if "0 < c"
proof -
  from that have "subscription_channel c = Some (sample_chan [] c)"
    by (simp add: subscription_channel_def shared_new_def sample_chan_def)
  then show ?thesis by (rule reach_init)
qed

lemma sample_parked_reach: "chan_reach 1 sample_parked"
proof -
  let ?s0 = "sys_init (sample_chan [] 1)"
  let ?s1 = "?s0\<lparr>sy_reader := Parked\<rparr>"
  let ?s2 = "?s1\<lparr>sy_threads := {#TAcquire 7#}\<rparr>"
  let ?s3 = "?s1\<lparr>sy_chan := sample_chan [] 0, sy_threads := {#TPush 7#}\<rparr>"
  have "chan_reach 1 ?s0" by (rule sample_start) simp
  moreover have "chan_step ?s0 ?s1"
    by (rule chan_step.recv_park [where q = "sample_chan [] 1"])
      (simp_all add: sys_init_def sample_chan_def pop_locked_def at_end_def)
  moreover have "chan_step ?s1 ?s2"
    using chan_step.send_begin [of ?s1 7] by (simp add: sys_init_def sample_chan_def)
  moreover have "chan_step ?s2 ?s3"
    using chan_step.send_acquire [of ?s2 7 "{#}" "\<lparr>permits = 0, sem_closed = False\<rparr>"]
    by (simp add: sys_init_def sample_chan_def try_acquire_def)
  moreover have "chan_step ?s3 sample_parked"
    using chan_step.send_push [of ?s3 7 "{#}" "sample_chan [7] 0"]
    by (simp add: sys_init_def sample_chan_def sample_parked_def push_locked_def accepts_data_def)
  ultimately show ?thesis by (blast intro: reach_step)
qed

lemma sample_failed_reach: "chan_reach 2 sample_failed"
proof -
  let ?s0 = "sys_init (sample_chan [] 2)"
  let ?q1 = "(sample_chan [7] 1)\<lparr>sh_ready := True\<rparr>"
  let ?s1 = "?s0\<lparr>sy_chan := ?q1, sy_accepted := [7]\<rparr>"
  let ?q2 = "?q1\<lparr>sh_state := (sh_state ?q1)\<lparr>cs_terminal_error := Some Timeout\<rparr>,
    sh_accepting := False, sh_slots := \<lparr>permits = 1, sem_closed = True\<rparr>\<rparr>"
  let ?s2 = "?s1\<lparr>sy_chan := ?q2\<rparr>"
  let ?q3 = "?q2\<lparr>sh_state := (sh_state ?q2)\<lparr>cs_queue := []\<rparr>,
    sh_slots := \<lparr>permits = 2, sem_closed = True\<rparr>\<rparr>"
  let ?s3 = "?s2\<lparr>sy_chan := ?q3, sy_received := [7]\<rparr>"
  have "chan_reach 2 ?s0" by (rule sample_start) simp
  moreover have "chan_step\<^sup>*\<^sup>* ?s0 ?s1"
    using try_send_steps [of ?s0 7 ?q1]
    by (simp add: sys_init_def sample_chan_def strict_try_send_def push_locked_def accepts_data_def
        try_acquire_def)
  moreover have "chan_step\<^sup>*\<^sup>* ?s1 ?s2"
    using send_terminal_steps [of ?s1 Timeout ?q2]
    by (simp add: sys_init_def sample_chan_def shared_send_terminal_def accepts_data_def
        semaphore_close_def notify_closed_def)
  moreover have "chan_step\<^sup>*\<^sup>* ?s2 ?s3"
    using try_recv_steps [of ?s2 ?q3 7]
    by (simp add: sys_init_def sample_chan_def strict_try_recv_def pop_locked_def add_permits_def)
  ultimately have "chan_reach 2 ?s3" by (meson chan_reach_steps)
  moreover have "chan_step ?s3 sample_failed"
    using chan_step.recv_error [of ?s3 _ Timeout]
    by (simp add: sys_init_def sample_chan_def sample_failed_def pop_locked_def)
  ultimately show ?thesis by (rule reach_step)
qed

section \<open>Properties\<close>

text \<open>C4: in every interleaving of senders, terminators and the reader, the strict queue holds
  at most \<open>capacity\<close> updates, and while the receiver exists no permit is lost: free permits,
  permits held by senders, queued updates and the permit the reader is returning add up to
  the capacity.\<close>

theorem strict_queue_bounded:
  assumes "chan_reach capacity s"
  shows "length (sh_queue (sy_chan s)) \<le> capacity
    \<and> (sy_reader s \<noteq> Gone \<longrightarrow>
         permits (sh_slots (sy_chan s)) + pushers s + length (sh_queue (sy_chan s)) + releasing s = capacity)"
  using chan_reach_inv [OF assms] by (auto simp: permits_inv_def Let_def)

theorem strict_queue_bounded_witness:
  "chan_reach 1 sample_parked \<and> length (sh_queue (sy_chan sample_parked)) = 1
    \<and> length (sh_queue (sy_chan sample_parked)) \<le> 1"
  using strict_queue_bounded [OF sample_parked_reach] sample_parked_reach
  by (simp add: sample_parked_def sample_chan_def)

text \<open>C1: updates reach the reader in the order the queue accepted them and none is lost or
  duplicated: what was accepted is what was received followed by what is queued.\<close>

theorem strict_queue_fifo:
  assumes "chan_reach capacity s" and "sy_reader s \<noteq> Gone"
  shows "sy_accepted s = sy_received s @ sh_queue (sy_chan s)"
  using chan_reach_inv [OF assms(1)] assms(2) by (simp add: order_inv_def)

theorem strict_queue_fifo_witness:
  "chan_reach 1 sample_parked \<and> sy_reader sample_parked \<noteq> Gone
    \<and> sy_accepted sample_parked = sy_received sample_parked @ sh_queue (sy_chan sample_parked)
    \<and> sy_accepted sample_parked = [7]"
proof -
  have "sy_reader sample_parked \<noteq> Gone" by (simp add: sample_parked_def)
  with strict_queue_fifo [OF sample_parked_reach this] sample_parked_reach show ?thesis
    by (simp add: sample_parked_def)
qed

text \<open>C2: a terminal error is received at most once, and only after every update the queue
  accepted has been received; nothing is accepted or received after it.\<close>

theorem strict_terminal_once_and_last:
  assumes "chan_reach capacity s"
  shows "length (sy_errors s) \<le> 1
    \<and> (sy_errors s \<noteq> [] \<and> sy_reader s \<noteq> Gone \<longrightarrow>
         sy_received s = sy_accepted s \<and> \<not> accepts_data (sh_state (sy_chan s))
         \<and> pop_locked (sy_chan s) = (sy_chan s, Inl Disconnected))"
proof -
  note inv = chan_reach_inv [OF assms]
  show ?thesis
  proof (cases "cs_terminal_delivered (sh_state (sy_chan s))")
    case True
    with inv show ?thesis
      by (auto simp: terminal_inv_def order_inv_def accepts_data_def pop_locked_def at_end_def)
  next
    case False
    with inv show ?thesis by (simp add: terminal_inv_def)
  qed
qed

theorem strict_terminal_once_and_last_witness:
  "chan_reach 2 sample_failed \<and> sy_errors sample_failed = [Timeout]
    \<and> length (sy_errors sample_failed) \<le> 1
    \<and> sy_received sample_failed = sy_accepted sample_failed"
proof -
  have "sy_errors sample_failed = [Timeout]" and "sy_reader sample_failed \<noteq> Gone"
    by (simp_all add: sample_failed_def)
  with strict_terminal_once_and_last [OF sample_failed_reach] sample_failed_reach show ?thesis
    by simp
qed

text \<open>C3: a parked reader never misses a wake-up: when an update, an error or the end of the
  stream is there to be read, the notification is stored or a call in flight has still to
  give it.\<close>

theorem strict_no_lost_wakeup:
  assumes "chan_reach capacity s" and "sy_reader s = Parked"
    and "sh_queue (sy_chan s) \<noteq> [] \<or> sh_terminal (sy_chan s) \<noteq> None \<or> at_end (sy_chan s)"
  shows "sh_ready (sy_chan s) \<or> (\<exists>t \<in># sy_threads s. is_waker t)"
  using chan_reach_inv [OF assms(1)] assms(2,3) by (auto simp: wakeup_inv_def nothing_to_read_def)

theorem strict_no_lost_wakeup_witness:
  "chan_reach 1 sample_parked \<and> sy_reader sample_parked = Parked
    \<and> sh_queue (sy_chan sample_parked) \<noteq> []
    \<and> (sh_ready (sy_chan sample_parked) \<or> (\<exists>t \<in># sy_threads sample_parked. is_waker t))"
proof -
  have "sy_reader sample_parked = Parked" and "sh_queue (sy_chan sample_parked) \<noteq> []"
    by (simp_all add: sample_parked_def sample_chan_def)
  with strict_no_lost_wakeup [OF sample_parked_reach] sample_parked_reach show ?thesis by blast
qed

end
