(* ===== verification/State_Delivery.thy ===== *)
theory State_Delivery
  imports Errors
begin

text \<open>
  Consumer-local delivery of topic state (engine/shared_subscriptions/state_delivery.rs): the
  dirty-topic table, the receipts a reader leases from it, and the frozen drain of a closing
  subscription. The feed image is outside this component: a snapshot of it is an argument, a
  revision and a row, as \<open>snapshot_image\<close> returns them; so is the conversion of rows to a
  delivery. Feeds, field layouts and captured updates are references, named by numbers. The
  pool of spare value buffers and the cached read plans only save allocations and are left out.
  A \<open>HashMap\<close> of members is an association list.
\<close>

section \<open>Data\<close>

record image_row =
  ir_label :: string
  ir_last_update :: "i64 option"
  ir_live :: bool
  ir_delayed :: "bool option"
  ir_valid :: bool
  ir_layout :: nat
  ir_projected :: "nat option"

definition invalidate_row :: "image_row \<Rightarrow> image_row" where
  "invalidate_row r = r\<lparr>ir_valid := False, ir_live := False, ir_projected := None\<rparr>"

record dirty_member =
  dm_feed :: nat
  dm_label :: string
  dm_revision :: u64
  dm_acknowledged :: "u64 option"
  dm_invalidated :: "u64 option"
  dm_queued :: bool
  dm_in_flight :: bool
  dm_retired :: bool
  dm_final_image :: "(u64 \<times> image_row) option"

record selected_member =
  se_key :: slab_key
  se_feed :: nat
  se_invalidated :: "u64 option"
  se_final_image :: "(u64 \<times> image_row) option"

record receipt_key =
  rk_key :: slab_key
  rk_acknowledged :: u64
  rk_invalidated :: "u64 option"

record frozen_image =
  fz_key :: slab_key
  fz_revision :: u64
  fz_invalidated :: "u64 option"
  fz_recovery_epoch :: bool
  fz_row :: image_row

record dirty_state =
  ds_members :: "(slab_key \<times> dirty_member) list"
  ds_queue :: "slab_key list"
  ds_frozen_images :: "frozen_image list"
  ds_frozen_queue :: "nat list"
  ds_live_batch_high_water :: nat
  ds_terminal :: "blp_error option"
  ds_terminal_in_flight :: bool
  ds_terminal_delivered :: bool
  ds_source_closed :: bool
  ds_receiver_closed :: bool
  ds_freezing :: bool
  ds_frozen :: bool

record 'd receipt =
  rp_result :: "('d, blp_error) result option"
  rp_keys :: "receipt_key list"
  rp_frozen_ids :: "nat list"
  rp_terminal :: bool
  rp_finished :: bool

definition delivery_channel :: dirty_state where
  "delivery_channel =
     \<lparr>ds_members = [], ds_queue = [], ds_frozen_images = [], ds_frozen_queue = [],
      ds_live_batch_high_water = 0, ds_terminal = None, ds_terminal_in_flight = False,
      ds_terminal_delivered = False, ds_source_closed = False, ds_receiver_closed = False,
      ds_freezing = False, ds_frozen = False\<rparr>"

abbreviation member_of :: "dirty_state \<Rightarrow> slab_key \<Rightarrow> dirty_member option" where
  "member_of st \<equiv> map_of (ds_members st)"

abbreviation set_member :: "slab_key \<Rightarrow> dirty_member \<Rightarrow> dirty_state \<Rightarrow> dirty_state" where
  "set_member key m st \<equiv> st\<lparr>ds_members := AList.update key m (ds_members st)\<rparr>"

section \<open>The source side\<close>

definition new_member :: "nat \<Rightarrow> u64 \<Rightarrow> string \<Rightarrow> dirty_member" where
  "new_member feed revision label =
     \<lparr>dm_feed = feed, dm_label = label, dm_revision = revision, dm_acknowledged = None,
      dm_invalidated = None, dm_queued = True, dm_in_flight = False, dm_retired = False,
      dm_final_image = None\<rparr>"

definition register :: "slab_key \<Rightarrow> nat \<Rightarrow> u64 \<Rightarrow> string \<Rightarrow> dirty_state \<Rightarrow> dirty_state" where
  "register key feed revision label st =
     (if ds_source_closed st \<or> ds_receiver_closed st \<or> ds_freezing st \<or> ds_frozen st then st
      else
        (let members = filter (\<lambda>(_, m). \<not> dm_retired m \<or> dm_label m \<noteq> label) (ds_members st);
             queue = filter (\<lambda>q. q \<in> fst ` set members) (ds_queue st)
         in st\<lparr>ds_members := AList.update key (new_member feed revision label) members,
               ds_queue := queue @ [key]\<rparr>))"

text \<open>The tail of \<open>mark\<close> and \<open>retire\<close>: queue the member unless a reader will come back to it.\<close>

definition enqueue_member :: "slab_key \<Rightarrow> dirty_member \<Rightarrow> dirty_state \<Rightarrow> dirty_state" where
  "enqueue_member key m st =
     (if ds_freezing st \<or> dm_queued m \<or> dm_in_flight m then set_member key m st
      else (set_member key (m\<lparr>dm_queued := True\<rparr>) st)\<lparr>ds_queue := ds_queue st @ [key]\<rparr>)"

definition mark :: "slab_key \<Rightarrow> u64 \<Rightarrow> bool \<Rightarrow> dirty_state \<Rightarrow> dirty_state" where
  "mark key revision invalidated st =
     (if ds_source_closed st \<or> ds_receiver_closed st \<or> ds_frozen st then st
      else case member_of st key of
             None \<Rightarrow> st
           | Some m \<Rightarrow>
               enqueue_member key
                 (m\<lparr>dm_revision := max (dm_revision m) revision,
                    dm_invalidated := (if invalidated \<and> dm_invalidated m = None then Some revision
                                       else dm_invalidated m)\<rparr>) st)"

definition retire :: "slab_key \<Rightarrow> image_row \<Rightarrow> dirty_state \<Rightarrow> dirty_state" where
  "retire key row st =
     (if ds_source_closed st \<or> ds_receiver_closed st \<or> ds_frozen st then st
      else case member_of st key of
             None \<Rightarrow> st
           | Some m \<Rightarrow>
               (let revision = saturating_inc (dm_revision m)
                in enqueue_member key
                     (m\<lparr>dm_revision := revision, dm_invalidated := None, dm_retired := True,
                        dm_final_image := Some (revision, row)\<rparr>) st))"

definition remove :: "slab_key \<Rightarrow> dirty_state \<Rightarrow> dirty_state" where
  "remove key st =
     st\<lparr>ds_members := AList.delete key (ds_members st),
        ds_queue := filter (\<lambda>q. q \<noteq> key) (ds_queue st)\<rparr>"

definition detach :: "slab_key \<Rightarrow> dirty_state \<Rightarrow> dirty_state" where
  "detach key st = (if ds_frozen st \<or> ds_freezing st then st else remove key st)"

definition fail :: "blp_error \<Rightarrow> dirty_state \<Rightarrow> dirty_state" where
  "fail e st =
     (if ds_receiver_closed st \<or> ds_terminal_delivered st \<or> ds_terminal_in_flight st then st
      else st\<lparr>ds_terminal := (case ds_terminal st of None \<Rightarrow> Some e | Some old \<Rightarrow> Some old),
              ds_source_closed := True, ds_queue := [], ds_frozen_queue := [],
              ds_members := map (\<lambda>(k, m). (k, m\<lparr>dm_queued := False\<rparr>)) (ds_members st)\<rparr>)"

definition close_source :: "dirty_state \<Rightarrow> dirty_state" where
  "close_source st =
     (if \<not> ds_frozen st \<and> \<not> ds_freezing st
      then st\<lparr>ds_source_closed := True, ds_queue := [], ds_live_batch_high_water := 0, ds_members := []\<rparr>
      else st\<lparr>ds_source_closed := True\<rparr>)"

section \<open>Finishing a receipt\<close>

definition finish_member :: "bool \<Rightarrow> receipt_key \<Rightarrow> dirty_member \<Rightarrow> dirty_member" where
  "finish_member committed r m =
     (let m1 = m\<lparr>dm_in_flight := False\<rparr>
      in if committed
         then m1\<lparr>dm_acknowledged := Some (case dm_acknowledged m1 of
                     None \<Rightarrow> rk_acknowledged r
                   | Some old \<Rightarrow> max old (rk_acknowledged r)),
                 dm_invalidated := (if dm_invalidated m1 = rk_invalidated r then None
                                    else dm_invalidated m1)\<rparr>
         else m1)"

definition member_dirty :: "dirty_member \<Rightarrow> bool" where
  "member_dirty m \<longleftrightarrow> dm_invalidated m \<noteq> None \<or>
     (case dm_acknowledged m of None \<Rightarrow> True | Some seen \<Rightarrow> seen < dm_revision m)"

definition finish_one :: "bool \<Rightarrow> bool \<Rightarrow> bool \<Rightarrow> receipt_key \<Rightarrow> dirty_state \<Rightarrow> dirty_state" where
  "finish_one closing can_queue committed r st =
     (case member_of st (rk_key r) of
        None \<Rightarrow> st
      | Some m0 \<Rightarrow>
          (let m = finish_member committed r m0; dirty = (\<not> committed \<or> member_dirty m)
           in if \<not> closing \<and> dm_retired m \<and> committed \<and> \<not> dirty
              then st\<lparr>ds_members := AList.delete (rk_key r) (ds_members st)\<rparr>
              else if can_queue \<and> dirty \<and> \<not> dm_queued m
              then (set_member (rk_key r) (m\<lparr>dm_queued := True\<rparr>) st)
                     \<lparr>ds_queue := ds_queue st @ [rk_key r]\<rparr>
              else set_member (rk_key r) m st))"

definition finish :: "receipt_key list \<Rightarrow> bool \<Rightarrow> dirty_state \<Rightarrow> dirty_state" where
  "finish keys committed st =
     (let closing = (ds_frozen st \<or> ds_freezing st);
          can_queue = (\<not> ds_receiver_closed st \<and> \<not> ds_terminal_delivered st \<and>
            \<not> ds_terminal_in_flight st \<and> ds_terminal st = None \<and> \<not> closing \<and> \<not> ds_source_closed st)
      in fold (finish_one closing can_queue committed) keys st)"

text \<open>Insertion before the first larger identifier.\<close>

definition insert_frozen :: "nat \<Rightarrow> nat list \<Rightarrow> nat list" where
  "insert_frozen i q = takeWhile (\<lambda>x. \<not> i < x) q @ i # dropWhile (\<lambda>x. \<not> i < x) q"

definition restore_frozen :: "nat \<Rightarrow> dirty_state \<Rightarrow> dirty_state" where
  "restore_frozen i st =
     (if length (ds_frozen_images st) \<le> i \<or> i \<in> set (ds_frozen_queue st) then st
      else st\<lparr>ds_frozen_queue := insert_frozen i (ds_frozen_queue st)\<rparr>)"

definition finish_frozen :: "nat list \<Rightarrow> bool \<Rightarrow> dirty_state \<Rightarrow> dirty_state" where
  "finish_frozen ids committed st =
     (if \<not> committed \<and> ds_frozen st \<and> \<not> ds_receiver_closed st \<and> \<not> ds_terminal_delivered st \<and>
         \<not> ds_terminal_in_flight st \<and> ds_terminal st = None
      then fold restore_frozen ids st else st)"

definition finish_terminal :: "blp_error option \<Rightarrow> dirty_state \<Rightarrow> dirty_state" where
  "finish_terminal e st =
     (let st1 = st\<lparr>ds_terminal_in_flight := False\<rparr>
      in case e of
           Some err \<Rightarrow> if \<not> ds_receiver_closed st1 then st1\<lparr>ds_terminal := Some err\<rparr> else st1
         | None \<Rightarrow> st1\<lparr>ds_terminal_delivered := True, ds_queue := [], ds_frozen_queue := []\<rparr>)"

section \<open>The reader side\<close>

definition covered_by :: "frozen_image \<Rightarrow> dirty_member \<Rightarrow> bool" where
  "covered_by f m \<longleftrightarrow>
     (case dm_acknowledged m of None \<Rightarrow> False | Some seen \<Rightarrow> fz_revision f \<le> seen) \<and>
     (case fz_invalidated f of
        Some marker \<Rightarrow> dm_invalidated m \<noteq> Some marker
      | None \<Rightarrow> (case dm_invalidated m of None \<Rightarrow> True | Some marker \<Rightarrow> fz_revision f < marker))"

fun select_frozen ::
  "dirty_state \<Rightarrow> nat \<Rightarrow> bool option \<Rightarrow> (nat \<times> frozen_image) list \<Rightarrow> nat list \<Rightarrow>
     (nat \<times> frozen_image) list \<times> nat list" where
  "select_frozen st limit epoch selected [] = (selected, [])"
| "select_frozen st limit epoch selected (i # queue) =
     (if \<not> length selected < max limit 1 then (selected, i # queue)
      else
        (let image = ds_frozen_images st ! i; member = member_of st (fz_key image)
         in if (case member of None \<Rightarrow> False | Some m \<Rightarrow> covered_by image m)
            then select_frozen st limit epoch selected queue
            else if (case member of None \<Rightarrow> False | Some m \<Rightarrow> dm_in_flight m) \<or>
                    (case epoch of None \<Rightarrow> False | Some e \<Rightarrow> e \<noteq> fz_recovery_epoch image)
            then (selected, i # queue)
            else select_frozen st limit (Some (fz_recovery_epoch image))
                   (selected @ [(i, image)]) queue))"

fun select_live ::
  "nat \<Rightarrow> (slab_key \<times> dirty_member) list \<Rightarrow> selected_member list \<Rightarrow> slab_key list \<Rightarrow>
     selected_member list \<times> (slab_key \<times> dirty_member) list \<times> slab_key list" where
  "select_live limit members selected [] = (selected, members, [])"
| "select_live limit members selected (key # queue) =
     (if \<not> length selected < max limit 1 then (selected, members, key # queue)
      else case map_of members key of
             None \<Rightarrow> select_live limit members selected queue
           | Some m \<Rightarrow>
               if dm_in_flight m
               then select_live limit (AList.update key (m\<lparr>dm_queued := False\<rparr>) members) selected queue
               else select_live limit
                      (AList.update key (m\<lparr>dm_queued := False, dm_in_flight := True\<rparr>) members)
                      (selected @ [\<lparr>se_key = key, se_feed = dm_feed m, se_invalidated = dm_invalidated m,
                         se_final_image = dm_final_image m\<rparr>]) queue)"

datatype selection =
    Nothing
  | SelectedTerminal blp_error
  | Frozen "(nat \<times> frozen_image) list"
  | Live "selected_member list"

text \<open>The locked section at the start of \<open>try_recv\<close>.\<close>

definition select :: "nat \<Rightarrow> dirty_state \<Rightarrow> selection \<times> dirty_state" where
  "select limit st =
     (if ds_receiver_closed st \<or> ds_freezing st \<or> ds_terminal_in_flight st \<or> ds_terminal_delivered st
      then (Nothing, st)
      else case ds_terminal st of
             Some e \<Rightarrow> (SelectedTerminal e, st\<lparr>ds_terminal := None, ds_terminal_in_flight := True\<rparr>)
           | None \<Rightarrow>
               if ds_frozen st
               then (let (selected, queue) = select_frozen st limit None [] (ds_frozen_queue st)
                     in (Frozen selected, st\<lparr>ds_frozen_queue := queue\<rparr>))
               else (let (selected, members, queue) = select_live limit (ds_members st) [] (ds_queue st)
                     in (Live selected,
                         st\<lparr>ds_members := members, ds_queue := queue,
                            ds_live_batch_high_water :=
                              max (ds_live_batch_high_water st) (length selected)\<rparr>)))"

text \<open>One iteration of the loop that turns a selected member into a row: \<open>snapshot\<close> is what the
  feed image gave for it. A member without any image is removed.\<close>

definition capture_one ::
  "(u64 \<times> image_row) option \<Rightarrow> selected_member \<Rightarrow> dirty_state \<Rightarrow>
     (receipt_key \<times> image_row) option \<times> dirty_state" where
  "capture_one snapshot s st =
     (let member = member_of st (se_key s);
          image = (case se_final_image s of
                     Some i \<Rightarrow> Some i
                   | None \<Rightarrow> (case snapshot of
                                Some i \<Rightarrow> Some i
                              | None \<Rightarrow> Option.bind member dm_final_image))
      in case image of
           None \<Rightarrow> (None, remove (se_key s) st)
         | Some (revision, row) \<Rightarrow>
             (let keep = (\<lambda>at. case at of None \<Rightarrow> None | Some a \<Rightarrow> if a \<le> revision then Some a else None);
                  invalidated = (case keep (Option.bind member dm_invalidated) of
                                   Some a \<Rightarrow> Some a
                                 | None \<Rightarrow> keep (se_invalidated s))
              in (Some (case (ir_valid row, invalidated) of
                    (True, Some a) \<Rightarrow>
                      (\<lparr>rk_key = se_key s, rk_acknowledged = min revision a, rk_invalidated = invalidated\<rparr>,
                       invalidate_row row)
                  | _ \<Rightarrow>
                      (\<lparr>rk_key = se_key s, rk_acknowledged = revision, rk_invalidated = invalidated\<rparr>, row)),
                  st)))"

fun capture_all ::
  "(slab_key \<Rightarrow> (u64 \<times> image_row) option) \<Rightarrow> selected_member list \<Rightarrow> dirty_state \<Rightarrow>
     (receipt_key \<times> image_row) list \<times> dirty_state" where
  "capture_all snap [] st = ([], st)"
| "capture_all snap (s # ss) st =
     (let (c, st1) = capture_one (snap (se_key s)) s st;
          (cs, st2) = capture_all snap ss st1
      in (case c of None \<Rightarrow> cs | Some x \<Rightarrow> x # cs, st2))"

definition receiver_close :: "dirty_state \<Rightarrow> dirty_state" where
  "receiver_close st =
     st\<lparr>ds_receiver_closed := True, ds_source_closed := True, ds_queue := [], ds_frozen_queue := [],
        ds_members := [], ds_frozen_images := [], ds_live_batch_high_water := 0, ds_terminal := None\<rparr>"

definition new_receipt ::
  "('d, blp_error) result \<Rightarrow> receipt_key list \<Rightarrow> nat list \<Rightarrow> bool \<Rightarrow> 'd receipt" where
  "new_receipt result keys ids terminal =
     \<lparr>rp_result = Some result, rp_keys = keys, rp_frozen_ids = ids, rp_terminal = terminal,
      rp_finished = False\<rparr>"

text \<open>\<open>owner\<close>: the consumer is still alive.\<close>

definition materialize_frozen ::
  "(image_row list \<Rightarrow> ('d, blp_error) result) \<Rightarrow> bool \<Rightarrow> (nat \<times> frozen_image) list \<Rightarrow> dirty_state \<Rightarrow>
     'd receipt option \<times> dirty_state" where
  "materialize_frozen materialize owner selected st =
     (if selected = [] then (None, st)
      else if \<not> owner then (None, receiver_close st)
      else (Some (new_receipt (materialize (map (\<lambda>(_, i). fz_row i) selected)) [] (map fst selected) False), st))"

definition try_recv ::
  "(image_row list \<Rightarrow> ('d, blp_error) result) \<Rightarrow> bool \<Rightarrow> (slab_key \<Rightarrow> (u64 \<times> image_row) option) \<Rightarrow>
     nat \<Rightarrow> dirty_state \<Rightarrow> 'd receipt option \<times> dirty_state" where
  "try_recv materialize owner snap limit st =
     (let (sel, st1) = select limit st
      in case sel of
           Nothing \<Rightarrow> (None, st1)
         | SelectedTerminal e \<Rightarrow> (Some (new_receipt (Inl e) [] [] True), st1)
         | Frozen selected \<Rightarrow> materialize_frozen materialize owner selected st1
         | Live selected \<Rightarrow>
             if selected = [] then (None, st1)
             else if \<not> owner then (None, receiver_close st1)
             else (let (captured, st2) = capture_all snap selected st1
                   in if captured = [] then (None, st2)
                      else (Some (new_receipt (materialize (map snd captured)) (map fst captured) [] False),
                            st2)))"

text \<open>The test of \<open>recv\<close> that ends the stream.\<close>

definition at_end_of_state :: "dirty_state \<Rightarrow> bool" where
  "at_end_of_state st \<longleftrightarrow> ds_receiver_closed st \<or> ds_terminal_delivered st \<or>
     (ds_source_closed st \<and> \<not> ds_freezing st \<and> ds_queue st = [] \<and> ds_frozen_queue st = [] \<and>
      ds_terminal st = None \<and> \<not> ds_terminal_in_flight st)"

definition recv ::
  "(image_row list \<Rightarrow> ('d, blp_error) result) \<Rightarrow> bool \<Rightarrow> (slab_key \<Rightarrow> (u64 \<times> image_row) option) \<Rightarrow>
     nat \<Rightarrow> dirty_state \<Rightarrow> 'd receipt option poll \<times> dirty_state" where
  "recv materialize owner snap limit st =
     (let (r, st1) = try_recv materialize owner snap limit st
      in case r of
           Some receipt \<Rightarrow> (Ready (Some receipt), st1)
         | None \<Rightarrow> (if at_end_of_state st1 then Ready None else Pending, st1))"

definition is_closed :: "dirty_state \<Rightarrow> bool" where
  "is_closed st \<longleftrightarrow> ds_source_closed st \<or> ds_receiver_closed st"

definition pending_len :: "dirty_state \<Rightarrow> nat" where
  "pending_len st = (if ds_frozen st then length (ds_frozen_queue st) else length (ds_queue st))"

section \<open>Receipts\<close>

definition finish_updates :: "'d receipt \<Rightarrow> bool \<Rightarrow> dirty_state \<Rightarrow> dirty_state" where
  "finish_updates r committed st =
     (if rp_frozen_ids r = [] then finish (rp_keys r) committed st
      else finish_frozen (rp_frozen_ids r) committed st)"

definition take_success :: "'d receipt \<Rightarrow> 'd option \<times> 'd receipt" where
  "take_success r = (case rp_result r of
     Some (Inr d) \<Rightarrow> (Some d, r\<lparr>rp_result := None\<rparr>) | _ \<Rightarrow> (None, r))"

definition take_error :: "'d receipt \<Rightarrow> blp_error option \<times> 'd receipt" where
  "take_error r = (case rp_result r of
     Some (Inl e) \<Rightarrow> (Some e, r\<lparr>rp_result := None\<rparr>) | _ \<Rightarrow> (None, r))"

definition restore_error :: "blp_error \<Rightarrow> 'd receipt \<Rightarrow> 'd receipt" where
  "restore_error e r = r\<lparr>rp_result := Some (Inl e)\<rparr>"

definition acknowledge :: "'d receipt \<Rightarrow> dirty_state \<Rightarrow> dirty_state" where
  "acknowledge r st = (if rp_terminal r then finish_terminal None st else finish_updates r True st)"

text \<open>\<open>None\<close>: the result was already taken, and \<open>commit\<close> panics.\<close>

definition commit :: "'d receipt \<Rightarrow> dirty_state \<Rightarrow> (('d, blp_error) result \<times> dirty_state) option" where
  "commit r st =
     (case rp_result r of None \<Rightarrow> None | Some result \<Rightarrow> Some (result, acknowledge r st))"

definition drop_receipt :: "'d receipt \<Rightarrow> dirty_state \<Rightarrow> dirty_state" where
  "drop_receipt r st =
     (if rp_finished r then st
      else if rp_terminal r
      then finish_terminal (case rp_result r of Some (Inl e) \<Rightarrow> Some e | _ \<Rightarrow> None) st
      else finish_updates r False st)"

section \<open>Freezing for a drain\<close>

text \<open>First locked section: the pending keys, queued ones first, then leased ones by key.\<close>

definition freeze_pending :: "dirty_state \<Rightarrow> (slab_key \<times> nat \<times> bool) list" where
  "freeze_pending st =
     (let in_flight = sort (map fst (filter (\<lambda>(_, m). dm_in_flight m \<and> \<not> dm_queued m) (ds_members st)))
      in List.map_filter (\<lambda>k. map_option (\<lambda>m. (k, dm_feed m, dm_retired m)) (member_of st k))
           (ds_queue st @ in_flight))"

definition freeze_capture_one ::
  "(slab_key \<Rightarrow> (u64 \<times> image_row) option) \<Rightarrow> slab_key \<times> nat \<times> bool \<Rightarrow> dirty_state \<Rightarrow> dirty_state" where
  "freeze_capture_one snap p st =
     (case p of (key, _, retired) \<Rightarrow>
        if retired then st
        else case member_of st key of
               None \<Rightarrow> st
             | Some m \<Rightarrow>
                 if dm_retired m then st
                 else case snap key of
                        Some (revision, row) \<Rightarrow>
                          set_member key (m\<lparr>dm_revision := max (dm_revision m) revision,
                            dm_final_image := Some (revision, row)\<rparr>) st
                      | None \<Rightarrow> if dm_final_image m = None then remove key st else st)"

text \<open>Second locked section: take the final images with their invalidation markers.\<close>

fun freeze_take ::
  "(slab_key \<times> nat \<times> bool) list \<Rightarrow> dirty_state \<Rightarrow>
     (slab_key \<times> u64 \<times> image_row \<times> u64 option) list \<times> dirty_state" where
  "freeze_take [] st = ([], st)"
| "freeze_take ((key, f, r) # ps) st =
     (case member_of st key of
        None \<Rightarrow> freeze_take ps st
      | Some m \<Rightarrow>
          (case dm_final_image m of
             None \<Rightarrow> freeze_take ps (set_member key (m\<lparr>dm_queued := False\<rparr>) st)
           | Some (revision, row) \<Rightarrow>
               (let (ss, st') = freeze_take ps
                      (set_member key (m\<lparr>dm_queued := False, dm_final_image := None\<rparr>) st)
                in ((key, revision, row, dm_invalidated m) # ss, st'))))"

fun frozen_epochs ::
  "(slab_key \<times> u64 \<times> image_row \<times> u64 option) list \<Rightarrow> frozen_image list \<times> frozen_image list" where
  "frozen_epochs [] = ([], [])"
| "frozen_epochs ((key, revision, row, marker) # ss) =
     (let (images, recoveries) = frozen_epochs ss;
          invalidated = (case marker of None \<Rightarrow> None | Some a \<Rightarrow> if a \<le> revision then Some a else None)
      in case (ir_valid row, invalidated) of
           (True, Some a) \<Rightarrow>
             (\<lparr>fz_key = key, fz_revision = a, fz_invalidated = Some a, fz_recovery_epoch = False,
               fz_row = invalidate_row row\<rparr> # images,
              \<lparr>fz_key = key, fz_revision = revision, fz_invalidated = None, fz_recovery_epoch = True,
               fz_row = row\<rparr> # recoveries)
         | _ \<Rightarrow>
             (\<lparr>fz_key = key, fz_revision = revision, fz_invalidated = invalidated,
               fz_recovery_epoch = False, fz_row = row\<rparr> # images, recoveries))"

definition freeze_publish :: "frozen_image list \<Rightarrow> dirty_state \<Rightarrow> dirty_state" where
  "freeze_publish images st =
     st\<lparr>ds_frozen_images := images, ds_queue := [],
        ds_frozen_queue := (if \<not> ds_receiver_closed st \<and> \<not> ds_terminal_delivered st \<and> ds_terminal st = None
                            then [0..<length images] else ds_frozen_queue st),
        ds_freezing := False, ds_frozen := True, ds_source_closed := True\<rparr>"

definition prepare_close :: "(slab_key \<Rightarrow> (u64 \<times> image_row) option) \<Rightarrow> dirty_state \<Rightarrow> dirty_state" where
  "prepare_close snap st =
     (if ds_receiver_closed st \<or> ds_frozen st \<or> ds_freezing st then st
      else
        (let pending = freeze_pending st;
             st1 = fold (freeze_capture_one snap) pending (st\<lparr>ds_freezing := True\<rparr>);
             (snapshots, st2) = freeze_take pending st1;
             st3 = st2\<lparr>ds_frozen := True, ds_queue := []\<rparr>;
             (images, recoveries) = frozen_epochs snapshots
         in freeze_publish (images @ recoveries) st3))"

end
