(* ===== verification/State_Delivery_Sys.thy ===== *)
theory State_Delivery_Sys
  imports State_Delivery
begin

text \<open>
  The delivery of topic state as a concurrent system: the SDK thread registers, marks, retires
  and detaches topics, the stream reports its end, one reader selects and captures batches and
  freezes the table, and the receipts it hands out are committed or dropped at any later time.
  A step is one locked section of the code, so everything else may run between the selection
  of a batch, the capture of each of its rows, and the end of its receipt; likewise between the
  parts of \<open>prepare_close\<close>. The snapshot a capture reads is arbitrary.
\<close>

section \<open>State\<close>

type_synonym capture = "receipt_key \<times> image_row"

datatype freeze_phase =
    NotFreezing
  | Capturing "(slab_key \<times> nat \<times> bool) list" "(slab_key \<times> nat \<times> bool) list" \<comment> \<open>all, still to do\<close>
  | Building "(slab_key \<times> u64 \<times> image_row \<times> u64 option) list"

record delivery_world =
  dw_state :: dirty_state
  dw_selected :: "selected_member list" \<comment> \<open>chosen by the reader, not yet captured\<close>
  dw_captured :: "capture list" \<comment> \<open>rows of the batch under construction\<close>
  dw_freeze :: freeze_phase
  dw_leases :: "capture list list" \<comment> \<open>open receipts of live batches\<close>
  dw_frozen_leases :: "nat list list" \<comment> \<open>open receipts of frozen batches\<close>
  dw_terminal_leases :: "blp_error list" \<comment> \<open>open receipts of the terminal error\<close>
  dw_used :: "slab_key set" \<comment> \<open>history: keys handed to \<open>register\<close>\<close>
  dw_committed :: "capture list" \<comment> \<open>history: committed rows, oldest first\<close>
  dw_frozen_done :: "nat list" \<comment> \<open>history: frozen images of committed receipts\<close>
  dw_losses :: "(slab_key \<times> u64) list" \<comment> \<open>history: invalidations recorded by \<open>mark\<close>\<close>
  dw_failure :: "blp_error option" \<comment> \<open>history: the first failure of the stream\<close>
  dw_reported :: "blp_error list" \<comment> \<open>history: committed terminal errors\<close>

definition delivery_init :: delivery_world where
  "delivery_init =
     \<lparr>dw_state = delivery_channel, dw_selected = [], dw_captured = [], dw_freeze = NotFreezing,
      dw_leases = [], dw_frozen_leases = [], dw_terminal_leases = [], dw_used = {},
      dw_committed = [], dw_frozen_done = [], dw_losses = [], dw_failure = None, dw_reported = []\<rparr>"

abbreviation reader_idle :: "delivery_world \<Rightarrow> bool" where
  "reader_idle w \<equiv> dw_selected w = [] \<and> dw_captured w = [] \<and> dw_freeze w = NotFreezing"

text \<open>The invalidation \<open>mark\<close> records, if it records one.\<close>

definition mark_losses :: "slab_key \<Rightarrow> u64 \<Rightarrow> bool \<Rightarrow> dirty_state \<Rightarrow> (slab_key \<times> u64) list" where
  "mark_losses k revision invalidated st =
     (if ds_source_closed st \<or> ds_receiver_closed st \<or> ds_frozen st then []
      else case member_of st k of
             None \<Rightarrow> []
           | Some m \<Rightarrow> if invalidated \<and> dm_invalidated m = None then [(k, revision)] else [])"

definition select_leases :: "selection \<Rightarrow> delivery_world \<Rightarrow> delivery_world" where
  "select_leases sel w =
     (case sel of
        Nothing \<Rightarrow> w
      | SelectedTerminal e \<Rightarrow> w\<lparr>dw_terminal_leases := e # dw_terminal_leases w\<rparr>
      | Frozen s \<Rightarrow> w\<lparr>dw_frozen_leases := map fst s # dw_frozen_leases w\<rparr>
      | Live s \<Rightarrow> w\<lparr>dw_selected := s\<rparr>)"

section \<open>Steps\<close>

inductive dstep :: "delivery_world \<Rightarrow> delivery_world \<Rightarrow> bool" where
  register: "k \<notin> dw_used w \<Longrightarrow>
    dstep w (w\<lparr>dw_state := register k feed revision label (dw_state w), dw_used := insert k (dw_used w)\<rparr>)"
| mark: "dstep w (w\<lparr>dw_state := mark k revision invalidated (dw_state w),
      dw_losses := dw_losses w @ mark_losses k revision invalidated (dw_state w)\<rparr>)"
| retire: "dstep w (w\<lparr>dw_state := retire k row (dw_state w)\<rparr>)"
| detach: "dstep w (w\<lparr>dw_state := detach k (dw_state w)\<rparr>)"
| fail: "dstep w (w\<lparr>dw_state := fail e (dw_state w),
      dw_failure := (case dw_failure w of Some e0 \<Rightarrow> Some e0
                     | None \<Rightarrow> if ds_receiver_closed (dw_state w) then None else Some e)\<rparr>)"
| close_source: "dstep w (w\<lparr>dw_state := close_source (dw_state w)\<rparr>)"
| close_receiver: "reader_idle w \<Longrightarrow> dstep w (w\<lparr>dw_state := receiver_close (dw_state w)\<rparr>)"
| select: "reader_idle w \<Longrightarrow> select limit (dw_state w) = (sel, st) \<Longrightarrow>
    dstep w (select_leases sel (w\<lparr>dw_state := st\<rparr>))"
| owner_gone: "dw_selected w \<noteq> [] \<Longrightarrow> dw_captured w = [] \<Longrightarrow>
    dstep w (w\<lparr>dw_state := receiver_close (dw_state w), dw_selected := []\<rparr>)"
| capture: "dw_selected w = s # ss \<Longrightarrow> capture_one snapshot s (dw_state w) = (c, st) \<Longrightarrow>
    dstep w (w\<lparr>dw_state := st, dw_selected := ss,
      dw_captured := dw_captured w @ (case c of None \<Rightarrow> [] | Some x \<Rightarrow> [x])\<rparr>)"
| lease: "dw_selected w = [] \<Longrightarrow> dw_captured w \<noteq> [] \<Longrightarrow>
    dstep w (w\<lparr>dw_captured := [], dw_leases := dw_captured w # dw_leases w\<rparr>)"
| commit: "dw_leases w = A @ l # B \<Longrightarrow>
    dstep w (w\<lparr>dw_state := finish (map fst l) True (dw_state w), dw_leases := A @ B,
      dw_committed := dw_committed w @ l\<rparr>)"
| drop: "dw_leases w = A @ l # B \<Longrightarrow>
    dstep w (w\<lparr>dw_state := finish (map fst l) False (dw_state w), dw_leases := A @ B\<rparr>)"
| commit_frozen: "dw_frozen_leases w = A @ l # B \<Longrightarrow>
    dstep w (w\<lparr>dw_state := finish_frozen l True (dw_state w), dw_frozen_leases := A @ B,
      dw_frozen_done := dw_frozen_done w @ l\<rparr>)"
| drop_frozen: "dw_frozen_leases w = A @ l # B \<Longrightarrow>
    dstep w (w\<lparr>dw_state := finish_frozen l False (dw_state w), dw_frozen_leases := A @ B\<rparr>)"
| commit_terminal: "dw_terminal_leases w = A @ e # B \<Longrightarrow>
    dstep w (w\<lparr>dw_state := finish_terminal None (dw_state w), dw_terminal_leases := A @ B,
      dw_reported := dw_reported w @ [e]\<rparr>)"
| drop_terminal: "dw_terminal_leases w = A @ e # B \<Longrightarrow>
    dstep w (w\<lparr>dw_state := finish_terminal (Some e) (dw_state w), dw_terminal_leases := A @ B\<rparr>)"
| freeze_begin: "reader_idle w \<Longrightarrow>
    \<not> (ds_receiver_closed (dw_state w) \<or> ds_frozen (dw_state w) \<or> ds_freezing (dw_state w)) \<Longrightarrow>
    dstep w (w\<lparr>dw_state := (dw_state w)\<lparr>ds_freezing := True\<rparr>,
      dw_freeze := Capturing (freeze_pending (dw_state w)) (freeze_pending (dw_state w))\<rparr>)"
| freeze_capture: "dw_freeze w = Capturing ps (p # qs) \<Longrightarrow>
    dstep w (w\<lparr>dw_state := freeze_capture_one snap p (dw_state w), dw_freeze := Capturing ps qs\<rparr>)"
| freeze_take: "dw_freeze w = Capturing ps [] \<Longrightarrow> freeze_take ps (dw_state w) = (ss, st) \<Longrightarrow>
    dstep w (w\<lparr>dw_state := st\<lparr>ds_frozen := True, ds_queue := []\<rparr>, dw_freeze := Building ss\<rparr>)"
| freeze_publish: "dw_freeze w = Building ss \<Longrightarrow> frozen_epochs ss = (images, recoveries) \<Longrightarrow>
    dstep w (w\<lparr>dw_state := freeze_publish (images @ recoveries) (dw_state w), dw_freeze := NotFreezing\<rparr>)"

inductive delivery_reach :: "delivery_world \<Rightarrow> bool" where
  init: "delivery_reach delivery_init"
| step: "delivery_reach w \<Longrightarrow> dstep w w' \<Longrightarrow> delivery_reach w'"

section \<open>Running the reader alone\<close>

text \<open>A reader that receives and commits until nothing is left: the rows of the batches.\<close>

fun drain_frozen :: "nat \<Rightarrow> nat \<Rightarrow> dirty_state \<Rightarrow> (nat \<times> frozen_image) list list" where
  "drain_frozen 0 limit st = []"
| "drain_frozen (Suc n) limit st =
     (case select limit st of
        (Frozen s, st1) \<Rightarrow>
          if s = [] then [] else s # drain_frozen n limit (finish_frozen (map fst s) True st1)
      | _ \<Rightarrow> [])"

end
