(* ===== verification/State_Delivery_Inv.thy ===== *)
theory State_Delivery_Inv
  imports State_Delivery_Sys
begin

text \<open>
  The invariant of the dirty-topic table while topics are live: a member is queued, or held by
  the reader or by an open receipt, or has nothing to deliver; and each operation keeps it. The
  lemmas speak of the members as a map, the queue, the set of held keys and the set of keys
  ever registered.
\<close>

section \<open>The invariant of a live table\<close>

definition member_inv :: "slab_key list \<Rightarrow> slab_key set \<Rightarrow> slab_key \<Rightarrow> dirty_member \<Rightarrow> bool" where
  "member_inv q H k m \<longleftrightarrow>
     (dm_queued m \<longleftrightarrow> k \<in> set q) \<and> (dm_in_flight m \<longleftrightarrow> k \<in> H) \<and> (k \<in> set q \<longrightarrow> k \<notin> H) \<and>
     (k \<notin> set q \<longrightarrow> k \<notin> H \<longrightarrow> \<not> member_dirty m \<and> \<not> dm_retired m)"

definition table_inv ::
  "(slab_key \<Rightarrow> dirty_member option) \<Rightarrow> slab_key list \<Rightarrow> slab_key set \<Rightarrow> slab_key set \<Rightarrow> bool" where
  "table_inv M q H U \<longleftrightarrow> distinct q \<and> set q \<subseteq> dom M \<and> dom M \<subseteq> U \<and> H \<subseteq> U \<and>
     (\<forall>k m. M k = Some m \<longrightarrow> member_inv q H k m)"

lemma table_invI:
  assumes "distinct q" "set q \<subseteq> dom M" "dom M \<subseteq> U" "H \<subseteq> U"
    "\<And>k m. M k = Some m \<Longrightarrow> member_inv q H k m"
  shows "table_inv M q H U"
  using assms by (simp add: table_inv_def)

lemma table_invD:
  assumes "table_inv M q H U"
  shows "distinct q" "set q \<subseteq> dom M" "dom M \<subseteq> U" "H \<subseteq> U" "M k = Some m \<Longrightarrow> member_inv q H k m"
  using assms by (simp_all add: table_inv_def)

lemma table_inv_empty: "table_inv Map.empty [] {} {}"
  by (simp add: table_inv_def)

text \<open>Replacing a member that keeps its place.\<close>

lemma table_inv_replace:
  assumes inv: "table_inv M q H U" and m: "M k = Some m" and m': "member_inv q H k m'"
  shows "table_inv (M(k \<mapsto> m')) q H U"
proof (rule table_invI)
  show "distinct q" "H \<subseteq> U" using inv by (simp_all add: table_inv_def)
  show "set q \<subseteq> dom (M(k \<mapsto> m'))" "dom (M(k \<mapsto> m')) \<subseteq> U"
    using table_invD(2,3) [OF inv] m by auto
  show "member_inv q H j n" if "(M(k \<mapsto> m')) j = Some n" for j n
    using that m' table_invD(5) [OF inv, of j n] by (simp split: if_splits)
qed

lemma member_inv_append: "j \<noteq> k \<Longrightarrow> member_inv (q @ [k]) H j m = member_inv q H j m"
  by (simp add: member_inv_def)

lemma table_inv_enqueue:
  assumes inv: "table_inv M q H U" and m: "k \<in> U" and k: "k \<notin> set q" "k \<notin> H"
    and m': "dm_queued m'" "\<not> dm_in_flight m'"
  shows "table_inv (M(k \<mapsto> m')) (q @ [k]) H U"
proof (rule table_invI)
  show "distinct (q @ [k])" "H \<subseteq> U" using inv k by (simp_all add: table_inv_def)
  show "set (q @ [k]) \<subseteq> dom (M(k \<mapsto> m'))" "dom (M(k \<mapsto> m')) \<subseteq> U"
    using table_invD(2,3) [OF inv] m by auto
  show "member_inv (q @ [k]) H j n" if "(M(k \<mapsto> m')) j = Some n" for j n
  proof (cases "j = k")
    case True
    with that m' k show ?thesis by (simp add: member_inv_def)
  next
    case False
    with that table_invD(5) [OF inv, of j n] show ?thesis by (simp add: member_inv_append)
  qed
qed

lemma table_inv_remove:
  assumes inv: "table_inv M q H U" and H: "H' \<subseteq> H" "H \<subseteq> insert k H'"
  shows "table_inv (M(k := None)) (filter (\<lambda>x. x \<noteq> k) q) H' U"
proof (rule table_invI)
  show "distinct (filter (\<lambda>x. x \<noteq> k) q)" "H' \<subseteq> U" using inv H by (auto simp: table_inv_def)
  show "set (filter (\<lambda>x. x \<noteq> k) q) \<subseteq> dom (M(k := None))" "dom (M(k := None)) \<subseteq> U"
    using table_invD(2,3) [OF inv] by auto
  show "member_inv (filter (\<lambda>x. x \<noteq> k) q) H' j n" if "(M(k := None)) j = Some n" for j n
  proof -
    have j: "j \<noteq> k" and n: "M j = Some n" using that by (auto split: if_splits)
    have "j \<in> H' \<longleftrightarrow> j \<in> H" using H j by auto
    with j table_invD(5) [OF inv n] show ?thesis by (simp add: member_inv_def)
  qed
qed

lemma table_inv_widen: "table_inv M q H U \<Longrightarrow> U \<subseteq> U' \<Longrightarrow> table_inv M q H U'"
  by (auto simp: table_inv_def)

text \<open>Forgetting members that nobody holds, as \<open>register\<close> does.\<close>

lemma table_inv_restrict:
  assumes inv: "table_inv M q H U" and M': "M' \<subseteq>\<^sub>m M"
  shows "table_inv M' (filter (\<lambda>x. x \<in> dom M') q) H U"
proof (rule table_invI)
  show "distinct (filter (\<lambda>x. x \<in> dom M') q)" "H \<subseteq> U" "set (filter (\<lambda>x. x \<in> dom M') q) \<subseteq> dom M'"
    using inv by (auto simp: table_inv_def)
  show "dom M' \<subseteq> U" using map_le_implies_dom_le [OF M'] table_invD(3) [OF inv] by auto
  show "member_inv (filter (\<lambda>x. x \<in> dom M') q) H j n" if n: "M' j = Some n" for j n
  proof -
    have "M j = Some n" using M' n by (metis domI map_le_def)
    with n table_invD(5) [OF inv, of j n] show ?thesis by (auto simp: member_inv_def)
  qed
qed

section \<open>The source side\<close>

abbreviation state_inv :: "dirty_state \<Rightarrow> slab_key set \<Rightarrow> slab_key set \<Rightarrow> bool" where
  "state_inv st H U \<equiv> table_inv (member_of st) (ds_queue st) H U"

lemma map_of_filter_le:
  "distinct (map fst xs) \<Longrightarrow> map_of (filter P xs) \<subseteq>\<^sub>m map_of xs"
proof (induction xs)
  case (Cons x xs)
  then have le: "map_of (filter P xs) \<subseteq>\<^sub>m map_of xs" by simp
  have "map_of (filter P xs) (fst x) = None"
    using Cons.prems by (auto simp: map_of_eq_None_iff)
  with le show ?case by (auto simp: map_le_def dom_def split: if_splits)
qed simp

lemma enqueue_member_inv:
  assumes inv: "state_inv st H U" and m: "member_of st k = Some m0" and fr: "\<not> ds_freezing st"
    and fl: "dm_queued m = dm_queued m0" "dm_in_flight m = dm_in_flight m0"
  shows "state_inv (enqueue_member k m st) H U"
proof -
  have mi: "member_inv (ds_queue st) H k m0" using table_invD(5) [OF inv m] .
  have kU: "k \<in> U" using table_invD(3) [OF inv] m by blast
  show ?thesis
  proof (cases "dm_queued m \<or> dm_in_flight m")
    case True
    with mi fl have "member_inv (ds_queue st) H k m" by (auto simp: member_inv_def)
    from table_inv_replace [OF inv m this] True show ?thesis
      by (simp add: enqueue_member_def update_conv')
  next
    case False
    with mi fl have "k \<notin> set (ds_queue st)" "k \<notin> H" by (simp_all add: member_inv_def)
    from table_inv_enqueue [OF inv kU this, of "m\<lparr>dm_queued := True\<rparr>"] False fr show ?thesis
      by (simp add: enqueue_member_def update_conv')
  qed
qed

lemma mark_inv:
  assumes "state_inv st H U" "\<not> ds_freezing st"
  shows "state_inv (mark k r b st) H U"
  using assms by (auto simp: mark_def split: option.split intro!: enqueue_member_inv)

lemma retire_inv:
  assumes "state_inv st H U" "\<not> ds_freezing st"
  shows "state_inv (retire k row st) H U"
  using assms by (auto simp: retire_def Let_def split: option.split intro!: enqueue_member_inv)

lemma remove_inv:
  assumes "state_inv st H U" "H' \<subseteq> H" "H \<subseteq> insert k H'"
  shows "state_inv (remove k st) H' U"
  using table_inv_remove [OF assms] by (simp add: remove_def delete_conv')

lemma register_inv:
  assumes inv: "state_inv st H U" and d: "distinct (map fst (ds_members st))" and k: "k \<notin> U"
  shows "state_inv (register k feed revision label st) H (insert k U)"
proof (cases "ds_source_closed st \<or> ds_receiver_closed st \<or> ds_freezing st \<or> ds_frozen st")
  case True
  then show ?thesis using table_inv_widen [OF inv, of "insert k U"] by (auto simp: register_def)
next
  case False
  define ms where "ms = filter (\<lambda>(_, m). \<not> dm_retired m \<or> dm_label m \<noteq> label) (ds_members st)"
  define q where "q = filter (\<lambda>x. x \<in> dom (map_of ms)) (ds_queue st)"
  have "table_inv (map_of ms) q H U"
    unfolding q_def using map_of_filter_le [OF d] inv by (intro table_inv_restrict) (simp_all add: ms_def)
  then have *: "table_inv (map_of ms) q H (insert k U)" by (rule table_inv_widen) blast
  have "k \<notin> set q" "k \<notin> H"
    using k table_invD(2,3,4) [OF inv] by (auto simp: q_def)
  with * have "table_inv ((map_of ms)(k \<mapsto> new_member feed revision label)) (q @ [k]) H (insert k U)"
    by (intro table_inv_enqueue) (simp_all add: new_member_def)
  with False show ?thesis
    by (simp add: register_def Let_def ms_def q_def update_conv' dom_map_of_conv_image_fst)
qed

section \<open>The reader and its receipts\<close>

definition selected_of :: "dirty_member \<Rightarrow> slab_key \<Rightarrow> selected_member" where
  "selected_of m k = \<lparr>se_key = k, se_feed = dm_feed m, se_invalidated = dm_invalidated m,
     se_final_image = dm_final_image m\<rparr>"

lemma table_inv_take:
  assumes inv: "table_inv M (k # q) H U" and m: "M k = Some m"
    and m': "\<not> dm_queued m'" "dm_in_flight m'"
  shows "table_inv (M(k \<mapsto> m')) q (insert k H) U"
proof (rule table_invI)
  have kq: "k \<notin> set q" using table_invD(1) [OF inv] by simp
  show "distinct q" using table_invD(1) [OF inv] by simp
  show "set q \<subseteq> dom (M(k \<mapsto> m'))" "dom (M(k \<mapsto> m')) \<subseteq> U" "insert k H \<subseteq> U"
    using table_invD(2,3,4) [OF inv] m by auto
  show "member_inv q (insert k H) j n" if "(M(k \<mapsto> m')) j = Some n" for j n
  proof (cases "j = k")
    case True
    with that m' kq show ?thesis by (simp add: member_inv_def)
  next
    case False
    with that table_invD(5) [OF inv, of j n] show ?thesis by (simp add: member_inv_def)
  qed
qed

text \<open>In a live table the reader takes the front of the queue, up to its limit.\<close>

lemma select_live_prefix:
  assumes "table_inv (map_of ms) q H U" "select_live limit ms sel q = (sel', ms', q')"
  shows "table_inv (map_of ms') q' (H \<union> set (take (max limit 1 - length sel) q)) U \<and>
    q' = drop (max limit 1 - length sel) q \<and>
    (\<exists>new. sel' = sel @ new \<and> map se_key new = take (max limit 1 - length sel) q)"
  using assms
proof (induction q arbitrary: ms sel H)
  case Nil
  then show ?case by simp
next
  case (Cons k q)
  let ?n = "max limit 1 - length sel"
  show ?case
  proof (cases "length sel < max limit 1")
    case False
    then have "?n = 0" by linarith
    moreover have "sel' = sel" "ms' = ms" "q' = k # q" using False Cons.prems(2) by simp_all
    ultimately show ?thesis using Cons.prems(1) by simp
  next
    case True
    obtain m where m: "map_of ms k = Some m" using table_invD(2) [OF Cons.prems(1)] by auto
    have mi: "member_inv (k # q) H k m" using table_invD(5) [OF Cons.prems(1) m] .
    then have fl: "\<not> dm_in_flight m" by (simp add: member_inv_def)
    let ?m = "m\<lparr>dm_queued := False, dm_in_flight := True\<rparr>"
    have inv': "table_inv (map_of (AList.update k ?m ms)) q (insert k H) U"
      using table_inv_take [OF Cons.prems(1) m, of ?m] by (simp add: update_conv')
    obtain n where n: "?n = Suc n" "max limit 1 - length (sel @ [selected_of m k]) = n"
      using True by (cases ?n) auto
    have "select_live limit (AList.update k ?m ms) (sel @ [selected_of m k]) q = (sel', ms', q')"
      using Cons.prems(2) True m fl by (simp add: selected_of_def)
    from Cons.IH [OF inv' this, unfolded n] obtain new where
      t: "table_inv (map_of ms') q' (insert k H \<union> set (take n q)) U" and q': "q' = drop n q"
      and new: "sel' = (sel @ [selected_of m k]) @ new" "map se_key new = take n q" by blast
    have H: "insert k H \<union> set (take n q) = H \<union> set (take (Suc n) (k # q))" by simp
    have "sel' = sel @ selected_of m k # new" "map se_key (selected_of m k # new) = take (Suc n) (k # q)"
      using new by (simp_all add: selected_of_def)
    with t q' show ?thesis unfolding n(1) H by auto
  qed
qed

lemma finish_member_simps [simp]:
  "dm_queued (finish_member c r m) = dm_queued m" "\<not> dm_in_flight (finish_member c r m)"
  "dm_retired (finish_member c r m) = dm_retired m" "dm_revision (finish_member c r m) = dm_revision m"
  by (simp_all add: finish_member_def Let_def)

lemma table_inv_put:
  assumes inv: "table_inv (M(k := None)) q H U" and k: "k \<in> U" and m': "member_inv q H k m'"
  shows "table_inv (M(k \<mapsto> m')) q H U"
proof (rule table_invI)
  show "distinct q" "H \<subseteq> U" using table_invD(1,4) [OF inv] by simp_all
  show "set q \<subseteq> dom (M(k \<mapsto> m'))" "dom (M(k \<mapsto> m')) \<subseteq> U"
    using table_invD(2,3) [OF inv] k by auto
  show "member_inv q H j n" if "(M(k \<mapsto> m')) j = Some n" for j n
    using that m' table_invD(5) [OF inv, of j n] by (simp split: if_splits)
qed

lemma finish_one_inv:
  assumes inv: "state_inv st H U" and k: "rk_key r \<in> H"
  shows "state_inv (finish_one False True committed r st) (H - {rk_key r}) U"
proof (cases "member_of st (rk_key r)")
  case None
  then have "(member_of st)(rk_key r := None) = member_of st" by (simp add: fun_upd_idem)
  moreover have "filter (\<lambda>x. x \<noteq> rk_key r) (ds_queue st) = ds_queue st"
    using table_invD(2) [OF inv] None by (auto simp: filter_id_conv)
  ultimately have "state_inv st (H - {rk_key r}) U"
    using table_inv_remove [OF inv, of "H - {rk_key r}" "rk_key r"] by auto
  with None show ?thesis by (simp add: finish_one_def)
next
  case (Some m)
  let ?k = "rk_key r" and ?H = "H - {rk_key r}"
  have mi: "member_inv (ds_queue st) H ?k m" using table_invD(5) [OF inv Some] .
  then have kq: "?k \<notin> set (ds_queue st)" "\<not> dm_queued m" using k by (auto simp: member_inv_def)
  have kU: "?k \<in> U" using table_invD(4) [OF inv] k by blast
  have q: "filter (\<lambda>x. x \<noteq> ?k) (ds_queue st) = ds_queue st"
    using kq(1) by (auto simp: filter_id_conv)
  have gone: "table_inv ((member_of st)(?k := None)) (ds_queue st) ?H U"
    using table_inv_remove [OF inv, of ?H ?k] unfolding q by blast
  have enq: "table_inv ((member_of st)(?k \<mapsto> m')) (ds_queue st @ [?k]) ?H U"
    if "dm_queued m'" "\<not> dm_in_flight m'" for m'
    using table_inv_enqueue [OF gone kU kq(1) _ that] by simp
  have put: "table_inv ((member_of st)(?k \<mapsto> m')) (ds_queue st) ?H U"
    if "\<not> dm_queued m'" "\<not> dm_in_flight m'" "\<not> member_dirty m'" "\<not> dm_retired m'" for m'
    using that kq(1) by (intro table_inv_put [OF gone kU]) (simp add: member_inv_def)
  obtain m' where m': "finish_member committed r m = m'" by blast
  have fl: "\<not> dm_queued m'" "\<not> dm_in_flight m'"
    using m' kq(2) by auto
  show ?thesis
    using Some m' gone enq [of "m'\<lparr>dm_queued := True\<rparr>"] put [OF fl] fl
    by (simp add: finish_one_def Let_def update_conv' delete_conv')
qed

lemma finish_one_flags [simp]:
  "ds_freezing (finish_one c q b r st) = ds_freezing st"
  "ds_frozen (finish_one c q b r st) = ds_frozen st"
  "ds_source_closed (finish_one c q b r st) = ds_source_closed st"
  "ds_receiver_closed (finish_one c q b r st) = ds_receiver_closed st"
  "ds_terminal (finish_one c q b r st) = ds_terminal st"
  "ds_terminal_in_flight (finish_one c q b r st) = ds_terminal_in_flight st"
  "ds_terminal_delivered (finish_one c q b r st) = ds_terminal_delivered st"
  "ds_frozen_queue (finish_one c q b r st) = ds_frozen_queue st"
  "ds_frozen_images (finish_one c q b r st) = ds_frozen_images st"
  by (simp_all add: finish_one_def Let_def split: option.split)

lemma fold_finish_one_inv:
  assumes "state_inv st H U" "rk_key ` set rs \<subseteq> H" "distinct (map rk_key rs)"
  shows "state_inv (fold (finish_one False True committed) rs st) (H - rk_key ` set rs) U"
  using assms
proof (induction rs arbitrary: st H)
  case (Cons r rs)
  have "state_inv (finish_one False True committed r st) (H - {rk_key r}) U"
    using Cons.prems by (intro finish_one_inv) auto
  moreover have "rk_key ` set rs \<subseteq> H - {rk_key r}"
    using Cons.prems by (simp add: subset_Diff_insert)
  ultimately have "state_inv (fold (finish_one False True committed) rs (finish_one False True committed r st))
      (H - {rk_key r} - rk_key ` set rs) U"
    using Cons.prems by (intro Cons.IH) auto
  then show ?case by (simp add: Diff_insert2 [symmetric])
qed simp

section \<open>Keys of the table stay distinct\<close>

abbreviation keys_distinct :: "dirty_state \<Rightarrow> bool" where
  "keys_distinct st \<equiv> distinct (map fst (ds_members st))"

lemma keys_distinct_finish_one [simp]: "keys_distinct st \<Longrightarrow> keys_distinct (finish_one c q b r st)"
  by (simp add: finish_one_def Let_def distinct_update distinct_delete split: option.split)

lemma keys_distinct_fold_finish: "keys_distinct st \<Longrightarrow> keys_distinct (fold (finish_one c q b) rs st)"
  by (induction rs arbitrary: st) simp_all

lemma keys_distinct_select_live:
  "distinct (map fst ms) \<Longrightarrow> select_live limit ms sel q = (sel', ms', q') \<Longrightarrow> distinct (map fst ms')"
  by (induction limit ms sel q rule: select_live.induct)
    (simp_all add: distinct_update split: if_splits option.splits)

lemma keys_distinct_enqueue: "keys_distinct st \<Longrightarrow> keys_distinct (enqueue_member k m st)"
  by (simp add: enqueue_member_def distinct_update)

lemma keys_distinct_source:
  assumes "keys_distinct st"
  shows "keys_distinct (register k feed revision label st)" "keys_distinct (mark k r b st)"
    "keys_distinct (retire k row st)" "keys_distinct (remove k st)" "keys_distinct (fail e st)"
    "keys_distinct (close_source st)" "keys_distinct (receiver_close st)"
    "keys_distinct (freeze_capture_one snap p st)"
proof -
  show "keys_distinct (register k feed revision label st)"
    using assms by (simp add: register_def Let_def distinct_update distinct_map_filter)
  show "keys_distinct (mark k r b st)" "keys_distinct (retire k row st)"
    using assms by (simp_all add: mark_def retire_def Let_def keys_distinct_enqueue split: option.split)
  show rm: "keys_distinct (remove k st)" for k
    using assms by (simp add: remove_def distinct_delete)
  show "keys_distinct (fail e st)"
    using assms by (simp add: fail_def o_def split_beta)
  show "keys_distinct (close_source st)" "keys_distinct (receiver_close st)"
    using assms by (simp_all add: close_source_def receiver_close_def)
  show "keys_distinct (freeze_capture_one snap p st)"
    using assms rm by (simp add: freeze_capture_one_def distinct_update split: option.split prod.split)
qed

lemma keys_distinct_freeze_take:
  "keys_distinct st \<Longrightarrow> freeze_take ps st = (ss, st') \<Longrightarrow> keys_distinct st'"
  by (induction ps st arbitrary: ss st' rule: freeze_take.induct)
    (auto simp: distinct_update split: option.splits prod.splits)

end
