(* ===== verification/State_Delivery_Live.thy ===== *)
theory State_Delivery_Live
  imports State_Delivery_Inv
begin

text \<open>
  No topic is lost while the table is live: the invariant of the table lifted to the
  concurrent system, for every interleaving of the source, the reader and the receipts.
\<close>

section \<open>Live states\<close>

definition live :: "dirty_state \<Rightarrow> bool" where
  "live st \<longleftrightarrow> \<not> ds_source_closed st \<and> \<not> ds_receiver_closed st \<and> \<not> ds_freezing st \<and> \<not> ds_frozen st"

definition clean_terminal :: "dirty_state \<Rightarrow> bool" where
  "clean_terminal st \<longleftrightarrow> ds_terminal st = None \<and> \<not> ds_terminal_in_flight st \<and> \<not> ds_terminal_delivered st"

lemma live_source_ops [simp]:
  "live (mark k r b st) = live st" "live (retire k row st) = live st" "live (remove k st) = live st"
  "live (detach k st) = live st" "live (register k feed revision label st) = live st"
  "\<not> live (close_source st)" "\<not> live (receiver_close st)" "\<not> live (freeze_publish images st)"
  "clean_terminal (mark k r b st) = clean_terminal st"
  "clean_terminal (retire k row st) = clean_terminal st"
  "clean_terminal (remove k st) = clean_terminal st"
  "clean_terminal (detach k st) = clean_terminal st"
  "clean_terminal (register k feed revision label st) = clean_terminal st"
  by (simp_all add: live_def clean_terminal_def mark_def retire_def remove_def detach_def register_def
      enqueue_member_def Let_def close_source_def receiver_close_def freeze_publish_def split: option.split)

lemma live_not_freezing: "live st \<Longrightarrow> \<not> ds_freezing st"
  by (simp add: live_def)

lemma live_fold_finish [simp]:
  "live (fold (finish_one c q b) rs st) = live st"
  "clean_terminal (fold (finish_one c q b) rs st) = clean_terminal st"
  by (induction rs arbitrary: st) (simp_all add: live_def clean_terminal_def)

lemma live_finish [simp]:
  "live (finish rs b st) = live st" "clean_terminal (finish rs b st) = clean_terminal st"
  by (simp_all add: finish_def Let_def)

lemma finish_when_live:
  "live st \<Longrightarrow> clean_terminal st \<Longrightarrow> finish rs b st = fold (finish_one False True b) rs st"
  by (simp add: finish_def live_def clean_terminal_def Let_def)

lemma finish_frozen_when_live [simp]: "live st \<Longrightarrow> finish_frozen ids b st = st"
  by (simp add: finish_frozen_def live_def)

lemma live_finish_frozen_imp: "live (finish_frozen ids b st) \<Longrightarrow> live st"
proof -
  have "live (fold restore_frozen ids st) = live st"
    by (induction ids arbitrary: st) (simp_all add: restore_frozen_def live_def)
  then show "live (finish_frozen ids b st) \<Longrightarrow> live st"
    by (simp add: finish_frozen_def split: if_splits)
qed

lemma live_finish_terminal [simp]: "live (finish_terminal e st) = live st"
  by (simp add: finish_terminal_def live_def Let_def split: option.split)

lemma not_live_fail [simp]: "clean_terminal st \<Longrightarrow> \<not> live (fail e st)"
  by (simp add: fail_def live_def clean_terminal_def)

lemma live_fail_imp: "live (fail e st) \<Longrightarrow> live st"
  by (simp add: fail_def live_def split: if_splits)

lemma live_freeze_capture [simp]: "live (freeze_capture_one snap p st) = live st"
  by (simp add: freeze_capture_one_def live_def remove_def split: prod.split option.split)

section \<open>The invariant of the system\<close>

definition held :: "delivery_world \<Rightarrow> slab_key list" where
  "held w = map se_key (dw_selected w) @
     map (rk_key \<circ> fst) (dw_captured w @ concat (dw_leases w))"

definition live_inv :: "delivery_world \<Rightarrow> bool" where
  "live_inv w \<longleftrightarrow> keys_distinct (dw_state w) \<and>
     (live (dw_state w) \<longrightarrow> clean_terminal (dw_state w) \<and> dw_terminal_leases w = [] \<and> distinct (held w) \<and>
        state_inv (dw_state w) (set (held w)) (dw_used w))"

lemma live_invI:
  assumes "keys_distinct (dw_state w)"
    "live (dw_state w) \<Longrightarrow> clean_terminal (dw_state w) \<and> dw_terminal_leases w = [] \<and> distinct (held w)"
    "live (dw_state w) \<Longrightarrow> state_inv (dw_state w) (set (held w)) (dw_used w)"
  shows "live_inv w"
  using assms by (simp add: live_inv_def)

lemma live_invD:
  assumes "live_inv w"
  shows "keys_distinct (dw_state w)"
    "live (dw_state w) \<Longrightarrow> clean_terminal (dw_state w)"
    "live (dw_state w) \<Longrightarrow> dw_terminal_leases w = []"
    "live (dw_state w) \<Longrightarrow> distinct (held w)"
    "live (dw_state w) \<Longrightarrow> state_inv (dw_state w) (set (held w)) (dw_used w)"
  using assms by (simp_all add: live_inv_def)

lemma live_inv_init: "live_inv delivery_init"
  using table_inv_empty by (simp add: live_inv_def delivery_init_def delivery_channel_def clean_terminal_def held_def)

text \<open>A step that changes neither the table nor the holders.\<close>

lemma live_inv_source:
  assumes inv: "live_inv w" and "keys_distinct st"
    and "live st \<Longrightarrow> live (dw_state w)" "live st \<Longrightarrow> clean_terminal (dw_state w) \<Longrightarrow> clean_terminal st"
    and "live st \<Longrightarrow> clean_terminal (dw_state w) \<Longrightarrow>
      state_inv (dw_state w) (set (held w)) (dw_used w) \<Longrightarrow> state_inv st (set (held w)) U"
    and "dw_state w' = st" "dw_used w' = U" "held w' = held w" "dw_terminal_leases w' = dw_terminal_leases w"
  shows "live_inv w'"
  using assms live_invD [OF inv] by (intro live_invI) auto

lemma select_leases_simps [simp]:
  "dw_state (select_leases sel w) = dw_state w" "dw_used (select_leases sel w) = dw_used w"
  "dw_freeze (select_leases sel w) = dw_freeze w"
  by (simp_all add: select_leases_def split: selection.split)

lemma live_inv_select:
  assumes inv: "live_inv w" and idle: "reader_idle w" and sel: "select limit (dw_state w) = (sel, st)"
  shows "live_inv (select_leases sel (w\<lparr>dw_state := st\<rparr>))"
proof -
  let ?st = "dw_state w"
  obtain s ms q where sl: "select_live limit (ds_members ?st) [] (ds_queue ?st) = (s, ms, q)"
    by (metis prod_cases3)
  have kd: "keys_distinct st"
    using sel sl keys_distinct_select_live [OF live_invD(1) [OF inv] sl] live_invD(1) [OF inv]
    by (auto simp: select_def split: if_splits option.splits prod.splits)
  have lv: "live ?st" if "live st"
    using sel sl that by (auto simp: select_def live_def split: if_splits option.splits prod.splits)
  show ?thesis
  proof (rule live_invI)
    show "keys_distinct (dw_state (select_leases sel (w\<lparr>dw_state := st\<rparr>)))" using kd by simp
    assume "live (dw_state (select_leases sel (w\<lparr>dw_state := st\<rparr>)))"
    then have l: "live ?st" using lv by simp
    then have c: "clean_terminal ?st" and t: "dw_terminal_leases w = []"
      and d: "distinct (held w)" and inv': "state_inv ?st (set (held w)) (dw_used w)"
      using live_invD [OF inv] by auto
    have sel': "sel = Live s" and st: "ds_members st = ms" "ds_queue st = q" "clean_terminal st"
      using sel sl l c by (auto simp: select_def live_def clean_terminal_def)
    from select_live_prefix [OF inv' sl]
    have q: "state_inv st (set (held w) \<union> set (take (max limit 1) (ds_queue ?st))) (dw_used w)"
      and s: "map se_key s = take (max limit 1) (ds_queue ?st)"
      by (auto simp: st)
    have h: "held (select_leases sel (w\<lparr>dw_state := st\<rparr>)) = take (max limit 1) (ds_queue ?st) @ held w"
      using idle s by (simp add: sel' select_leases_def held_def)
    have disj: "set (held w) \<inter> set (ds_queue ?st) = {}"
      using table_invD(2,5) [OF inv'] by (fastforce simp: member_inv_def)
    show "clean_terminal (dw_state (select_leases sel (w\<lparr>dw_state := st\<rparr>))) \<and>
        dw_terminal_leases (select_leases sel (w\<lparr>dw_state := st\<rparr>)) = [] \<and>
        distinct (held (select_leases sel (w\<lparr>dw_state := st\<rparr>)))"
      using st(3) t d table_invD(1) [OF inv'] disj set_take_subset [of "max limit 1" "ds_queue ?st"]
      by (auto simp: h, auto simp: sel' select_leases_def)
    show "state_inv (dw_state (select_leases sel (w\<lparr>dw_state := st\<rparr>)))
        (set (held (select_leases sel (w\<lparr>dw_state := st\<rparr>)))) (dw_used (select_leases sel (w\<lparr>dw_state := st\<rparr>)))"
      using q by (simp add: h Un_commute)
  qed
qed

lemma capture_one_cases:
  assumes "capture_one snapshot s st = (c, st')"
  shows "c = None \<and> st' = remove (se_key s) st \<or> (\<exists>x. c = Some x \<and> st' = st \<and> rk_key (fst x) = se_key s)"
  using assms by (auto simp: capture_one_def Let_def split: option.splits prod.splits if_splits bool.splits)

lemma live_inv_capture:
  assumes inv: "live_inv w" and w: "dw_selected w = s # ss"
    and c: "capture_one snapshot s (dw_state w) = (c, st)"
  shows "live_inv (w\<lparr>dw_state := st, dw_selected := ss,
      dw_captured := dw_captured w @ (case c of None \<Rightarrow> [] | Some x \<Rightarrow> [x])\<rparr>)" (is "live_inv ?w")
  using capture_one_cases [OF c]
proof (elim disjE exE conjE)
  assume none: "c = None" and st: "st = remove (se_key s) (dw_state w)"
  have h: "held w = se_key s # held ?w" using w by (simp add: held_def none)
  show "live_inv ?w"
  proof (rule live_invI)
    show "keys_distinct (dw_state ?w)" using keys_distinct_source(4) [OF live_invD(1) [OF inv]] st by simp
    assume "live (dw_state ?w)"
    then have l: "live (dw_state w)" by (simp add: st)
    show "clean_terminal (dw_state ?w) \<and> dw_terminal_leases ?w = [] \<and> distinct (held ?w)"
      using live_invD(2-4) [OF inv l] h by (simp add: st)
    have "state_inv (remove (se_key s) (dw_state w)) (set (held ?w)) (dw_used w)"
      by (rule remove_inv [OF live_invD(5) [OF inv l]]) (auto simp: h)
    then show "state_inv (dw_state ?w) (set (held ?w)) (dw_used ?w)" by (simp add: st)
  qed
next
  fix x assume x: "c = Some x" "st = dw_state w" "rk_key (fst x) = se_key s"
  have h: "mset (held ?w) = mset (held w)" using w x by (simp add: held_def)
  then have "set (held ?w) = set (held w)" "distinct (held ?w) = distinct (held w)"
    by (metis set_mset_mset, metis mset_eq_imp_distinct_iff)
  with live_invD [OF inv] x(2) show "live_inv ?w" by (intro live_invI) simp_all
qed

lemma held_leases:
  assumes "dw_leases w = A @ l # B"
  shows "mset (held w) = mset (held (w\<lparr>dw_leases := A @ B\<rparr>)) + mset (map (rk_key \<circ> fst) l)"
  using assms by (simp add: held_def)

lemma live_inv_finish:
  assumes inv: "live_inv w" and w: "dw_leases w = A @ l # B"
    and w': "dw_state w' = finish (map fst l) b (dw_state w)" "dw_used w' = dw_used w"
      "held w' = held (w\<lparr>dw_leases := A @ B\<rparr>)" "dw_terminal_leases w' = dw_terminal_leases w"
  shows "live_inv w'"
proof (rule live_invI)
  show "keys_distinct (dw_state w')"
    using live_invD(1) [OF inv] by (simp add: w' finish_def Let_def keys_distinct_fold_finish)
  assume "live (dw_state w')"
  then have l: "live (dw_state w)" by (simp add: w')
  note D = live_invD(2-5) [OF inv l]
  have m: "mset (held w) = mset (held w' @ map (rk_key \<circ> fst) l)"
    using held_leases [OF w] by (simp add: w')
  have d: "distinct (held w' @ map (rk_key \<circ> fst) l)"
    using D(3) mset_eq_imp_distinct_iff [OF m] by simp
  have s: "set (held w) = set (held w') \<union> rk_key ` fst ` set l"
    using mset_eq_setD [OF m] by (auto simp: image_comp)
  show "clean_terminal (dw_state w') \<and> dw_terminal_leases w' = [] \<and> distinct (held w')"
    using D(1,2) d by (simp add: w')
  have "state_inv (fold (finish_one False True b) (map fst l) (dw_state w))
      (set (held w) - rk_key ` set (map fst l)) (dw_used w)"
    using d s by (intro fold_finish_one_inv [OF D(4)]) (auto simp: distinct_map comp_inj_on_iff o_def)
  moreover have "set (held w) - rk_key ` set (map fst l) = set (held w')"
    using d s by (auto simp: image_comp o_def)
  ultimately show "state_inv (dw_state w') (set (held w')) (dw_used w')"
    by (simp add: w' finish_when_live [OF l D(1)])
qed

section \<open>Freezing is exclusive\<close>

lemma freezing_ops [simp]:
  "ds_freezing (mark k r b st) = ds_freezing st" "ds_freezing (retire k row st) = ds_freezing st"
  "ds_freezing (remove k st) = ds_freezing st" "ds_freezing (detach k st) = ds_freezing st"
  "ds_freezing (register k feed revision label st) = ds_freezing st"
  "ds_freezing (fail e st) = ds_freezing st" "ds_freezing (close_source st) = ds_freezing st"
  "ds_freezing (receiver_close st) = ds_freezing st"
  "ds_freezing (finish_terminal r1 st) = ds_freezing st"
  "ds_freezing (freeze_capture_one snap p st) = ds_freezing st"
  by (simp_all add: mark_def retire_def remove_def detach_def register_def enqueue_member_def Let_def
      fail_def close_source_def receiver_close_def finish_terminal_def freeze_capture_one_def
      split: option.split prod.split)

lemma freezing_finish [simp]: "ds_freezing (finish rs b st) = ds_freezing st"
proof -
  have "ds_freezing (fold (finish_one c q b) rs st) = ds_freezing st" for c q
    by (induction rs arbitrary: st) simp_all
  then show ?thesis by (simp add: finish_def Let_def)
qed

lemma restore_frozen_only_queue: "\<exists>q. fold restore_frozen ids st = st\<lparr>ds_frozen_queue := q\<rparr>"
proof (induction ids arbitrary: st)
  case Nil
  show ?case by (rule exI [of _ "ds_frozen_queue st"]) simp
next
  case (Cons i ids)
  obtain q where "restore_frozen i st = st\<lparr>ds_frozen_queue := q\<rparr>"
    by (cases "length (ds_frozen_images st) \<le> i \<or> i \<in> set (ds_frozen_queue st)")
      (auto simp: restore_frozen_def intro: that [of "ds_frozen_queue st"])
  moreover obtain q' where "fold restore_frozen ids (st\<lparr>ds_frozen_queue := q\<rparr>) = st\<lparr>ds_frozen_queue := q'\<rparr>"
    using Cons.IH [of "st\<lparr>ds_frozen_queue := q\<rparr>"] by auto
  ultimately show ?case by auto
qed

lemma finish_frozen_only_queue:
  obtains q where "finish_frozen ids b st = st\<lparr>ds_frozen_queue := q\<rparr>"
proof -
  have "\<exists>q. finish_frozen ids b st = st\<lparr>ds_frozen_queue := q\<rparr>"
    using restore_frozen_only_queue [of ids st]
    by (auto simp: finish_frozen_def intro: exI [of _ "ds_frozen_queue st"])
  then show thesis using that by blast
qed

lemma freeze_take_only_members: "freeze_take ps st = (ss, st') \<Longrightarrow> \<exists>ms. st' = st\<lparr>ds_members := ms\<rparr>"
proof (induction ps st arbitrary: ss st' rule: freeze_take.induct)
  case (1 st)
  then show ?case by (auto intro: exI [of _ "ds_members st"])
qed (auto split: option.splits prod.splits)

definition freeze_inv :: "delivery_world \<Rightarrow> bool" where
  "freeze_inv w \<longleftrightarrow> (dw_freeze w \<noteq> NotFreezing \<longrightarrow> ds_freezing (dw_state w))"

lemma freeze_inv_step:
  assumes "freeze_inv w" "dstep w w'"
  shows "freeze_inv w'"
  using assms(2)
proof cases
  case (capture s ss snapshot c st)
  with assms(1) capture_one_cases [OF capture(3)] show ?thesis by (auto simp: freeze_inv_def)
next
  case (select limit sel st)
  then show ?thesis by (simp add: freeze_inv_def)
next
  case (commit_frozen A l B)
  with assms(1) show ?thesis
    by (cases rule: finish_frozen_only_queue [of l True "dw_state w"]) (simp_all add: freeze_inv_def)
next
  case (drop_frozen A l B)
  with assms(1) show ?thesis
    by (cases rule: finish_frozen_only_queue [of l False "dw_state w"]) (simp_all add: freeze_inv_def)
next
  case (freeze_take ps ss st)
  with assms(1) freeze_take_only_members [OF freeze_take(3)] show ?thesis by (auto simp: freeze_inv_def)
qed (use assms(1) in \<open>auto simp: freeze_inv_def\<close>)

section \<open>The invariant holds in every run\<close>

lemma live_inv_step:
  assumes inv: "live_inv w" and fi: "freeze_inv w" and st: "dstep w w'"
  shows "live_inv w'"
  using st
proof cases
  case (register k feed revision label)
  show ?thesis unfolding register(1)
    by (rule live_inv_source [OF inv, where st = "register k feed revision label (dw_state w)"
          and U = "insert k (dw_used w)"])
      (use register live_invD(1) [OF inv] in \<open>simp_all add: held_def keys_distinct_source register_inv\<close>)
next
  case (mark k revision invalidated)
  show ?thesis unfolding mark(1)
    by (rule live_inv_source [OF inv, where st = "mark k revision invalidated (dw_state w)" and U = "dw_used w"])
      (use live_invD(1) [OF inv] in \<open>simp_all add: held_def keys_distinct_source mark_inv live_not_freezing\<close>)
next
  case (retire k row)
  show ?thesis unfolding retire(1)
    by (rule live_inv_source [OF inv, where st = "retire k row (dw_state w)" and U = "dw_used w"])
      (use live_invD(1) [OF inv] in \<open>simp_all add: held_def keys_distinct_source retire_inv live_not_freezing\<close>)
next
  case (detach k)
  have *: "state_inv (dw_state w) H U \<Longrightarrow> live (dw_state w) \<Longrightarrow>
      state_inv (State_Delivery.detach k (dw_state w)) H U" for H U
    using remove_inv [of "dw_state w" H U H k] by (auto simp: detach_def live_def)
  have "keys_distinct (State_Delivery.detach k (dw_state w))"
    using live_invD(1) [OF inv] by (simp add: detach_def keys_distinct_source)
  then show ?thesis unfolding detach(1) using *
    by (intro live_inv_source [OF inv, where st = "State_Delivery.detach k (dw_state w)" and U = "dw_used w"])
      (simp_all add: held_def)
next
  case (fail e)
  show ?thesis unfolding fail(1)
    using live_invD(1,2) [OF inv] live_fail_imp not_live_fail
    by (intro live_invI) (auto simp: keys_distinct_source dest: live_fail_imp)
next
  case close_source
  then show ?thesis using live_invD(1) [OF inv] by (intro live_invI) (simp_all add: keys_distinct_source)
next
  case close_receiver
  then show ?thesis using live_invD(1) [OF inv] by (intro live_invI) (simp_all add: keys_distinct_source)
next
  case (select limit sel st)
  then show ?thesis using live_inv_select [OF inv] by simp
next
  case owner_gone
  then show ?thesis using live_invD(1) [OF inv] by (intro live_invI) (simp_all add: keys_distinct_source)
next
  case (capture s ss snapshot c st)
  then show ?thesis using live_inv_capture [OF inv] by simp
next
  case lease
  then have "mset (held w') = mset (held w)" by (simp add: held_def)
  then have "set (held w') = set (held w)" "distinct (held w') = distinct (held w)"
    by (metis set_mset_mset, metis mset_eq_imp_distinct_iff)
  with live_invD [OF inv] lease show ?thesis by (intro live_invI) simp_all
next
  case (commit A l B)
  show ?thesis by (rule live_inv_finish [OF inv commit(2), where b = True]) (simp_all add: commit held_def)
next
  case (drop A l B)
  show ?thesis by (rule live_inv_finish [OF inv drop(2), where b = False]) (simp_all add: drop held_def)
next
  case (commit_frozen A l B)
  obtain q where q: "finish_frozen l True (dw_state w) = (dw_state w)\<lparr>ds_frozen_queue := q\<rparr>"
    by (rule finish_frozen_only_queue)
  then show ?thesis using live_invD [OF inv] commit_frozen
    by (intro live_invI) (simp_all add: live_def clean_terminal_def held_def)
next
  case (drop_frozen A l B)
  obtain q where q: "finish_frozen l False (dw_state w) = (dw_state w)\<lparr>ds_frozen_queue := q\<rparr>"
    by (rule finish_frozen_only_queue)
  then show ?thesis using live_invD [OF inv] drop_frozen
    by (intro live_invI) (simp_all add: live_def clean_terminal_def held_def)
next
  case (commit_terminal A e B)
  have "keys_distinct (finish_terminal None (dw_state w))"
    using live_invD(1) [OF inv] by (simp add: finish_terminal_def Let_def)
  then show ?thesis using live_invD(3) [OF inv] commit_terminal by (intro live_invI) auto
next
  case (drop_terminal A e B)
  have "keys_distinct (finish_terminal (Some e) (dw_state w))"
    using live_invD(1) [OF inv] by (simp add: finish_terminal_def Let_def)
  then show ?thesis using live_invD(3) [OF inv] drop_terminal by (intro live_invI) auto
next
  case freeze_begin
  then show ?thesis using live_invD(1) [OF inv] by (intro live_invI) (simp_all add: live_def)
next
  case (freeze_capture ps p qs snap)
  then show ?thesis using fi live_invD(1) [OF inv]
    by (intro live_invI) (simp_all add: keys_distinct_source freeze_inv_def live_def)
next
  case (freeze_take ps ss st)
  then show ?thesis using keys_distinct_freeze_take [OF live_invD(1) [OF inv] freeze_take(3)]
    by (intro live_invI) (simp_all add: live_def)
next
  case (freeze_publish ss images recoveries)
  then show ?thesis using live_invD(1) [OF inv]
    by (intro live_invI) (simp_all, simp_all add: freeze_publish_def)
qed

lemma delivery_reach_inv: "delivery_reach w \<Longrightarrow> live_inv w \<and> freeze_inv w"
proof (induction rule: delivery_reach.induct)
  case init
  show ?case using live_inv_init by (simp add: freeze_inv_def delivery_init_def)
next
  case (step w w')
  then show ?case using live_inv_step freeze_inv_step by blast
qed

end
