(* ===== verification/State_Delivery_Loss.thy ===== *)
theory State_Delivery_Loss
  imports State_Delivery_Live
begin

text \<open>
  Losses of continuity. \<open>mark\<close> records the first unpublished invalidation of a member; the
  record goes away only when the member does, or when a receipt is committed whose row for the
  topic is invalid and carries that very marker. The terminal error has one owner at a time.
\<close>

section \<open>Rows that carry a marker are invalid\<close>

definition row_ok :: "capture \<Rightarrow> bool" where
  "row_ok c \<longleftrightarrow> (rk_invalidated (fst c) \<noteq> None \<longrightarrow> \<not> ir_valid (snd c))"

definition rows_inv :: "delivery_world \<Rightarrow> bool" where
  "rows_inv w \<longleftrightarrow> (\<forall>c \<in> set (dw_captured w) \<union> set (concat (dw_leases w)) \<union> set (dw_committed w). row_ok c)"

lemma capture_one_row_ok:
  assumes "capture_one snapshot s st = (Some c, st')"
  shows "row_ok c"
  using assms
  by (auto simp: capture_one_def Let_def row_ok_def invalidate_row_def
      split: option.splits prod.splits if_splits bool.splits)

lemma rows_inv_step:
  assumes "rows_inv w" "dstep w w'"
  shows "rows_inv w'"
  using assms(2)
proof cases
  case (select limit sel st)
  with assms(1) show ?thesis by (auto simp: rows_inv_def select_leases_def split: selection.split)
next
  case (capture s ss snapshot c st)
  with assms(1) capture_one_row_ok [of snapshot s "dw_state w" _ st] show ?thesis
    by (auto simp: rows_inv_def split: option.split)
qed (use assms(1) in \<open>auto simp: rows_inv_def\<close>)

section \<open>Recorded losses\<close>

definition loss_safe :: "(slab_key \<Rightarrow> dirty_member option) \<Rightarrow> capture list \<Rightarrow> slab_key \<times> u64 \<Rightarrow> bool" where
  "loss_safe M C l \<longleftrightarrow>
     (case M (fst l) of None \<Rightarrow> True | Some m \<Rightarrow> dm_retired m \<or> dm_invalidated m = Some (snd l)) \<or>
     (\<exists>c \<in> set C. rk_key (fst c) = fst l \<and> rk_invalidated (fst c) = Some (snd l))"

text \<open>What an operation may do to the members: drop them, retire them, keep their marker, or
  clear a marker that the commits \<open>C\<close> have published.\<close>

definition keeps_losses ::
  "(slab_key \<Rightarrow> dirty_member option) \<Rightarrow> (slab_key \<Rightarrow> dirty_member option) \<Rightarrow> capture list \<Rightarrow> bool" where
  "keeps_losses M M' C \<longleftrightarrow>
     (\<forall>k m'. M' k = Some m' \<longrightarrow> dm_retired m' \<or>
        (\<exists>m. M k = Some m \<and> (dm_retired m \<longrightarrow> dm_retired m') \<and>
          (dm_invalidated m = None \<or> dm_invalidated m' = dm_invalidated m \<or>
           (\<exists>c \<in> set C. rk_key (fst c) = k \<and> rk_invalidated (fst c) = dm_invalidated m))))"

lemma loss_safe_kept:
  assumes k: "keeps_losses M M' C" and l: "loss_safe M C0 l"
  shows "loss_safe M' (C0 @ C) l"
proof (cases "M' (fst l)")
  case None
  then show ?thesis by (simp add: loss_safe_def)
next
  case (Some m')
  with k consider "dm_retired m'" |
    m where "M (fst l) = Some m" "dm_retired m \<longrightarrow> dm_retired m'"
      "dm_invalidated m = None \<or> dm_invalidated m' = dm_invalidated m \<or>
       (\<exists>c \<in> set C. rk_key (fst c) = fst l \<and> rk_invalidated (fst c) = dm_invalidated m)"
    unfolding keeps_losses_def by blast
  then show ?thesis
  proof cases
    case 1
    with Some show ?thesis by (simp add: loss_safe_def)
  next
    case 2
    show ?thesis
    proof (cases "dm_retired m \<or> dm_invalidated m = Some (snd l)")
      case True
      with 2 Some show ?thesis by (auto simp: loss_safe_def)
    next
      case False
      with 2(1) l have "\<exists>c \<in> set C0. rk_key (fst c) = fst l \<and> rk_invalidated (fst c) = Some (snd l)"
        by (simp add: loss_safe_def)
      then show ?thesis by (auto simp: loss_safe_def)
    qed
  qed
qed

lemma keeps_losses_refl: "keeps_losses M M C"
  by (auto simp: keeps_losses_def)

lemma keeps_losses_less: "M' \<subseteq>\<^sub>m M \<Longrightarrow> keeps_losses M M' C"
  by (fastforce simp: keeps_losses_def map_le_def dom_def)

lemma keeps_losses_trans:
  assumes 1: "keeps_losses M M1 C" and 2: "keeps_losses M1 M2 C"
  shows "keeps_losses M M2 C"
  unfolding keeps_losses_def
proof (intro allI impI)
  fix k m2 assume m2: "M2 k = Some m2"
  show "dm_retired m2 \<or> (\<exists>m. M k = Some m \<and> (dm_retired m \<longrightarrow> dm_retired m2) \<and>
      (dm_invalidated m = None \<or> dm_invalidated m2 = dm_invalidated m \<or>
       (\<exists>c \<in> set C. rk_key (fst c) = k \<and> rk_invalidated (fst c) = dm_invalidated m)))"
  proof (rule ccontr)
    assume neg: "\<not> ?thesis"
    then obtain m1 where m1: "M1 k = Some m1" "dm_retired m1 \<longrightarrow> dm_retired m2"
      "dm_invalidated m1 = None \<or> dm_invalidated m2 = dm_invalidated m1 \<or>
       (\<exists>c \<in> set C. rk_key (fst c) = k \<and> rk_invalidated (fst c) = dm_invalidated m1)"
      using 2 m2 unfolding keeps_losses_def by blast
    with 1 neg obtain m where m: "M k = Some m" "dm_retired m \<longrightarrow> dm_retired m1"
      "dm_invalidated m = None \<or> dm_invalidated m1 = dm_invalidated m \<or>
       (\<exists>c \<in> set C. rk_key (fst c) = k \<and> rk_invalidated (fst c) = dm_invalidated m)"
      unfolding keeps_losses_def by blast
    with m1 neg show False by metis
  qed
qed

text \<open>One member replaced.\<close>

lemma keeps_losses_upd:
  assumes "M k = Some m" "dm_retired m' \<or> (dm_retired m \<longrightarrow> dm_retired m') \<and>
      (dm_invalidated m = None \<or> dm_invalidated m' = dm_invalidated m \<or>
       (\<exists>c \<in> set C. rk_key (fst c) = k \<and> rk_invalidated (fst c) = dm_invalidated m))"
  shows "keeps_losses M (M(k \<mapsto> m')) C"
  using assms by (auto simp: keeps_losses_def)

lemma keeps_losses_enqueue:
  assumes "member_of st k = Some m" "dm_retired m' \<or> (dm_retired m \<longrightarrow> dm_retired m') \<and>
      (dm_invalidated m = None \<or> dm_invalidated m' = dm_invalidated m)"
  shows "keeps_losses (member_of st) (member_of (enqueue_member k m' st)) C"
  using assms by (auto simp: enqueue_member_def update_conv' intro!: keeps_losses_upd)

lemma keeps_losses_mark: "keeps_losses (member_of st) (member_of (mark k r b st)) C"
  by (auto simp: mark_def keeps_losses_refl split: option.split intro!: keeps_losses_enqueue)

lemma keeps_losses_retire: "keeps_losses (member_of st) (member_of (retire k row st)) C"
  by (auto simp: retire_def Let_def keeps_losses_refl split: option.split intro!: keeps_losses_enqueue)

lemma keeps_losses_remove: "keeps_losses (member_of st) (member_of (remove k st)) C"
  by (rule keeps_losses_less) (auto simp: remove_def delete_conv' map_le_def)

lemma keeps_losses_select_live:
  "select_live limit ms sel q = (sel', ms', q') \<Longrightarrow> keeps_losses (map_of ms) (map_of ms') C"
proof (induction limit ms sel q rule: select_live.induct)
  case (2 limit ms sel k q)
  have step: "keeps_losses (map_of ms) (map_of (AList.update k (f m) ms)) C"
    if "map_of ms k = Some m" "dm_retired (f m) = dm_retired m" "dm_invalidated (f m) = dm_invalidated m" for m f
    using that by (simp add: update_conv' keeps_losses_upd)
  show ?case
    using "2.prems" "2.IH" step [of _ "\<lambda>m. m\<lparr>dm_queued := False\<rparr>"]
      step [of _ "\<lambda>m. m\<lparr>dm_queued := False, dm_in_flight := True\<rparr>"]
    by (auto simp: keeps_losses_refl split: if_splits option.splits intro: keeps_losses_trans)
qed (simp add: keeps_losses_refl)

lemma keeps_losses_finish_one:
  assumes "b \<Longrightarrow> \<exists>c \<in> set C. fst c = r"
  shows "keeps_losses (member_of st) (member_of (finish_one cl q b r st)) C"
proof (cases "member_of st (rk_key r)")
  case None
  then show ?thesis by (simp add: finish_one_def keeps_losses_refl)
next
  case (Some m)
  have del: "keeps_losses (member_of st) ((member_of st)(rk_key r := None)) C"
    by (rule keeps_losses_less) (simp add: map_le_def)
  have "dm_invalidated (finish_member b r m) = dm_invalidated m \<or> b \<and> rk_invalidated r = dm_invalidated m"
    by (auto simp: finish_member_def Let_def)
  then have upd: "keeps_losses (member_of st) ((member_of st)(rk_key r \<mapsto> m')) C"
    if "dm_invalidated m' = dm_invalidated (finish_member b r m)" "dm_retired m' = dm_retired m" for m'
    using assms that by (intro keeps_losses_upd [of _ _ m]) (auto simp: Some)
  show ?thesis
    using Some del upd [of "finish_member b r m"] upd [of "(finish_member b r m)\<lparr>dm_queued := True\<rparr>"]
    by (simp add: finish_one_def Let_def update_conv' delete_conv')
qed

lemma keeps_losses_finish:
  assumes "b \<Longrightarrow> set rs \<subseteq> fst ` set C"
  shows "keeps_losses (member_of st) (member_of (fold (finish_one cl q b) rs st)) C"
  using assms
proof (induction rs arbitrary: st)
  case (Cons r rs)
  have "keeps_losses (member_of st) (member_of (finish_one cl q b r st)) C"
    using Cons.prems by (intro keeps_losses_finish_one) auto
  moreover have "keeps_losses (member_of (finish_one cl q b r st))
      (member_of (fold (finish_one cl q b) rs (finish_one cl q b r st))) C"
    using Cons.prems by (intro Cons.IH) auto
  ultimately show ?case by (simp add: keeps_losses_trans)
qed (simp add: keeps_losses_refl)

definition loss_inv :: "delivery_world \<Rightarrow> bool" where
  "loss_inv w \<longleftrightarrow> (live (dw_state w) \<longrightarrow>
     (\<forall>l \<in> set (dw_losses w). fst l \<in> dw_used w \<and> loss_safe (member_of (dw_state w)) (dw_committed w) l))"

lemma loss_inv_keep:
  assumes inv: "loss_inv w" and "live (dw_state w') \<Longrightarrow> live (dw_state w)"
    and "live (dw_state w) \<Longrightarrow> keeps_losses (member_of (dw_state w)) (member_of (dw_state w')) C"
    and "dw_losses w' = dw_losses w" "dw_used w' = dw_used w" "dw_committed w' = dw_committed w @ C"
  shows "loss_inv w'"
  using assms loss_safe_kept by (auto simp: loss_inv_def)

lemma loss_inv_dead: "\<not> live (dw_state w) \<Longrightarrow> loss_inv w"
  by (simp add: loss_inv_def)

lemma register_members:
  assumes "keys_distinct st" "j \<noteq> k" "member_of (register k feed revision label st) j = Some m"
  shows "member_of st j = Some m"
proof (cases "ds_source_closed st \<or> ds_receiver_closed st \<or> ds_freezing st \<or> ds_frozen st")
  case True
  with assms show ?thesis by (auto simp: register_def)
next
  case False
  with assms(2,3) have
    "map_of (filter (\<lambda>(_, m). \<not> dm_retired m \<or> dm_label m \<noteq> label) (ds_members st)) j = Some m"
    by (simp add: register_def Let_def update_conv')
  with map_of_filter_le [OF assms(1)] show ?thesis by (metis domI map_le_def)
qed

lemma loss_inv_register:
  assumes inv: "loss_inv w" and li: "live_inv w" and k: "k \<notin> dw_used w"
  shows "loss_inv (w\<lparr>dw_state := register k feed revision label (dw_state w), dw_used := insert k (dw_used w)\<rparr>)"
  unfolding loss_inv_def
proof (intro impI ballI)
  let ?w = "w\<lparr>dw_state := register k feed revision label (dw_state w), dw_used := insert k (dw_used w)\<rparr>"
  fix l assume "live (dw_state ?w)" and "l \<in> set (dw_losses ?w)"
  with inv have u: "fst l \<in> dw_used w" and s: "loss_safe (member_of (dw_state w)) (dw_committed w) l"
    by (auto simp: loss_inv_def)
  have "member_of (dw_state w) (fst l) = Some m"
    if "member_of (register k feed revision label (dw_state w)) (fst l) = Some m" for m
    using register_members [OF live_invD(1) [OF li] _ that] u k by blast
  with s have "loss_safe (member_of (register k feed revision label (dw_state w))) (dw_committed w) l"
    by (fastforce simp: loss_safe_def split: option.splits)
  with u show "fst l \<in> dw_used ?w \<and> loss_safe (member_of (dw_state ?w)) (dw_committed ?w) l" by simp
qed

lemma loss_inv_mark:
  assumes inv: "loss_inv w" and li: "live_inv w"
  shows "loss_inv (w\<lparr>dw_state := mark k r b (dw_state w), dw_losses := dw_losses w @ mark_losses k r b (dw_state w)\<rparr>)"
  unfolding loss_inv_def
proof (intro impI ballI)
  let ?w = "w\<lparr>dw_state := mark k r b (dw_state w), dw_losses := dw_losses w @ mark_losses k r b (dw_state w)\<rparr>"
  fix l assume l: "live (dw_state ?w)" and "l \<in> set (dw_losses ?w)"
  then consider "l \<in> set (dw_losses w)" | "l \<in> set (mark_losses k r b (dw_state w))" by auto
  then show "fst l \<in> dw_used ?w \<and> loss_safe (member_of (dw_state ?w)) (dw_committed ?w) l"
  proof cases
    case 1
    with inv l have "fst l \<in> dw_used w" "loss_safe (member_of (dw_state w)) (dw_committed w) l"
      by (auto simp: loss_inv_def)
    with loss_safe_kept [OF keeps_losses_mark [where C = "[]"]] show ?thesis by simp
  next
    case 2
    then obtain m where m: "member_of (dw_state w) k = Some m" and lk: "l = (k, r)"
      and n: "b" "dm_invalidated m = None"
      by (cases "member_of (dw_state w) k") (auto simp: mark_losses_def split: if_splits)
    have "k \<in> dw_used w" using table_invD(3) [OF live_invD(5) [OF li]] l m by auto
    moreover from l have "live (dw_state w)" by simp
    then have "\<exists>m'. member_of (mark k r b (dw_state w)) k = Some m' \<and> dm_invalidated m' = Some r"
      using m n by (simp add: mark_def live_def enqueue_member_def update_conv')
    ultimately show ?thesis by (auto simp: lk loss_safe_def)
  qed
qed

lemma select_members:
  assumes "select limit st = (sel, st')"
  shows "keeps_losses (member_of st) (member_of st') C" "live st' \<longleftrightarrow> live st"
  using assms keeps_losses_select_live
  by (auto simp: select_def live_def keeps_losses_refl split: if_splits option.splits prod.splits)

lemma loss_inv_step:
  assumes inv: "loss_inv w" and li: "live_inv w" and fi: "freeze_inv w" and step: "dstep w w'"
  shows "loss_inv w'"
  using step
proof cases
  case (register k feed revision label)
  then show ?thesis using loss_inv_register [OF inv li] by simp
next
  case (mark k revision invalidated)
  then show ?thesis using loss_inv_mark [OF inv li] by simp
next
  case (retire k row)
  then show ?thesis by (intro loss_inv_keep [OF inv, where C = "[]"]) (simp_all add: keeps_losses_retire)
next
  case (detach k)
  have "keeps_losses (member_of (dw_state w)) (member_of (State_Delivery.detach k (dw_state w))) []"
    by (simp add: detach_def keeps_losses_refl keeps_losses_remove)
  with detach show ?thesis by (intro loss_inv_keep [OF inv, where C = "[]"]) simp_all
next
  case (fail e)
  then show ?thesis using live_invD(2) [OF li] not_live_fail live_fail_imp
    by (intro loss_inv_dead) auto
next
  case (select limit sel st)
  then show ?thesis using select_members [OF select(3)]
    by (intro loss_inv_keep [OF inv, where C = "[]"]) (simp_all, simp_all add: select_leases_def split: selection.split)
next
  case (capture s ss snapshot c st)
  then show ?thesis using capture_one_cases [OF capture(3)]
    by (intro loss_inv_keep [OF inv, where C = "[]"]) (auto simp: keeps_losses_refl keeps_losses_remove)
next
  case lease
  then show ?thesis by (intro loss_inv_keep [OF inv, where C = "[]"]) (simp_all add: keeps_losses_refl)
next
  case (commit A l B)
  then show ?thesis
    by (intro loss_inv_keep [OF inv, where C = l])
      (simp_all add: finish_def Let_def keeps_losses_finish image_image)
next
  case (drop A l B)
  then show ?thesis
    by (intro loss_inv_keep [OF inv, where C = "[]"]) (simp_all add: finish_def Let_def keeps_losses_finish)
next
  case (commit_frozen A l B)
  then show ?thesis
    by (intro loss_inv_keep [OF inv, where C = "[]"]) (auto dest: live_finish_frozen_imp simp: keeps_losses_refl)
next
  case (drop_frozen A l B)
  then show ?thesis
    by (intro loss_inv_keep [OF inv, where C = "[]"]) (auto dest: live_finish_frozen_imp simp: keeps_losses_refl)
next
  case (commit_terminal A e B)
  then show ?thesis using live_invD(3) [OF li] by (intro loss_inv_dead) auto
next
  case (drop_terminal A e B)
  then show ?thesis using live_invD(3) [OF li] by (intro loss_inv_dead) auto
next
  case freeze_begin
  then show ?thesis by (intro loss_inv_dead) (simp add: live_def)
next
  case (freeze_capture ps p qs snap)
  then show ?thesis using fi by (intro loss_inv_dead) (simp add: live_def freeze_inv_def)
next
  case (freeze_take ps ss st)
  then show ?thesis by (intro loss_inv_dead) (simp add: live_def)
qed (simp_all add: loss_inv_dead)

end
