(* ===== verification/State_Delivery_Drain.thy ===== *)
theory State_Delivery_Drain
  imports State_Delivery_Loss
begin

text \<open>
  The end of a state stream: the terminal error has one owner at a time, and the frozen images
  of a drain are in exactly one of the queue, an open receipt and the committed receipts.
\<close>

section \<open>The terminal error\<close>

definition terminal_view :: "dirty_state \<Rightarrow> blp_error option \<times> bool \<times> bool \<times> bool" where
  "terminal_view st =
     (ds_terminal st, ds_terminal_in_flight st, ds_terminal_delivered st, ds_receiver_closed st)"

lemma terminal_view_ops [simp]:
  "terminal_view (mark k r b st) = terminal_view st" "terminal_view (retire k row st) = terminal_view st"
  "terminal_view (remove k st) = terminal_view st" "terminal_view (detach k st) = terminal_view st"
  "terminal_view (register k feed revision label st) = terminal_view st"
  "terminal_view (close_source st) = terminal_view st"
  "terminal_view (freeze_capture_one snap p st) = terminal_view st"
  "terminal_view (freeze_publish images st) = terminal_view st"
  by (simp_all add: terminal_view_def mark_def retire_def remove_def detach_def register_def
      enqueue_member_def Let_def close_source_def freeze_capture_one_def freeze_publish_def
      split: option.split prod.split)

lemma terminal_view_finish [simp]: "terminal_view (finish rs b st) = terminal_view st"
proof -
  have "terminal_view (fold (finish_one c q b) rs st) = terminal_view st" for c q
    by (induction rs arbitrary: st) (simp_all add: terminal_view_def)
  then show ?thesis by (simp add: finish_def Let_def)
qed

lemma terminal_view_finish_frozen [simp]: "terminal_view (finish_frozen ids b st) = terminal_view st"
  by (rule finish_frozen_only_queue [of ids b st]) (simp add: terminal_view_def)

lemma terminal_view_freeze_take:
  "freeze_take ps st = (ss, st') \<Longrightarrow> terminal_view st' = terminal_view st"
  by (drule freeze_take_only_members) (auto simp: terminal_view_def)

lemma terminal_view_capture:
  "capture_one snapshot s st = (c, st') \<Longrightarrow> terminal_view st' = terminal_view st"
  using capture_one_cases [of snapshot s st c st'] by auto

text \<open>The first failure is with the table, or leased once, or reported once; it is dropped only
  when the receiver closes.\<close>

definition terminal_ok ::
  "blp_error option \<times> bool \<times> bool \<times> bool \<Rightarrow> blp_error list \<Rightarrow> blp_error option \<Rightarrow> blp_error list \<Rightarrow> bool" where
  "terminal_ok v leases failure reported \<longleftrightarrow>
     (case v of (terminal, in_flight, delivered, closed) \<Rightarrow>
        (in_flight \<longrightarrow> (\<exists>e. leases = [e])) \<and> (\<not> in_flight \<longrightarrow> leases = []) \<and>
        (delivered \<longrightarrow> (\<exists>e. reported = [e]) \<and> leases = []) \<and> (\<not> delivered \<longrightarrow> reported = []) \<and>
        (in_flight \<or> delivered \<longrightarrow> terminal = None) \<and>
        set leases \<union> set reported \<union> set_option terminal \<subseteq> set_option failure \<and>
        (failure \<noteq> None \<longrightarrow> \<not> closed \<longrightarrow> terminal \<noteq> None \<or> in_flight \<or> delivered))"

definition terminal_inv :: "delivery_world \<Rightarrow> bool" where
  "terminal_inv w \<longleftrightarrow>
     terminal_ok (terminal_view (dw_state w)) (dw_terminal_leases w) (dw_failure w) (dw_reported w)"

lemma terminal_inv_same:
  assumes "terminal_inv w" "terminal_view (dw_state w') = terminal_view (dw_state w)"
    "dw_terminal_leases w' = dw_terminal_leases w" "dw_failure w' = dw_failure w" "dw_reported w' = dw_reported w"
  shows "terminal_inv w'"
  using assms by (simp add: terminal_inv_def)

lemma terminal_inv_fail:
  assumes "terminal_inv w"
  shows "terminal_inv (w\<lparr>dw_state := fail e (dw_state w),
      dw_failure := (case dw_failure w of Some e0 \<Rightarrow> Some e0
                     | None \<Rightarrow> if ds_receiver_closed (dw_state w) then None else Some e)\<rparr>)"
  using assms
  by (cases "dw_failure w")
    (auto simp: terminal_inv_def terminal_ok_def terminal_view_def fail_def split: option.split)

lemma terminal_inv_close:
  assumes "terminal_inv w" "dw_state w' = receiver_close (dw_state w)"
    "dw_terminal_leases w' = dw_terminal_leases w" "dw_failure w' = dw_failure w" "dw_reported w' = dw_reported w"
  shows "terminal_inv w'"
  using assms by (auto simp: terminal_inv_def terminal_ok_def terminal_view_def receiver_close_def)

lemma select_terminal:
  assumes "select limit st = (sel, st')"
  shows "(\<exists>e. sel = SelectedTerminal e \<and> terminal_view st = (Some e, False, False, False) \<and>
            terminal_view st' = (None, True, False, False)) \<or>
         (\<forall>e. sel \<noteq> SelectedTerminal e) \<and> terminal_view st' = terminal_view st"
  using assms by (auto simp: select_def terminal_view_def split: if_splits option.splits prod.splits)

lemma terminal_inv_select:
  assumes inv: "terminal_inv w" and s: "select limit (dw_state w) = (sel, st)"
  shows "terminal_inv (select_leases sel (w\<lparr>dw_state := st\<rparr>))"
  using select_terminal [OF s]
proof (elim disjE exE conjE)
  fix e assume "sel = SelectedTerminal e" "terminal_view (dw_state w) = (Some e, False, False, False)"
    "terminal_view st = (None, True, False, False)"
  with inv show ?thesis by (auto simp: terminal_inv_def terminal_ok_def select_leases_def)
next
  assume "\<forall>e. sel \<noteq> SelectedTerminal e" "terminal_view st = terminal_view (dw_state w)"
  with inv show ?thesis by (auto simp: terminal_inv_def select_leases_def split: selection.split)
qed

lemma terminal_lease:
  assumes inv: "terminal_inv w" and l: "dw_terminal_leases w = A @ e # B"
  obtains "A = []" "B = []" "dw_failure w = Some e" "dw_reported w = []"
    "terminal_view (dw_state w) = (None, True, False, ds_receiver_closed (dw_state w))"
proof -
  have "\<exists>x. dw_terminal_leases w = [x]"
    using inv l by (auto simp: terminal_inv_def terminal_ok_def split: prod.splits)
  with l have "A = [] \<and> B = []" by (auto simp: append_eq_Cons_conv)
  then show thesis
    using inv l that by (auto simp: terminal_inv_def terminal_ok_def terminal_view_def)
qed

lemma terminal_view_finish_terminal:
  "terminal_view (finish_terminal None st) = (ds_terminal st, False, True, ds_receiver_closed st)"
  "terminal_view (finish_terminal (Some e) st) =
     (if ds_receiver_closed st then ds_terminal st else Some e, False, ds_terminal_delivered st,
      ds_receiver_closed st)"
  by (simp_all add: terminal_view_def finish_terminal_def Let_def)

lemma terminal_inv_step:
  assumes inv: "terminal_inv w" and step: "dstep w w'"
  shows "terminal_inv w'"
  using step
proof cases
  case (fail e)
  then show ?thesis using terminal_inv_fail [OF inv] by simp
next
  case close_receiver
  then show ?thesis using terminal_inv_close [OF inv] by simp
next
  case owner_gone
  then show ?thesis using terminal_inv_close [OF inv] by simp
next
  case (select limit sel st)
  then show ?thesis using terminal_inv_select [OF inv] by simp
next
  case (capture s ss snapshot c st)
  then show ?thesis using terminal_inv_same [OF inv] terminal_view_capture [OF capture(3)] by simp
next
  case (commit_terminal A e B)
  from inv commit_terminal(2) show ?thesis
    by (rule terminal_lease)
      (auto simp: commit_terminal(1) terminal_inv_def terminal_ok_def terminal_view_finish_terminal terminal_view_def [of "dw_state w"])
next
  case (drop_terminal A e B)
  from inv drop_terminal(2) show ?thesis
    by (rule terminal_lease)
      (auto simp: drop_terminal(1) terminal_inv_def terminal_ok_def terminal_view_finish_terminal terminal_view_def [of "dw_state w"])
next
  case (freeze_take ps ss st)
  have "terminal_view (st\<lparr>ds_frozen := True, ds_queue := []\<rparr>) = terminal_view (dw_state w)"
    using terminal_view_freeze_take [OF freeze_take(3)] by (simp add: terminal_view_def)
  with freeze_take show ?thesis using terminal_inv_same [OF inv] by simp
next
  case freeze_begin
  then show ?thesis using inv by (simp add: terminal_inv_def terminal_view_def)
qed (use terminal_inv_same [OF inv] in \<open>simp_all\<close>)

lemma terminal_inv_init: "terminal_inv delivery_init"
  by (simp add: terminal_inv_def terminal_ok_def terminal_view_def delivery_init_def delivery_channel_def)

end
