(* ===== verification/State_Delivery_Frozen.thy ===== *)
theory State_Delivery_Frozen
  imports State_Delivery_Drain
begin

text \<open>
  The frozen drain: every image of the frozen epochs is in exactly one place, a dropped receipt
  gives its images back in order, and a reader that commits what it receives ends with every
  image delivered.
\<close>

section \<open>Selecting and restoring\<close>

definition draining :: "dirty_state \<Rightarrow> bool" where
  "draining st \<longleftrightarrow> ds_frozen st \<and> \<not> ds_freezing st \<and> \<not> ds_receiver_closed st \<and> clean_terminal st"

definition image_covered :: "dirty_state \<Rightarrow> nat \<Rightarrow> bool" where
  "image_covered st i =
     (case member_of st (fz_key (ds_frozen_images st ! i)) of
        None \<Rightarrow> False | Some m \<Rightarrow> covered_by (ds_frozen_images st ! i) m)"

definition image_leased :: "dirty_state \<Rightarrow> nat \<Rightarrow> bool" where
  "image_leased st i =
     (case member_of st (fz_key (ds_frozen_images st ! i)) of None \<Rightarrow> False | Some m \<Rightarrow> dm_in_flight m)"

abbreviation numbered :: "dirty_state \<Rightarrow> nat list \<Rightarrow> (nat \<times> frozen_image) list" where
  "numbered st is \<equiv> map (\<lambda>i. (i, ds_frozen_images st ! i)) is"

lemma select_frozen_Cons:
  "select_frozen st limit epoch sel (i # q) =
     (if \<not> length sel < max limit 1 then (sel, i # q)
      else if image_covered st i then select_frozen st limit epoch sel q
      else if image_leased st i \<or>
         (case epoch of None \<Rightarrow> False | Some e \<Rightarrow> e \<noteq> fz_recovery_epoch (ds_frozen_images st ! i))
      then (sel, i # q)
      else select_frozen st limit (Some (fz_recovery_epoch (ds_frozen_images st ! i)))
             (sel @ [(i, ds_frozen_images st ! i)]) q)"
  by (simp add: image_covered_def image_leased_def Let_def)

declare select_frozen.simps(2) [simp del]

lemma select_frozen_prefix:
  "select_frozen st limit epoch sel q = (sel', q') \<Longrightarrow>
     \<exists>P. q = P @ q' \<and> sel' = sel @ numbered st (filter (\<lambda>i. \<not> image_covered st i) P)"
proof (induction q arbitrary: epoch sel)
  case (Cons i q)
  let ?im = "ds_frozen_images st ! i"
  let ?stop = "\<not> length sel < max limit 1 \<or> \<not> image_covered st i \<and> (image_leased st i \<or>
     (case epoch of None \<Rightarrow> False | Some e \<Rightarrow> e \<noteq> fz_recovery_epoch ?im))"
  consider (stop) "?stop" | (skip) "\<not> ?stop" "image_covered st i" | (take) "\<not> ?stop" "\<not> image_covered st i"
    by blast
  then show ?case
  proof cases
    case stop
    with Cons.prems have "sel' = sel" "q' = i # q"
      by (auto simp: select_frozen_Cons split: if_splits)
    then show ?thesis by (auto intro: exI [of _ "[]"])
  next
    case skip
    with Cons.prems Cons.IH [of epoch sel] obtain P where
      "q = P @ q'" "sel' = sel @ numbered st (filter (\<lambda>i. \<not> image_covered st i) P)"
      by (auto simp: select_frozen_Cons)
    with skip show ?thesis by (intro exI [of _ "i # P"]) simp
  next
    case take
    with Cons.prems Cons.IH [of "Some (fz_recovery_epoch ?im)" "sel @ [(i, ?im)]"] obtain P where
      "q = P @ q'" "sel' = (sel @ [(i, ?im)]) @ numbered st (filter (\<lambda>i. \<not> image_covered st i) P)"
      by (auto simp: select_frozen_Cons)
    with take show ?thesis by (intro exI [of _ "i # P"]) simp
  qed
qed simp

lemma insert_frozen_insort: "sorted q \<Longrightarrow> insert_frozen i q = insort i q" if "i \<notin> set q"
  using that
proof (induction q)
  case (Cons x q)
  then show ?case by (auto simp: insert_frozen_def not_less sorted_wrt.simps(2) dest!: le_neq_implies_less)
qed (simp add: insert_frozen_def)

lemma restore_frozen_inv:
  assumes "sorted (ds_frozen_queue st)" "distinct (ds_frozen_queue st)"
  shows "sorted (ds_frozen_queue (restore_frozen i st))" "distinct (ds_frozen_queue (restore_frozen i st))"
    "set (ds_frozen_queue (restore_frozen i st)) =
       set (ds_frozen_queue st) \<union> {j. j = i \<and> j < length (ds_frozen_images st)}"
    "ds_frozen_images (restore_frozen i st) = ds_frozen_images st"
  using assms by (auto simp: restore_frozen_def insert_frozen_insort sorted_insort distinct_insort set_insort_key)

lemma fold_restore_frozen:
  assumes "sorted (ds_frozen_queue st)" "distinct (ds_frozen_queue st)"
  shows "sorted (ds_frozen_queue (fold restore_frozen ids st)) \<and>
    distinct (ds_frozen_queue (fold restore_frozen ids st)) \<and>
    set (ds_frozen_queue (fold restore_frozen ids st)) =
      set (ds_frozen_queue st) \<union> {i \<in> set ids. i < length (ds_frozen_images st)}"
  using assms
proof (induction ids arbitrary: st)
  case (Cons i ids)
  note r = restore_frozen_inv [OF Cons.prems, of i]
  show ?case using Cons.IH [OF r(1,2)] r(3,4) by auto
qed simp

section \<open>Every image is in one place\<close>

definition frozen_inv :: "delivery_world \<Rightarrow> bool" where
  "frozen_inv w \<longleftrightarrow>
     (let st = dw_state w; q = ds_frozen_queue st; L = concat (dw_frozen_leases w); D = dw_frozen_done w
      in (\<not> ds_frozen st \<or> ds_freezing st \<longrightarrow> q = [] \<and> dw_frozen_leases w = [] \<and> D = []) \<and>
         (ds_frozen st \<or> ds_freezing st \<longrightarrow> dw_selected w = []) \<and>
         sorted q \<and> distinct (q @ L @ D) \<and>
         (\<not> ds_receiver_closed st \<longrightarrow> set (q @ L @ D) \<subseteq> {..<length (ds_frozen_images st)}) \<and>
         (draining st \<longrightarrow> (\<forall>i < length (ds_frozen_images st). i \<in> set (q @ L @ D) \<or> image_covered st i)))"

lemma frozen_invI:
  assumes "\<not> ds_frozen (dw_state w) \<or> ds_freezing (dw_state w) \<Longrightarrow>
      ds_frozen_queue (dw_state w) = [] \<and> dw_frozen_leases w = [] \<and> dw_frozen_done w = []"
    and "ds_frozen (dw_state w) \<or> ds_freezing (dw_state w) \<Longrightarrow> dw_selected w = []"
    and "sorted (ds_frozen_queue (dw_state w))"
    and "distinct (ds_frozen_queue (dw_state w) @ concat (dw_frozen_leases w) @ dw_frozen_done w)"
    and "\<not> ds_receiver_closed (dw_state w) \<Longrightarrow>
      set (ds_frozen_queue (dw_state w) @ concat (dw_frozen_leases w) @ dw_frozen_done w)
        \<subseteq> {..<length (ds_frozen_images (dw_state w))}"
    and "\<And>i. draining (dw_state w) \<Longrightarrow> i < length (ds_frozen_images (dw_state w)) \<Longrightarrow>
      i \<in> set (ds_frozen_queue (dw_state w) @ concat (dw_frozen_leases w) @ dw_frozen_done w) \<or>
      image_covered (dw_state w) i"
  shows "frozen_inv w"
  unfolding frozen_inv_def Let_def using assms by blast

lemma frozen_invD:
  assumes "frozen_inv w"
  shows "\<not> ds_frozen (dw_state w) \<or> ds_freezing (dw_state w) \<Longrightarrow>
      ds_frozen_queue (dw_state w) = [] \<and> dw_frozen_leases w = [] \<and> dw_frozen_done w = []"
    and "ds_frozen (dw_state w) \<or> ds_freezing (dw_state w) \<Longrightarrow> dw_selected w = []"
    and "sorted (ds_frozen_queue (dw_state w))"
    and "distinct (ds_frozen_queue (dw_state w) @ concat (dw_frozen_leases w) @ dw_frozen_done w)"
    and "\<not> ds_receiver_closed (dw_state w) \<Longrightarrow>
      set (ds_frozen_queue (dw_state w) @ concat (dw_frozen_leases w) @ dw_frozen_done w)
        \<subseteq> {..<length (ds_frozen_images (dw_state w))}"
    and "draining (dw_state w) \<Longrightarrow> i < length (ds_frozen_images (dw_state w)) \<Longrightarrow>
      i \<in> set (ds_frozen_queue (dw_state w) @ concat (dw_frozen_leases w) @ dw_frozen_done w) \<or>
      image_covered (dw_state w) i"
  using assms unfolding frozen_inv_def Let_def by blast+

definition frozen_view :: "dirty_state \<Rightarrow> nat list \<times> frozen_image list \<times> bool \<times> bool \<times> bool" where
  "frozen_view st = (ds_frozen_queue st, ds_frozen_images st, ds_frozen st, ds_freezing st, ds_receiver_closed st)"

lemma frozen_view_ops [simp]:
  "frozen_view (mark k r b st) = frozen_view st" "frozen_view (retire k row st) = frozen_view st"
  "frozen_view (remove k st) = frozen_view st" "frozen_view (detach k st) = frozen_view st"
  "frozen_view (register k feed revision label st) = frozen_view st"
  "frozen_view (close_source st) = frozen_view st"
  "frozen_view (freeze_capture_one snap p st) = frozen_view st"
  by (simp_all add: frozen_view_def mark_def retire_def remove_def detach_def register_def
      enqueue_member_def Let_def close_source_def freeze_capture_one_def split: option.split prod.split)

lemma frozen_view_fold_finish: "frozen_view (fold (finish_one c q b) rs st) = frozen_view st"
  by (induction rs arbitrary: st) (simp_all add: frozen_view_def)

lemma frozen_view_finish [simp]: "frozen_view (finish rs b st) = frozen_view st"
  by (simp add: finish_def Let_def frozen_view_fold_finish)

text \<open>A step that leaves the frozen images alone: what was covered stays covered.\<close>

lemma frozen_inv_same:
  assumes inv: "frozen_inv w" and v: "frozen_view (dw_state w') = frozen_view (dw_state w)"
    and l: "dw_frozen_leases w' = dw_frozen_leases w" "dw_frozen_done w' = dw_frozen_done w"
    and s: "ds_frozen (dw_state w) \<or> ds_freezing (dw_state w) \<Longrightarrow> dw_selected w' = []"
    and c: "\<And>i. draining (dw_state w') \<Longrightarrow> draining (dw_state w) \<and>
      (image_covered (dw_state w) i \<longrightarrow> image_covered (dw_state w') i)"
  shows "frozen_inv w'"
proof -
  have e: "ds_frozen_queue (dw_state w') = ds_frozen_queue (dw_state w)"
    "ds_frozen_images (dw_state w') = ds_frozen_images (dw_state w)"
    "ds_frozen (dw_state w') = ds_frozen (dw_state w)" "ds_freezing (dw_state w') = ds_freezing (dw_state w)"
    "ds_receiver_closed (dw_state w') = ds_receiver_closed (dw_state w)"
    using v by (simp_all add: frozen_view_def)
  show ?thesis
    by (rule frozen_invI; unfold e l)
      (use frozen_invD [OF inv] s c in \<open>blast+\<close>)
qed

lemma covered_by_finish: "covered_by f m \<Longrightarrow> covered_by f (finish_member b r m)"
  by (auto simp: covered_by_def finish_member_def Let_def max_def split: option.splits if_splits)

lemma covered_by_queued [simp]: "covered_by f (m\<lparr>dm_queued := q\<rparr>) = covered_by f m"
  by (simp add: covered_by_def split: option.split)

lemma image_covered_finish_one:
  "image_covered st i \<Longrightarrow> image_covered (finish_one True q b r st) i"
  by (auto simp: image_covered_def finish_one_def Let_def update_conv' covered_by_finish
      split: option.splits if_splits)

lemma image_covered_finish:
  assumes "image_covered st i" "ds_frozen st"
  shows "image_covered (finish rs b st) i"
proof -
  have "image_covered st i \<Longrightarrow> image_covered (fold (finish_one True q b) rs st) i" for q
    by (induction rs arbitrary: st) (simp_all add: image_covered_finish_one)
  then show ?thesis using assms by (simp add: finish_def Let_def)
qed

lemma draining_frozen: "draining st \<Longrightarrow> ds_frozen st"
  by (simp add: draining_def)

lemma draining_view:
  "draining st \<longleftrightarrow> (case frozen_view st of (_, _, f, z, c) \<Rightarrow> f \<and> \<not> z \<and> \<not> c) \<and> clean_terminal st"
  by (simp add: draining_def frozen_view_def)

lemma draining_finish [simp]: "draining (finish rs b st) = draining st"
  by (simp add: draining_view)

lemma draining_members:
  "draining st \<Longrightarrow> mark k r b st = st" "draining st \<Longrightarrow> retire k row st = st"
  "draining st \<Longrightarrow> detach k st = st" "draining st \<Longrightarrow> register k feed revision label st = st"
  by (simp_all add: draining_def mark_def retire_def detach_def register_def)

lemma draining_source_ops [simp]:
  "draining (mark k r b st) = draining st" "draining (retire k row st) = draining st"
  "draining (detach k st) = draining st" "draining (register k feed revision label st) = draining st"
  by (simp_all add: draining_view)

lemma draining_close_source:
  "draining (close_source st) = draining st"
  "draining st \<Longrightarrow> image_covered (close_source st) i = image_covered st i"
proof -
  have "clean_terminal (close_source st) = clean_terminal st"
    by (simp add: close_source_def clean_terminal_def)
  then show "draining (close_source st) = draining st" by (simp add: draining_view)
  show "draining st \<Longrightarrow> image_covered (close_source st) i = image_covered st i"
    by (simp add: draining_def close_source_def image_covered_def split: option.split)
qed

lemma frozen_inv_table_op:
  assumes inv: "frozen_inv w" and v: "frozen_view (dw_state w') = frozen_view (dw_state w)"
    and d: "draining (dw_state w') \<Longrightarrow> draining (dw_state w) \<and> dw_state w' = dw_state w"
    and l: "dw_frozen_leases w' = dw_frozen_leases w" "dw_frozen_done w' = dw_frozen_done w"
      "dw_selected w' = dw_selected w"
  shows "frozen_inv w'"
proof (rule frozen_inv_same [OF inv v l(1,2)])
  show "ds_frozen (dw_state w) \<or> ds_freezing (dw_state w) \<Longrightarrow> dw_selected w' = []"
    using frozen_invD(2) [OF inv] l(3) by simp
qed (use d in auto)

lemma fail_draining: "draining (fail e st) \<Longrightarrow> fail e st = st"
  by (auto simp: fail_def draining_def clean_terminal_def split: if_splits option.splits)

lemma frozen_inv_fail:
  assumes inv: "frozen_inv w" and w': "dw_state w' = fail e (dw_state w)"
    and l: "dw_frozen_leases w' = dw_frozen_leases w" "dw_frozen_done w' = dw_frozen_done w"
      "dw_selected w' = dw_selected w"
  shows "frozen_inv w'"
proof (cases "fail e (dw_state w) = dw_state w")
  case True
  show ?thesis by (rule frozen_inv_table_op [OF inv]) (simp_all add: w' True l)
next
  case False
  then have e: "ds_frozen_queue (dw_state w') = []" "ds_frozen_images (dw_state w') = ds_frozen_images (dw_state w)"
    "ds_frozen (dw_state w') = ds_frozen (dw_state w)" "ds_freezing (dw_state w') = ds_freezing (dw_state w)"
    "ds_receiver_closed (dw_state w') = ds_receiver_closed (dw_state w)"
    unfolding w' by (auto simp: fail_def)
  have nd: "\<not> draining (dw_state w')" using False fail_draining w' by auto
  show ?thesis
    by (rule frozen_invI; unfold e l) (use frozen_invD(1,2,4,5) [OF inv] nd in \<open>auto\<close>)
qed

lemma frozen_inv_close:
  assumes inv: "frozen_inv w" and w': "dw_state w' = receiver_close (dw_state w)"
    and l: "dw_frozen_leases w' = dw_frozen_leases w" "dw_frozen_done w' = dw_frozen_done w"
      "dw_selected w' = []"
  shows "frozen_inv w'"
  using frozen_invD(1,4) [OF inv]
  by (intro frozen_invI) (auto simp: w' l receiver_close_def draining_def)

lemma frozen_inv_finish_terminal:
  assumes inv: "frozen_inv w" and w': "dw_state w' = finish_terminal e (dw_state w)"
    and l: "dw_frozen_leases w' = dw_frozen_leases w" "dw_frozen_done w' = dw_frozen_done w"
      "dw_selected w' = dw_selected w"
  shows "frozen_inv w'"
proof -
  let ?st = "dw_state w"
  have e: "ds_frozen_images (dw_state w') = ds_frozen_images ?st"
    "ds_frozen (dw_state w') = ds_frozen ?st" "ds_freezing (dw_state w') = ds_freezing ?st"
    "ds_receiver_closed (dw_state w') = ds_receiver_closed ?st"
    unfolding w' by (simp_all add: finish_terminal_def Let_def split: option.split)
  have q: "ds_frozen_queue (dw_state w') = ds_frozen_queue ?st \<or> ds_frozen_queue (dw_state w') = []"
    unfolding w' by (simp add: finish_terminal_def Let_def split: option.split)
  have nd: "\<not> draining (dw_state w')"
    unfolding w' by (simp add: finish_terminal_def draining_def clean_terminal_def Let_def split: option.split)
  show ?thesis
    using q
  proof
    assume *: "ds_frozen_queue (dw_state w') = ds_frozen_queue ?st"
    show ?thesis by (rule frozen_invI; unfold * e l) (use frozen_invD(1-5) [OF inv] nd in \<open>blast+\<close>)
  next
    assume *: "ds_frozen_queue (dw_state w') = []"
    show ?thesis by (rule frozen_invI; unfold * e l) (use frozen_invD(1,2,4,5) [OF inv] nd in \<open>auto\<close>)
  qed
qed

lemma frozen_inv_select:
  assumes inv: "frozen_inv w" and s: "select limit (dw_state w) = (sel, st)"
    and i: "dw_selected w = []"
  shows "frozen_inv (select_leases sel (w\<lparr>dw_state := st\<rparr>))" (is "frozen_inv ?w")
proof (cases sel)
  case (Frozen a)
  let ?st = "dw_state w"
  from s Frozen have fz: "ds_frozen ?st" "\<not> ds_freezing ?st"
    by (auto simp: select_def split: if_splits option.splits prod.splits)
  obtain q where q: "select_frozen ?st limit None [] (ds_frozen_queue ?st) = (a, q)"
    and st: "st = ?st\<lparr>ds_frozen_queue := q\<rparr>"
    using s Frozen by (auto simp: select_def split: if_splits option.splits prod.splits)
  from select_frozen_prefix [OF q] obtain P where
    P: "ds_frozen_queue ?st = P @ q" and a: "a = numbered ?st (filter (\<lambda>i. \<not> image_covered ?st i) P)" by auto
  have fa: "map fst a = filter (\<lambda>i. \<not> image_covered ?st i) P" by (simp add: a comp_def)
  define w1 where "w1 = ?w"
  have w: "dw_state w1 = ?st\<lparr>ds_frozen_queue := q\<rparr>" "dw_frozen_leases w1 = map fst a # dw_frozen_leases w"
    "dw_frozen_done w1 = dw_frozen_done w" "dw_selected w1 = []"
    by (simp_all add: w1_def Frozen select_leases_def st i)
  have c: "image_covered (dw_state w1) i = image_covered ?st i" for i by (simp add: w image_covered_def split: option.split)
  note D = frozen_invD [OF inv, unfolded P]
  have "frozen_inv w1"
  proof (rule frozen_invI)
    show "sorted (ds_frozen_queue (dw_state w1))" using D(3) by (simp add: w sorted_append)
    show "distinct (ds_frozen_queue (dw_state w1) @ concat (dw_frozen_leases w1) @ dw_frozen_done w1)"
      using D(4) by (auto simp: w fa)
    show "set (ds_frozen_queue (dw_state w1) @ concat (dw_frozen_leases w1) @ dw_frozen_done w1)
        \<subseteq> {..<length (ds_frozen_images (dw_state w1))}" if "\<not> ds_receiver_closed (dw_state w1)"
      using D(5) that by (auto simp: w fa)
    show "i \<in> set (ds_frozen_queue (dw_state w1) @ concat (dw_frozen_leases w1) @ dw_frozen_done w1) \<or>
        image_covered (dw_state w1) i" if "draining (dw_state w1)" "i < length (ds_frozen_images (dw_state w1))" for i
      using D(6) [of i] that unfolding c by (auto simp: w fa draining_def clean_terminal_def)
  qed (simp_all add: w fz)
  then show ?thesis by (simp add: w1_def)
next
  case Nothing
  with s have "st = dw_state w" by (auto simp: select_def split: if_splits option.splits prod.splits)
  with Nothing inv show ?thesis by (simp add: select_leases_def)
next
  case (SelectedTerminal e)
  with s have v: "frozen_view st = frozen_view (dw_state w)" "\<not> draining st"
    by (auto simp: select_def frozen_view_def draining_def clean_terminal_def split: if_splits option.splits prod.splits)
  show ?thesis
    by (rule frozen_inv_table_op [OF inv]) (use v in \<open>simp_all add: SelectedTerminal select_leases_def\<close>)
next
  case (Live a)
  with s have v: "frozen_view st = frozen_view (dw_state w)" "\<not> ds_frozen st" "\<not> ds_freezing st"
    by (auto simp: select_def frozen_view_def split: if_splits option.splits prod.splits)
  show ?thesis
    by (rule frozen_inv_same [OF inv]) 
      (use v in \<open>auto simp: Live select_leases_def frozen_view_def draining_def\<close>)
qed

text \<open>The end of a frozen receipt.\<close>

lemma frozen_inv_commit:
  assumes inv: "frozen_inv w" and w: "dw_frozen_leases w = A @ l # B"
    and w': "dw_state w' = dw_state w" "dw_frozen_leases w' = A @ B" "dw_frozen_done w' = dw_frozen_done w @ l"
      "dw_selected w' = dw_selected w"
  shows "frozen_inv w'"
proof -
  note D = frozen_invD [OF inv]
  have s: "set (ds_frozen_queue (dw_state w') @ concat (dw_frozen_leases w') @ dw_frozen_done w') =
      set (ds_frozen_queue (dw_state w) @ concat (dw_frozen_leases w) @ dw_frozen_done w)"
    by (auto simp: w w')
  show ?thesis
    by (rule frozen_invI; (unfold s)?) (use D in \<open>auto simp: w w'\<close>)
qed

lemma frozen_inv_drop:
  assumes inv: "frozen_inv w" and w: "dw_frozen_leases w = A @ l # B"
    and w': "dw_state w' = finish_frozen l False (dw_state w)" "dw_frozen_leases w' = A @ B"
      "dw_frozen_done w' = dw_frozen_done w" "dw_selected w' = dw_selected w"
  shows "frozen_inv w'"
proof -
  let ?st = "dw_state w"
  note D = frozen_invD [OF inv]
  have dq: "distinct (ds_frozen_queue ?st)" using D(4) by simp
  define q where "q = ds_frozen_queue (finish_frozen l False ?st)"
  have q: "finish_frozen l False ?st = ?st\<lparr>ds_frozen_queue := q\<rparr>"
    by (rule finish_frozen_only_queue [of l False ?st]) (simp add: q_def)
  have c: "image_covered (dw_state w') i = image_covered ?st i" for i
    by (simp add: w' q image_covered_def split: option.split)
  have dr: "draining (dw_state w') = draining ?st" by (simp add: w' q draining_def clean_terminal_def)
  have sq: "sorted q \<and> distinct q \<and> set q \<subseteq> set (ds_frozen_queue ?st) \<union> set l \<and>
      (draining ?st \<longrightarrow> set (ds_frozen_queue ?st) \<union> set l \<subseteq> set q)"
  proof (cases "ds_frozen ?st \<and> \<not> ds_receiver_closed ?st \<and> clean_terminal ?st")
    case True
    then have "q = ds_frozen_queue (fold restore_frozen l ?st)"
      by (simp add: q_def finish_frozen_def clean_terminal_def)
    moreover have "set l \<subseteq> {..<length (ds_frozen_images ?st)}" using D(5) True by (simp add: w)
    ultimately show ?thesis using fold_restore_frozen [OF D(3) dq, of l] by auto
  next
    case False
    then have "q = ds_frozen_queue ?st" by (auto simp: q_def finish_frozen_def clean_terminal_def)
    with D(3) dq False show ?thesis by (auto simp: draining_def)
  qed
  have st: "ds_frozen_queue (dw_state w') = q" "ds_frozen_images (dw_state w') = ds_frozen_images ?st"
    "ds_frozen (dw_state w') = ds_frozen ?st" "ds_freezing (dw_state w') = ds_freezing ?st"
    "ds_receiver_closed (dw_state w') = ds_receiver_closed ?st"
    by (simp_all add: w' q)
  have "distinct (concat (A @ B) @ dw_frozen_done w)" using D(4) by (auto simp: w)
  moreover have "(set (ds_frozen_queue ?st) \<union> set l) \<inter> set (concat (A @ B) @ dw_frozen_done w) = {}"
    using D(4) by (simp add: w) blast
  ultimately have R: "distinct (concat (A @ B) @ dw_frozen_done w)"
    "(set (ds_frozen_queue ?st) \<union> set l) \<inter> set (concat (A @ B) @ dw_frozen_done w) = {}" by blast+
  show ?thesis
  proof (rule frozen_invI)
    show "ds_frozen_queue (dw_state w') = [] \<and> dw_frozen_leases w' = [] \<and> dw_frozen_done w' = []"
      if "\<not> ds_frozen (dw_state w') \<or> ds_freezing (dw_state w')"
      using D(1) that unfolding st by (simp add: w)
    show "dw_selected w' = []" if "ds_frozen (dw_state w') \<or> ds_freezing (dw_state w')"
      using D(2) that unfolding st by (simp add: w')
    show "sorted (ds_frozen_queue (dw_state w'))" using sq unfolding st by simp
    show "distinct (ds_frozen_queue (dw_state w') @ concat (dw_frozen_leases w') @ dw_frozen_done w')"
      using R sq unfolding st w'(2,3) by (simp only: distinct_append) blast
    show "set (ds_frozen_queue (dw_state w') @ concat (dw_frozen_leases w') @ dw_frozen_done w')
        \<subseteq> {..<length (ds_frozen_images (dw_state w'))}" if "\<not> ds_receiver_closed (dw_state w')"
      using D(5) that sq unfolding st by (auto simp: w w'(2,3))
    show "i \<in> set (ds_frozen_queue (dw_state w') @ concat (dw_frozen_leases w') @ dw_frozen_done w') \<or>
        image_covered (dw_state w') i" if "draining (dw_state w')" "i < length (ds_frozen_images (dw_state w'))" for i
      using D(6) [of i] that sq unfolding st c dr by (auto simp: w w'(2,3))
  qed
qed

lemma frozen_inv_publish:
  assumes inv: "frozen_inv w" and f: "ds_freezing (dw_state w)"
    and w': "dw_state w' = freeze_publish images (dw_state w)" "dw_frozen_leases w' = dw_frozen_leases w"
      "dw_frozen_done w' = dw_frozen_done w" "dw_selected w' = dw_selected w"
  shows "frozen_inv w'"
  using frozen_invD(1,2) [OF inv] f
  by (intro frozen_invI) (auto simp: w' freeze_publish_def draining_def clean_terminal_def)

lemma frozen_inv_step:
  assumes inv: "frozen_inv w" and fi: "freeze_inv w" and step: "dstep w w'"
  shows "frozen_inv w'"
  using step
proof cases
  case (register k feed revision label)
  then show ?thesis by (intro frozen_inv_table_op [OF inv]) (simp_all add: draining_members)
next
  case (mark k revision invalidated)
  then show ?thesis by (intro frozen_inv_table_op [OF inv]) (simp_all add: draining_members)
next
  case (retire k row)
  then show ?thesis by (intro frozen_inv_table_op [OF inv]) (simp_all add: draining_members)
next
  case (detach k)
  then show ?thesis by (intro frozen_inv_table_op [OF inv]) (simp_all add: draining_members)
next
  case (fail e)
  then show ?thesis by (intro frozen_inv_fail [OF inv, of _ e]) simp_all
next
  case close_source
  then show ?thesis using frozen_invD(2) [OF inv]
    by (intro frozen_inv_same [OF inv]) (simp_all add: draining_close_source)
next
  case close_receiver
  then show ?thesis by (intro frozen_inv_close [OF inv]) simp_all
next
  case (select limit sel st)
  then show ?thesis using frozen_inv_select [OF inv] by simp
next
  case owner_gone
  then show ?thesis by (intro frozen_inv_close [OF inv]) simp_all
next
  case (capture s ss snapshot c st)
  then have nf: "\<not> ds_frozen (dw_state w)" "\<not> ds_freezing (dw_state w)" using frozen_invD(2) [OF inv] by auto
  have v: "frozen_view st = frozen_view (dw_state w)" using capture_one_cases [OF capture(3)] by auto
  then have "\<not> draining st" using nf by (simp add: draining_def frozen_view_def)
  with capture v nf show ?thesis by (intro frozen_inv_same [OF inv]) simp_all
next
  case lease
  then show ?thesis using frozen_invD(2) [OF inv] by (intro frozen_inv_same [OF inv]) simp_all
next
  case (commit A l B)
  then show ?thesis using frozen_invD(2) [OF inv]
    by (intro frozen_inv_same [OF inv]) (auto simp: draining_frozen intro: image_covered_finish)
next
  case (drop A l B)
  then show ?thesis using frozen_invD(2) [OF inv]
    by (intro frozen_inv_same [OF inv]) (auto simp: draining_frozen intro: image_covered_finish)
next
  case (commit_frozen A l B)
  then show ?thesis by (intro frozen_inv_commit [OF inv]) (simp_all add: finish_frozen_def)
next
  case (drop_frozen A l B)
  then show ?thesis by (intro frozen_inv_drop [OF inv]) simp_all
next
  case (commit_terminal A e B)
  then show ?thesis by (intro frozen_inv_finish_terminal [OF inv]) simp_all
next
  case (drop_terminal A e B)
  then show ?thesis by (intro frozen_inv_finish_terminal [OF inv]) simp_all
next
  case freeze_begin
  then show ?thesis using frozen_invD [OF inv]
    by (intro frozen_invI) (auto simp: draining_def)
next
  case (freeze_capture ps p qs snap)
  then have "ds_freezing (dw_state w)" using fi by (simp add: freeze_inv_def)
  with freeze_capture show ?thesis using frozen_invD(2) [OF inv]
    by (intro frozen_inv_table_op [OF inv]) (simp_all add: draining_def)
next
  case (freeze_take ps ss st)
  then have f: "ds_freezing (dw_state w)" using fi by (simp add: freeze_inv_def)
  obtain ms where "st = (dw_state w)\<lparr>ds_members := ms\<rparr>" using freeze_take_only_members [OF freeze_take(3)] by blast
  with freeze_take f show ?thesis using frozen_invD(1,2) [OF inv]
    by (intro frozen_invI) (auto simp: draining_def)
next
  case (freeze_publish ss images recoveries)
  then have "ds_freezing (dw_state w)" using fi by (simp add: freeze_inv_def)
  with freeze_publish show ?thesis by (intro frozen_inv_publish [OF inv]) simp_all
qed

lemma frozen_inv_init: "frozen_inv delivery_init"
  by (rule frozen_invI) (simp_all add: delivery_init_def delivery_channel_def draining_def)

text \<open>All invariants of the system together.\<close>

lemma delivery_invariants:
  "delivery_reach w \<Longrightarrow>
     live_inv w \<and> freeze_inv w \<and> rows_inv w \<and> loss_inv w \<and> terminal_inv w \<and> frozen_inv w"
proof (induction rule: delivery_reach.induct)
  case init
  show ?case
    using live_inv_init terminal_inv_init frozen_inv_init
    by (simp add: freeze_inv_def rows_inv_def loss_inv_def) (simp add: delivery_init_def)
next
  case (step w w')
  then show ?case
    using live_inv_step freeze_inv_step rows_inv_step loss_inv_step terminal_inv_step frozen_inv_step by blast
qed

end
