(* ===== verification/State_Delivery_Close.thy ===== *)
theory State_Delivery_Close
  imports State_Delivery_Frozen
begin

text \<open>
  Closing with a drain: what \<open>prepare_close\<close> freezes for a pending topic, and that a reader
  which commits each batch gets every frozen image, losses before recoveries.
\<close>

section \<open>A committed drain\<close>

abbreviation uncovered :: "dirty_state \<Rightarrow> nat list \<Rightarrow> nat list" where
  "uncovered st q \<equiv> filter (\<lambda>i. \<not> image_covered st i) q"

definition same_epoch :: "(nat \<times> frozen_image) list \<Rightarrow> bool" where
  "same_epoch b \<longleftrightarrow> (\<forall>x \<in> set b. \<forall>y \<in> set b. fz_recovery_epoch (snd x) = fz_recovery_epoch (snd y))"

lemma select_frozen_batch:
  assumes "select_frozen st limit epoch sel q = (sel', q')" "length sel \<le> max limit 1"
    "\<forall>x \<in> set sel. Some (fz_recovery_epoch (snd x)) = epoch"
  shows "length sel' \<le> max limit 1 \<and>
    (\<exists>e. \<forall>x \<in> set sel'. Some (fz_recovery_epoch (snd x)) = e)"
  using assms
proof (induction q arbitrary: epoch sel)
  case (Cons i q)
  let ?e = "fz_recovery_epoch (ds_frozen_images st ! i)"
  show ?case
  proof (cases "length sel < max limit 1 \<and> \<not> image_covered st i \<and> \<not> image_leased st i \<and>
      (epoch = None \<or> epoch = Some ?e)")
    case True
    then have n: "select_frozen st limit (Some ?e) (sel @ [(i, ds_frozen_images st ! i)]) q = (sel', q')"
      using Cons.prems(1) by (auto simp: select_frozen_Cons)
    show ?thesis
      using True Cons.prems(3) by (intro Cons.IH [OF n]) (auto split: option.splits)
  next
    case False
    then have "sel' = sel \<or> select_frozen st limit epoch sel q = (sel', q')"
      using Cons.prems(1) by (auto simp: select_frozen_Cons split: if_splits option.splits)
    then show ?thesis using Cons.IH [of epoch sel] Cons.prems(2,3) by blast
  qed
qed auto

lemma select_frozen_progress:
  assumes "\<forall>i \<in> set q. \<not> image_leased st i" "uncovered st q \<noteq> []"
    "select_frozen st limit None [] q = (sel, q')"
  shows "sel \<noteq> []"
  using assms
proof (induction q)
  case (Cons i q)
  show ?case
  proof (cases "image_covered st i")
    case True
    with Cons show ?thesis by (simp add: select_frozen_Cons)
  next
    case False
    with Cons.prems have "select_frozen st limit (Some (fz_recovery_epoch (ds_frozen_images st ! i)))
        [(i, ds_frozen_images st ! i)] q = (sel, q')"
      by (simp add: select_frozen_Cons)
    from select_frozen_prefix [OF this] show ?thesis by auto
  qed
qed simp

lemma select_draining:
  assumes "draining st" "select_frozen st limit None [] (ds_frozen_queue st) = (s, q)"
  shows "select limit st = (Frozen s, st\<lparr>ds_frozen_queue := q\<rparr>)"
  using assms by (simp add: select_def draining_def clean_terminal_def)

lemma drain_frozen_all:
  assumes "draining st" "\<forall>i \<in> set (ds_frozen_queue st). \<not> image_leased st i"
    "length (uncovered st (ds_frozen_queue st)) < n"
  shows "concat (drain_frozen n limit st) = numbered st (uncovered st (ds_frozen_queue st))"
  using assms
proof (induction n arbitrary: st)
  case (Suc n)
  let ?q = "ds_frozen_queue st"
  obtain s q where sf: "select_frozen st limit None [] ?q = (s, q)" by fastforce
  from select_frozen_prefix [OF sf] obtain P where P: "?q = P @ q" and s: "s = numbered st (uncovered st P)" by auto
  note sel = select_draining [OF Suc.prems(1) sf]
  show ?case
  proof (cases "s = []")
    case True
    with select_frozen_progress [OF Suc.prems(2) _ sf] have "uncovered st ?q = []" by blast
    with True sel show ?thesis by simp
  next
    case False
    let ?st = "st\<lparr>ds_frozen_queue := q\<rparr>"
    have ff: "finish_frozen ids True ?st = ?st" for ids by (simp add: finish_frozen_def)
    have cv: "image_covered ?st i = image_covered st i" "image_leased ?st i = image_leased st i" for i
      by (simp_all add: image_covered_def image_leased_def split: option.split)
    have "concat (drain_frozen n limit ?st) = numbered ?st (uncovered ?st (ds_frozen_queue ?st))"
    proof (rule Suc.IH)
      show "draining ?st" using Suc.prems(1) by (simp add: draining_def clean_terminal_def)
      show "\<forall>i \<in> set (ds_frozen_queue ?st). \<not> image_leased ?st i" using Suc.prems(2) P by (simp add: cv)
      have "0 < length (uncovered st P)" using False s by simp
      moreover have "length (uncovered st ?q) = length (uncovered st P) + length (uncovered st q)" by (simp add: P)
      ultimately have "length (uncovered st q) < n" using Suc.prems(3) by linarith
      then show "length (uncovered ?st (ds_frozen_queue ?st)) < n" by (simp add: cv)
    qed
    with False sel P s ff show ?thesis by (simp add: cv)
  qed
qed simp

lemma drain_frozen_batches:
  assumes "b \<in> set (drain_frozen n limit st)" "draining st"
  shows "b \<noteq> [] \<and> length b \<le> max limit 1 \<and> same_epoch b"
  using assms
proof (induction n arbitrary: st)
  case (Suc n)
  obtain s q where sf: "select_frozen st limit None [] (ds_frozen_queue st) = (s, q)" by fastforce
  note sel = select_draining [OF Suc.prems(2) sf]
  let ?st = "st\<lparr>ds_frozen_queue := q\<rparr>"
  have ff: "finish_frozen ids True ?st = ?st" for ids by (simp add: finish_frozen_def)
  have d: "draining ?st" using Suc.prems(2) by (simp add: draining_def clean_terminal_def)
  from Suc.prems(1) sel ff consider "b = s" "s \<noteq> []" | "b \<in> set (drain_frozen n limit ?st)"
    by (auto split: if_splits)
  then show ?case
  proof cases
    case 1
    from select_frozen_batch [OF sf] obtain e where
      "length s \<le> max limit 1" "\<forall>x \<in> set s. Some (fz_recovery_epoch (snd x)) = e" by auto
    then have "same_epoch s" unfolding same_epoch_def by (metis option.inject)
    with 1 \<open>length s \<le> max limit 1\<close> show ?thesis by simp
  next
    case 2
    with Suc.IH d show ?thesis by blast
  qed
qed simp

section \<open>What is frozen\<close>

text \<open>The effect of \<open>freeze_capture_one\<close> on the member of its key.\<close>

definition captured_member ::
  "(u64 \<times> image_row) option \<Rightarrow> bool \<Rightarrow> dirty_member option \<Rightarrow> dirty_member option" where
  "captured_member captured retired member =
     (case member of
        None \<Rightarrow> None
      | Some m \<Rightarrow>
          if retired \<or> dm_retired m then Some m
          else case captured of
                 Some (revision, row) \<Rightarrow>
                   Some (m\<lparr>dm_revision := max (dm_revision m) revision, dm_final_image := Some (revision, row)\<rparr>)
               | None \<Rightarrow> if dm_final_image m = None then None else Some m)"

lemma freeze_capture_member:
  "member_of (freeze_capture_one snap (k, f, r) st) j =
     (if j = k then captured_member (snap k) r (member_of st k) else member_of st j)"
  by (auto simp: freeze_capture_one_def captured_member_def remove_def update_conv' delete_conv'
      split: option.split)

lemma fold_capture_other:
  "k \<notin> fst ` set ps \<Longrightarrow> member_of (fold (freeze_capture_one snap) ps st) k = member_of st k"
proof (induction ps arbitrary: st)
  case (Cons p ps)
  then show ?case by (cases p) (simp add: freeze_capture_member)
qed simp

lemma fold_capture_member:
  assumes "distinct (map fst ps)" "(k, f, r) \<in> set ps"
  shows "member_of (fold (freeze_capture_one snap) ps st) k = captured_member (snap k) r (member_of st k)"
  using assms
proof (induction ps arbitrary: st)
  case (Cons p ps)
  show ?case
  proof (cases "(k, f, r) = p")
    case True
    have "k \<notin> fst ` set ps" using Cons.prems(1) True [symmetric] by simp
    then show ?thesis unfolding True [symmetric] by (simp add: fold_capture_other freeze_capture_member)
  next
    case False
    with Cons.prems have m: "(k, f, r) \<in> set ps" and "fst p \<noteq> k" by (auto simp: rev_image_eqI)
    with Cons show ?thesis by (cases p) (simp add: freeze_capture_member)
  qed
qed simp

text \<open>What \<open>covered_by\<close> and the lease test look at is not changed by taking the images.\<close>

definition member_key_view :: "dirty_member \<Rightarrow> u64 option \<times> u64 option \<times> bool" where
  "member_key_view m = (dm_acknowledged m, dm_invalidated m, dm_in_flight m)"

lemma freeze_take_view:
  "freeze_take ps st = (ss, st') \<Longrightarrow>
     map_option member_key_view (member_of st' k) = map_option member_key_view (member_of st k)"
proof (induction ps st arbitrary: ss st' rule: freeze_take.induct)
  case (2 key f r ps st)
  show ?case
  proof (cases "member_of st key")
    case None
    with "2.prems" "2.IH"(1) show ?thesis by simp
  next
    case (Some m)
    have v: "map_option member_key_view (member_of (set_member key m' st) k) =
        map_option member_key_view (member_of st k)" if "member_key_view m' = member_key_view m" for m'
      using Some that by (simp add: update_conv')
    have "member_key_view (m\<lparr>dm_queued := False\<rparr>) = member_key_view m"
      "member_key_view (m\<lparr>dm_queued := False, dm_final_image := None\<rparr>) = member_key_view m"
      by (simp_all add: member_key_view_def)
    note v' = v [OF this(1)] v [OF this(2)]
    show ?thesis
      using "2.prems" "2.IH"(2) [OF Some] "2.IH"(3) [OF Some] Some v'
      by (auto split: option.splits prod.splits)
  qed
qed simp

lemma freeze_take_takes:
  assumes "freeze_take ps st = (ss, st')" "distinct (map fst ps)" "k \<in> fst ` set ps"
    "member_of st k = Some m" "dm_final_image m = Some (revision, row)"
  shows "(k, revision, row, dm_invalidated m) \<in> set ss"
  using assms
proof (induction ps st arbitrary: ss st' rule: freeze_take.induct)
  case (2 key f r ps st)
  show ?case
  proof (cases "key = k")
    case True
    with "2.prems" show ?thesis by (auto split: prod.splits)
  next
    case False
    then have k: "k \<in> fst ` set ps" "distinct (map fst ps)" using "2.prems" by auto
    show ?thesis
      using "2.prems" "2.IH" k False by (auto simp: update_conv' split: option.splits prod.splits)
  qed
qed simp

lemma frozen_epochs_loss:
  assumes "frozen_epochs ss = (images, recoveries)" "(k, revision, row, Some a) \<in> set ss"
    "ir_valid row" "a \<le> revision"
  shows "\<lparr>fz_key = k, fz_revision = a, fz_invalidated = Some a, fz_recovery_epoch = False,
      fz_row = invalidate_row row\<rparr> \<in> set images \<and>
    \<lparr>fz_key = k, fz_revision = revision, fz_invalidated = None, fz_recovery_epoch = True, fz_row = row\<rparr>
      \<in> set recoveries"
  using assms
  by (induction ss arbitrary: images recoveries rule: frozen_epochs.induct)
    (auto simp: Let_def split: prod.splits option.splits bool.splits if_splits)

section \<open>Closing and draining\<close>

definition none_leased :: "dirty_state \<Rightarrow> bool" where
  "none_leased st \<longleftrightarrow> (\<forall>k m. member_of st k = Some m \<longrightarrow> \<not> dm_in_flight m)"

lemma none_leased_capture: "none_leased st \<Longrightarrow> none_leased (freeze_capture_one snap p st)"
  by (cases p)
    (auto simp: none_leased_def freeze_capture_member captured_member_def split: if_splits option.splits prod.splits)

lemma fold_capture_keeps:
  assumes "none_leased st"
  shows "none_leased (fold (freeze_capture_one snap) ps st)"
    "frozen_view (fold (freeze_capture_one snap) ps st) = frozen_view st"
    "terminal_view (fold (freeze_capture_one snap) ps st) = terminal_view st"
  using assms by (induction ps arbitrary: st) (simp_all add: none_leased_capture)

lemma pending_keys:
  assumes "none_leased st" "distinct (ds_queue st)" "set (ds_queue st) \<subseteq> dom (member_of st)"
    "keys_distinct st"
  shows "map fst (freeze_pending st) = ds_queue st"
    "member_of st k = Some m \<Longrightarrow> k \<in> set (ds_queue st) \<Longrightarrow>
      (k, dm_feed m, dm_retired m) \<in> set (freeze_pending st)"
proof -
  have "filter (\<lambda>(_, m). dm_in_flight m \<and> \<not> dm_queued m) (ds_members st) = []"
    using assms(1,4) by (auto simp: none_leased_def filter_empty_conv)
  then have p: "freeze_pending st =
      List.map_filter (\<lambda>k. map_option (\<lambda>m. (k, dm_feed m, dm_retired m)) (member_of st k)) (ds_queue st)"
    by (simp add: freeze_pending_def)
  have "set q \<subseteq> dom (member_of st) \<Longrightarrow> map fst (List.map_filter
      (\<lambda>k. map_option (\<lambda>m. (k, dm_feed m, dm_retired m)) (member_of st k)) q) = q" for q
    by (induction q) (auto simp: List.map_filter_simps)
  with assms(3) show "map fst (freeze_pending st) = ds_queue st" by (simp add: p)
  show "member_of st k = Some m \<Longrightarrow> k \<in> set (ds_queue st) \<Longrightarrow>
      (k, dm_feed m, dm_retired m) \<in> set (freeze_pending st)"
    by (force simp: p List.map_filter_def)
qed

lemma prepare_close_frozen:
  assumes st: "live st" "clean_terminal st" "none_leased st" "keys_distinct st"
    "distinct (ds_queue st)" "set (ds_queue st) \<subseteq> dom (member_of st)"
  obtains ss images recoveries where
    "frozen_epochs ss = (images, recoveries)"
    "draining (prepare_close snap st)" "none_leased (prepare_close snap st)"
    "ds_frozen_images (prepare_close snap st) = images @ recoveries"
    "ds_frozen_queue (prepare_close snap st) = [0..<length (images @ recoveries)]"
    "\<And>k m revision row. member_of st k = Some m \<Longrightarrow> k \<in> set (ds_queue st) \<Longrightarrow> \<not> dm_retired m \<Longrightarrow>
       snap k = Some (revision, row) \<Longrightarrow>
       (k, revision, row, dm_invalidated m) \<in> set ss \<and>
       (\<exists>m'. member_of (prepare_close snap st) k = Some m' \<and> dm_invalidated m' = dm_invalidated m)"
proof -
  define ps where "ps = freeze_pending st"
  define st1 where "st1 = fold (freeze_capture_one snap) ps (st\<lparr>ds_freezing := True\<rparr>)"
  obtain ss st2 where take: "freeze_take ps st1 = (ss, st2)" by fastforce
  obtain images recoveries where ep: "frozen_epochs ss = (images, recoveries)" by fastforce
  define st4 where "st4 = freeze_publish (images @ recoveries) (st2\<lparr>ds_frozen := True, ds_queue := []\<rparr>)"
  have pc: "prepare_close snap st = st4"
    using st(1) take ep
    by (simp add: prepare_close_def live_def Let_def ps_def st1_def st4_def)
  have nl0: "none_leased (st\<lparr>ds_freezing := True\<rparr>)" using st(3) by (simp add: none_leased_def)
  note keep = fold_capture_keeps [OF nl0, of snap ps, folded st1_def]
  have keys: "distinct (map fst ps)" using pending_keys(1) [OF st(3,5,6,4)] st(5) by (simp add: ps_def)
  obtain ms where st2: "st2 = st1\<lparr>ds_members := ms\<rparr>" using freeze_take_only_members [OF take] by blast
  note view = freeze_take_view [OF take]
  have mem: "member_of st4 = member_of st2" by (simp add: st4_def freeze_publish_def)
  have flags: "\<not> ds_receiver_closed st2" "clean_terminal st2"
    using keep(2,3) st(1,2)
    by (simp_all add: st2 frozen_view_def terminal_view_def live_def clean_terminal_def)
  show thesis
  proof (rule that [OF ep, unfolded pc])
    show "draining st4" "ds_frozen_images st4 = images @ recoveries"
      "ds_frozen_queue st4 = [0..<length (images @ recoveries)]"
      using flags by (simp_all add: st4_def freeze_publish_def draining_def clean_terminal_def)
    show "none_leased st4"
      unfolding none_leased_def
    proof (intro allI impI)
      fix k m assume "member_of st4 k = Some m"
      with view [of k] obtain m1 where "member_of st1 k = Some m1" "dm_in_flight m = dm_in_flight m1"
        by (cases "member_of st1 k") (auto simp: mem member_key_view_def)
      with keep(1) show "\<not> dm_in_flight m" by (auto simp: none_leased_def)
    qed
    fix k m revision row
    assume m: "member_of st k = Some m" "k \<in> set (ds_queue st)" "\<not> dm_retired m" "snap k = Some (revision, row)"
    have "(k, dm_feed m, dm_retired m) \<in> set ps"
      unfolding ps_def by (rule pending_keys(2) [OF st(3,5,6,4) m(1,2)])
    from fold_capture_member [OF keys this, of snap "st\<lparr>ds_freezing := True\<rparr>"] m
    obtain m1 where m1: "member_of st1 k = Some m1" "dm_final_image m1 = Some (revision, row)"
      "dm_invalidated m1 = dm_invalidated m"
      by (auto simp: st1_def captured_member_def)
    have "k \<in> fst ` set ps" using pending_keys(1) [OF st(3,5,6,4)] m(2) by (metis list.set_map ps_def)
    from freeze_take_takes [OF take keys this m1(1,2)]
    have "(k, revision, row, dm_invalidated m) \<in> set ss" by (simp add: m1(3))
    moreover from view [of k] m1 obtain m' where "member_of st2 k = Some m'" "dm_invalidated m' = dm_invalidated m"
      by (cases "member_of st2 k") (auto simp: member_key_view_def)
    ultimately show "(k, revision, row, dm_invalidated m) \<in> set ss \<and>
        (\<exists>m'. member_of st4 k = Some m' \<and> dm_invalidated m' = dm_invalidated m)"
      by (simp add: mem)
  qed
qed

end
