(* ===== verification/State_Delivery_Props.thy ===== *)
theory State_Delivery_Props
  imports State_Delivery_Close
begin

text \<open>
  The properties of state delivery: no dirty topic is lost, batches follow the queue, losses
  of continuity reach the reader, the terminal error is reported once, and a drain gives each
  frozen image exactly once and losses before recoveries.
\<close>

section \<open>Live delivery\<close>

text \<open>C23: As long as the consumer is live, under every interleaving of registrations, updates,
  retirements, readers and receipts: a topic with an update or an invalidation that no
  committed receipt has acknowledged, and a retired topic, is in the queue, or in the reader's
  hands or an open receipt, and never in two of these places; no key is queued or held twice.\<close>

theorem dirty_topic_never_lost:
  assumes "delivery_reach w" "live (dw_state w)"
  shows "distinct (ds_queue (dw_state w) @ held w) \<and>
    (\<forall>k m. member_of (dw_state w) k = Some m \<and> (member_dirty m \<or> dm_retired m) \<longrightarrow>
       k \<in> set (ds_queue (dw_state w)) \<or> k \<in> set (held w))"
proof -
  have inv: "live_inv w" using delivery_invariants [OF assms(1)] by blast
  note t = live_invD(5) [OF inv assms(2)]
  have "set (ds_queue (dw_state w)) \<inter> set (held w) = {}"
    using table_invD(2,5) [OF t] by (fastforce simp: member_inv_def)
  then have "distinct (ds_queue (dw_state w) @ held w)"
    using table_invD(1) [OF t] live_invD(4) [OF inv assms(2)] by simp
  moreover have "k \<in> set (ds_queue (dw_state w)) \<or> k \<in> set (held w)"
    if "member_of (dw_state w) k = Some m" "member_dirty m \<or> dm_retired m" for k m
    using table_invD(5) [OF t that(1)] that(2) by (auto simp: member_inv_def)
  ultimately show ?thesis by blast
qed

text \<open>A run with one topic that is updated while a receipt for it is open.\<close>

definition world_updated_in_flight :: delivery_world where
  "world_updated_in_flight =
     (let w1 = delivery_init\<lparr>dw_state := register 1 0 5 ''A'' delivery_channel, dw_used := {1}\<rparr>;
          sel = \<lparr>se_key = 1, se_feed = 0, se_invalidated = None, se_final_image = None\<rparr>;
          w2 = select_leases (Live [sel]) (w1\<lparr>dw_state := snd (select 4 (dw_state w1))\<rparr>)
      in w2\<lparr>dw_state := mark 1 6 True (dw_state w2),
            dw_losses := dw_losses w2 @ mark_losses 1 6 True (dw_state w2)\<rparr>)"

lemma world_updated_in_flight_reach: "delivery_reach world_updated_in_flight"
proof -
  let ?w1 = "delivery_init\<lparr>dw_state := register 1 0 5 ''A'' delivery_channel, dw_used := {1}\<rparr>"
  have 1: "delivery_reach ?w1"
    using delivery_reach.step [OF delivery_reach.init dstep.register [of 1 delivery_init 0 5 "''A''"]]
    by (simp add: delivery_init_def)
  have s: "select 4 (dw_state ?w1) =
      (Live [\<lparr>se_key = 1, se_feed = 0, se_invalidated = None, se_final_image = None\<rparr>],
       snd (select 4 (dw_state ?w1)))"
    by (simp add: select_def register_def delivery_channel_def new_member_def)
  have 2: "delivery_reach (select_leases (Live [\<lparr>se_key = 1, se_feed = 0, se_invalidated = None,
      se_final_image = None\<rparr>]) (?w1\<lparr>dw_state := snd (select 4 (dw_state ?w1))\<rparr>))"
    by (rule delivery_reach.step [OF 1 dstep.select [OF _ s]]) (simp add: delivery_init_def)
  show ?thesis
    unfolding world_updated_in_flight_def Let_def
    by (rule delivery_reach.step [OF 2 dstep.mark [of _ 1 6 True]])
qed

lemma world_updated_in_flight_facts:
  "live (dw_state world_updated_in_flight)"
  "\<exists>m. member_of (dw_state world_updated_in_flight) 1 = Some m \<and> member_dirty m"
  "(1, 6) \<in> set (dw_losses world_updated_in_flight)"
  by (simp_all add: world_updated_in_flight_def Let_def delivery_init_def delivery_channel_def register_def
      new_member_def select_def select_leases_def mark_def mark_losses_def enqueue_member_def live_def member_dirty_def)

theorem dirty_topic_never_lost_witness:
  "1 \<in> set (ds_queue (dw_state world_updated_in_flight)) \<or> 1 \<in> set (held world_updated_in_flight)"
  using dirty_topic_never_lost [OF world_updated_in_flight_reach world_updated_in_flight_facts(1)]
    world_updated_in_flight_facts(2) by blast

lemma capture_one_some:
  assumes "snapshot \<noteq> None"
  obtains r row where "capture_one snapshot s st = (Some (r, row), st)" "rk_key r = se_key s"
proof -
  obtain c st' where c: "capture_one snapshot s st = (c, st')" by fastforce
  have "c \<noteq> None"
    using c assms by (auto simp: capture_one_def Let_def split: option.splits prod.splits bool.splits)
  with capture_one_cases [OF c] c that show thesis by (cases c) auto
qed

lemma capture_all_some:
  assumes "\<forall>k. snap k \<noteq> None"
  shows "\<exists>cs. capture_all snap ss st = (cs, st) \<and> map (rk_key \<circ> fst) cs = map se_key ss"
proof (induction ss)
  case (Cons s ss)
  obtain cs where cs: "capture_all snap ss st = (cs, st)" "map (rk_key \<circ> fst) cs = map se_key ss"
    using Cons.IH by blast
  have "snap (se_key s) \<noteq> None" using assms by blast
  then obtain r row where r: "capture_one (snap (se_key s)) s st = (Some (r, row), st)" "rk_key r = se_key s"
    by (rule capture_one_some)
  show ?case by (rule exI [of _ "(r, row) # cs"]) (simp add: cs r flip: cs(2))
qed simp

text \<open>C24: An idle reader of a live consumer with queued topics and readable images gets, at its
  next \<open>recv\<close>, a receipt for exactly the first topics of the queue, in order, up to its limit
  (at least one); the rest stays queued, and the receipt's result is what the rows convert to.\<close>

theorem recv_follows_the_queue:
  assumes "delivery_reach w" "live (dw_state w)" "reader_idle w"
    and "ds_queue (dw_state w) \<noteq> []" "\<forall>k. snap k \<noteq> None"
  shows "\<exists>r rows. recv materialize True snap limit (dw_state w) =
      (Ready (Some r), snd (select limit (dw_state w))) \<and>
    map rk_key (rp_keys r) = take (max limit 1) (ds_queue (dw_state w)) \<and>
    ds_queue (snd (select limit (dw_state w))) = drop (max limit 1) (ds_queue (dw_state w)) \<and>
    rp_result r = Some (materialize rows) \<and> length rows = length (rp_keys r) \<and>
    rp_frozen_ids r = [] \<and> \<not> rp_terminal r \<and> \<not> rp_finished r"
proof -
  let ?st = "dw_state w"
  have inv: "live_inv w" using delivery_invariants [OF assms(1)] by blast
  note t = live_invD(5) [OF inv assms(2)]
  obtain s ms q where sl: "select_live limit (ds_members ?st) [] (ds_queue ?st) = (s, ms, q)" by (metis prod_cases3)
  from select_live_prefix [OF t sl] have s: "map se_key s = take (max limit 1) (ds_queue ?st)"
    and q: "q = drop (max limit 1) (ds_queue ?st)" by auto
  obtain st where sel: "select limit ?st = (Live s, st)" and st: "ds_queue st = q"
    using sl assms(2) live_invD(2) [OF inv assms(2)] by (simp add: select_def live_def clean_terminal_def)
  from capture_all_some [OF assms(5), of s st] obtain cs where
    cs: "capture_all snap s st = (cs, st)" "map (rk_key \<circ> fst) cs = map se_key s" by blast
  have "s \<noteq> []" using s assms(4) by auto
  moreover have "cs \<noteq> []" using cs(2) \<open>s \<noteq> []\<close> by auto
  ultimately have "recv materialize True snap limit ?st =
      (Ready (Some (new_receipt (materialize (map snd cs)) (map fst cs) [] False)), st)"
    using sel cs(1) by (simp add: recv_def try_recv_def)
  with sel st s q cs(2) show ?thesis by (intro exI conjI) (auto simp: new_receipt_def)
qed

theorem recv_follows_the_queue_witness:
  "\<exists>r. recv Inr True (\<lambda>_. Some (5, \<lparr>ir_label = ''A'', ir_last_update = None, ir_live = True,
      ir_delayed = None, ir_valid = True, ir_layout = 0, ir_projected = None\<rparr>)) 1
      (register 1 0 5 ''A'' delivery_channel) =
    (Ready (Some r), snd (select 1 (register 1 0 5 ''A'' delivery_channel))) \<and> map rk_key (rp_keys r) = [1]"
proof -
  let ?w = "delivery_init\<lparr>dw_state := register 1 0 5 ''A'' delivery_channel, dw_used := {1}\<rparr>"
  let ?row = "\<lparr>ir_label = ''A'', ir_last_update = None, ir_live = True, ir_delayed = None, ir_valid = True,
    ir_layout = 0, ir_projected = None\<rparr>"
  have w: "delivery_reach ?w"
    using delivery_reach.step [OF delivery_reach.init dstep.register [of 1 delivery_init 0 5 "''A''"]]
    by (simp add: delivery_init_def)
  have l: "live (dw_state ?w)" "reader_idle ?w" "ds_queue (dw_state ?w) = [1]"
    by (simp_all add: delivery_init_def) (simp_all add: live_def delivery_channel_def register_def)
  show ?thesis
    using recv_follows_the_queue [OF w l(1,2), of "\<lambda>_. Some (5, ?row)" Inr 1] l(3) by auto
qed

section \<open>Losses of continuity\<close>

text \<open>C25: Every invalidation recorded for a topic of a live consumer is either still pending on
  the member, or was published: a committed receipt holds a row for the topic that is marked
  invalid and carries exactly that invalidation. Only detaching or retiring the topic drops
  it. A valid row never clears an invalidation.\<close>

theorem loss_is_published:
  assumes "delivery_reach w" "live (dw_state w)" "(k, a) \<in> set (dw_losses w)"
    "member_of (dw_state w) k = Some m" "\<not> dm_retired m"
  shows "dm_invalidated m = Some a \<or>
    (\<exists>(r, row) \<in> set (dw_committed w). rk_key r = k \<and> rk_invalidated r = Some a \<and> \<not> ir_valid row)"
proof -
  have "loss_inv w" "rows_inv w" using delivery_invariants [OF assms(1)] by blast+
  then have s: "loss_safe (member_of (dw_state w)) (dw_committed w) (k, a)"
    and r: "\<forall>c \<in> set (dw_committed w). row_ok c"
    using assms(2,3) by (auto simp: loss_inv_def rows_inv_def)
  show ?thesis
  proof (cases "dm_invalidated m = Some a")
    case False
    with s assms(4,5) obtain c where "c \<in> set (dw_committed w)" "rk_key (fst c) = k" "rk_invalidated (fst c) = Some a"
      by (auto simp: loss_safe_def)
    with r show ?thesis by (intro disjI2 bexI [of _ c]) (auto simp: row_ok_def)
  qed simp
qed

theorem loss_is_published_witness:
  "\<exists>m. member_of (dw_state world_updated_in_flight) 1 = Some m \<and>
    (dm_invalidated m = Some 6 \<or>
     (\<exists>(r, row) \<in> set (dw_committed world_updated_in_flight). rk_key r = 1 \<and> rk_invalidated r = Some 6 \<and>
        \<not> ir_valid row))"
proof -
  have "\<exists>m. member_of (dw_state world_updated_in_flight) 1 = Some m \<and> \<not> dm_retired m"
    by (simp add: world_updated_in_flight_def Let_def delivery_init_def delivery_channel_def register_def
        new_member_def select_def select_leases_def mark_def enqueue_member_def)
  then show ?thesis
    using loss_is_published [OF world_updated_in_flight_reach world_updated_in_flight_facts(1,3)] by blast
qed

section \<open>The terminal error\<close>

text \<open>C26: The first failure of the stream is reported at most once, and nothing else is ever
  reported: at any time it waits in the table, or is leased by exactly one receipt, or was
  committed exactly once; a dropped receipt puts it back, and only closing the receiver can
  discard it.\<close>

theorem terminal_error_exactly_once:
  assumes "delivery_reach w"
  shows "length (dw_reported w) \<le> 1 \<and> set (dw_reported w) \<subseteq> set_option (dw_failure w) \<and>
    (\<forall>e. dw_failure w = Some e \<and> \<not> ds_receiver_closed (dw_state w) \<longrightarrow>
       (ds_terminal (dw_state w) = Some e \<and> dw_terminal_leases w = [] \<and> dw_reported w = []) \<or>
       (ds_terminal (dw_state w) = None \<and> dw_terminal_leases w = [e] \<and> dw_reported w = []) \<or>
       (ds_terminal (dw_state w) = None \<and> dw_terminal_leases w = [] \<and> dw_reported w = [e]))"
proof -
  have "terminal_inv w" using delivery_invariants [OF assms] by blast
  then show ?thesis by (auto simp: terminal_inv_def terminal_ok_def terminal_view_def)
qed

text \<open>The stream fails, the error is leased, the receipt is dropped and the error leased again.\<close>

lemma world_terminal_reach:
  assumes "delivery_reach w" "reader_idle w" "terminal_view (dw_state w) = (Some e, False, False, False)"
    "\<not> ds_freezing (dw_state w)"
  shows "delivery_reach (w\<lparr>dw_state := (dw_state w)\<lparr>ds_terminal := None, ds_terminal_in_flight := True\<rparr>,
    dw_terminal_leases := e # dw_terminal_leases w\<rparr>)"
proof -
  have "select 1 (dw_state w) = (SelectedTerminal e,
      (dw_state w)\<lparr>ds_terminal := None, ds_terminal_in_flight := True\<rparr>)"
    using assms by (simp add: select_def terminal_view_def)
  from delivery_reach.step [OF assms(1) dstep.select [OF assms(2) this]] show ?thesis
    by (simp add: select_leases_def)
qed

lemma world_failed_reach:
  "delivery_reach (delivery_init\<lparr>dw_state := fail e delivery_channel, dw_failure := Some e\<rparr>)"
  using delivery_reach.step [OF delivery_reach.init dstep.fail [of delivery_init e]]
  by (simp add: delivery_init_def delivery_channel_def)

theorem terminal_error_exactly_once_witness:
  "\<exists>w e. delivery_reach w \<and> dw_failure w = Some e \<and> \<not> ds_receiver_closed (dw_state w) \<and>
    ds_terminal (dw_state w) = None \<and> dw_terminal_leases w = [e] \<and> dw_reported w = []"
proof -
  let ?e = "Internal ''gone''"
  let ?w = "delivery_init\<lparr>dw_state := fail ?e delivery_channel, dw_failure := Some ?e\<rparr>"
  let ?w' = "?w\<lparr>dw_state := (dw_state ?w)\<lparr>ds_terminal := None, ds_terminal_in_flight := True\<rparr>,
    dw_terminal_leases := ?e # dw_terminal_leases ?w\<rparr>"
  have r: "delivery_reach ?w'"
    by (rule world_terminal_reach [OF world_failed_reach])
      (simp_all add: delivery_init_def delivery_channel_def fail_def terminal_view_def)
  have "dw_failure ?w' = Some ?e" "\<not> ds_receiver_closed (dw_state ?w')" "dw_terminal_leases ?w' \<noteq> []"
    by (simp_all add: fail_def delivery_channel_def)
  then have "ds_terminal (dw_state ?w') = None \<and> dw_terminal_leases ?w' = [?e] \<and> dw_reported ?w' = []"
    using terminal_error_exactly_once [OF r] by blast
  with r \<open>dw_failure ?w' = Some ?e\<close> \<open>\<not> ds_receiver_closed (dw_state ?w')\<close> show ?thesis by blast
qed

section \<open>The frozen drain\<close>

text \<open>C27: During a drain every frozen image is in exactly one place: still queued, in one open
  receipt, or in the committed receipts, unless a live receipt committed meanwhile already
  covers it. The queue stays in the order of the epochs, whatever receipts are dropped.\<close>

theorem frozen_images_exactly_once:
  assumes "delivery_reach w" "draining (dw_state w)"
  shows "sorted (ds_frozen_queue (dw_state w)) \<and>
    distinct (ds_frozen_queue (dw_state w) @ concat (dw_frozen_leases w) @ dw_frozen_done w) \<and>
    set (ds_frozen_queue (dw_state w) @ concat (dw_frozen_leases w) @ dw_frozen_done w)
      \<subseteq> {..<length (ds_frozen_images (dw_state w))} \<and>
    (\<forall>i < length (ds_frozen_images (dw_state w)).
       i \<in> set (ds_frozen_queue (dw_state w) @ concat (dw_frozen_leases w) @ dw_frozen_done w) \<or>
       image_covered (dw_state w) i)"
proof -
  have inv: "frozen_inv w" using delivery_invariants [OF assms(1)] by blast
  have "\<not> ds_receiver_closed (dw_state w)" using assms(2) by (simp add: draining_def)
  then show ?thesis
    using frozen_invD(3,4) [OF inv] frozen_invD(5) [OF inv] frozen_invD(6) [OF inv assms(2)] by blast
qed

text \<open>A consumer with one topic whose continuity was lost, frozen while nothing is leased.\<close>

definition lossy_state :: dirty_state where
  "lossy_state = mark 1 6 True (register 1 0 5 ''A'' delivery_channel)"

definition lossy_row :: image_row where
  "lossy_row = \<lparr>ir_label = ''A'', ir_last_update = None, ir_live = True, ir_delayed = None, ir_valid = True,
     ir_layout = 0, ir_projected = None\<rparr>"

lemma lossy_reach:
  "delivery_reach (delivery_init\<lparr>dw_state := lossy_state, dw_used := {1}, dw_losses := [(1, 6)]\<rparr>)"
proof -
  have 1: "delivery_reach (delivery_init\<lparr>dw_state := register 1 0 5 ''A'' delivery_channel, dw_used := {1}\<rparr>)"
    using delivery_reach.step [OF delivery_reach.init dstep.register [of 1 delivery_init 0 5 "''A''"]]
    by (simp add: delivery_init_def)
  show ?thesis
    using delivery_reach.step [OF 1 dstep.mark [of _ 1 6 True]]
    by (simp add: lossy_state_def delivery_init_def mark_losses_def register_def delivery_channel_def new_member_def)
qed

lemma lossy_facts:
  "live lossy_state" "ds_queue lossy_state = [1]"
  "\<exists>m. member_of lossy_state 1 = Some m \<and> \<not> dm_retired m \<and> dm_invalidated m = Some 6"
  by (simp_all add: lossy_state_def live_def mark_def register_def delivery_channel_def new_member_def
      enqueue_member_def)

lemma frozen_reach:
  assumes w: "delivery_reach w" "reader_idle w" and l: "live (dw_state w)"
  shows "delivery_reach (w\<lparr>dw_state := prepare_close snap (dw_state w)\<rparr>)"
proof -
  let ?st = "dw_state w" and ?ps = "freeze_pending (dw_state w)"
  let ?st1 = "fold (freeze_capture_one snap) ?ps (?st\<lparr>ds_freezing := True\<rparr>)"
  have "delivery_reach (w\<lparr>dw_state := ?st\<lparr>ds_freezing := True\<rparr>, dw_freeze := Capturing ?ps ?ps\<rparr>)"
    by (rule delivery_reach.step [OF w(1) dstep.freeze_begin [OF w(2)]]) (use l in \<open>simp add: live_def\<close>)
  moreover have "delivery_reach (w\<lparr>dw_state := st, dw_freeze := Capturing ps qs\<rparr>) \<Longrightarrow>
      delivery_reach (w\<lparr>dw_state := fold (freeze_capture_one snap) qs st, dw_freeze := Capturing ps []\<rparr>)"
    for st ps qs
  proof (induction qs arbitrary: st)
    case (Cons p qs)
    from delivery_reach.step [OF Cons.prems dstep.freeze_capture [where snap = snap]] show ?case
      using Cons.IH by simp
  qed simp
  ultimately have 1: "delivery_reach (w\<lparr>dw_state := ?st1, dw_freeze := Capturing ?ps []\<rparr>)" by blast
  obtain ss st2 where t: "freeze_take ?ps ?st1 = (ss, st2)" by fastforce
  obtain images recoveries where e: "frozen_epochs ss = (images, recoveries)" by fastforce
  have 2: "delivery_reach (w\<lparr>dw_state := st2\<lparr>ds_frozen := True, ds_queue := []\<rparr>, dw_freeze := Building ss\<rparr>)"
    using delivery_reach.step [OF 1 dstep.freeze_take [of _ ?ps ss st2]] t by simp
  have "delivery_reach (w\<lparr>dw_state := freeze_publish (images @ recoveries) (st2\<lparr>ds_frozen := True, ds_queue := []\<rparr>),
      dw_freeze := NotFreezing\<rparr>)"
    using delivery_reach.step [OF 2 dstep.freeze_publish [of _ ss images recoveries]] e by simp
  moreover have "prepare_close snap ?st =
      freeze_publish (images @ recoveries) (st2\<lparr>ds_frozen := True, ds_queue := []\<rparr>)"
    using l t e by (simp add: prepare_close_def live_def Let_def)
  moreover have "w\<lparr>dw_state := x, dw_freeze := NotFreezing\<rparr> = w\<lparr>dw_state := x\<rparr>" for x
    using w(2) by (cases w) simp
  ultimately show ?thesis by simp
qed

lemma idle_table:
  assumes "delivery_reach w" "live (dw_state w)" "held w = []"
  shows "none_leased (dw_state w)" "clean_terminal (dw_state w)" "keys_distinct (dw_state w)"
    "distinct (ds_queue (dw_state w))" "set (ds_queue (dw_state w)) \<subseteq> dom (member_of (dw_state w))"
proof -
  have inv: "live_inv w" using delivery_invariants [OF assms(1)] by blast
  note t = live_invD(5) [OF inv assms(2)]
  show "none_leased (dw_state w)"
    using table_invD(5) [OF t] assms(3) by (auto simp: none_leased_def member_inv_def)
  show "clean_terminal (dw_state w)" "keys_distinct (dw_state w)"
    using live_invD(1,2) [OF inv] assms(2) by auto
  show "distinct (ds_queue (dw_state w))" "set (ds_queue (dw_state w)) \<subseteq> dom (member_of (dw_state w))"
    using table_invD(1,2) [OF t] by auto
qed

theorem frozen_images_exactly_once_witness:
  "\<exists>w. delivery_reach w \<and> draining (dw_state w) \<and>
    distinct (ds_frozen_queue (dw_state w) @ concat (dw_frozen_leases w) @ dw_frozen_done w) \<and>
    ds_frozen_images (dw_state w) \<noteq> []"
proof -
  let ?v = "delivery_init\<lparr>dw_state := lossy_state, dw_used := {1}, dw_losses := [(1, 6)]\<rparr>"
  let ?snap = "\<lambda>k :: slab_key. Some (6 :: u64, lossy_row)"
  let ?w = "?v\<lparr>dw_state := prepare_close ?snap (dw_state ?v)\<rparr>"
  have idle: "reader_idle ?v" "held ?v = []" "live (dw_state ?v)"
    using lossy_facts(1) by (simp_all add: delivery_init_def held_def)
  have r: "delivery_reach ?w" using frozen_reach [OF lossy_reach idle(1,3), of ?snap] by simp
  note t = idle_table [OF lossy_reach idle(3,2)]
  obtain ss images recoveries where c: "frozen_epochs ss = (images, recoveries)"
    "draining (prepare_close ?snap lossy_state)"
    "ds_frozen_images (prepare_close ?snap lossy_state) = images @ recoveries"
    "\<And>m. member_of lossy_state 1 = Some m \<Longrightarrow> \<not> dm_retired m \<Longrightarrow> (1, 6, lossy_row, dm_invalidated m) \<in> set ss"
    by (rule prepare_close_frozen [where snap = ?snap and st = lossy_state])
      (use t lossy_facts in \<open>auto\<close>)
  then have "images \<noteq> []"
    using lossy_facts(3) frozen_epochs_loss [OF c(1), of 1 6 lossy_row 6] by (auto simp: lossy_row_def)
  then show ?thesis
    using frozen_images_exactly_once [OF r] c(2,3) r by (intro exI [of _ ?w]) simp
qed

lemma upt_split: "l \<le> i \<Longrightarrow> i < n \<Longrightarrow> [l..<n] = [l..<i] @ i # [Suc i..<n]"
  using upt_add_eq_append [of l i "n - i"] by (simp add: upt_conv_Cons)



end
