(* ===== verification/Presentation.thy ===== *)
theory Presentation
  imports Errors
begin

text \<open>
  Error texts and their classification for the host adapters: the \<open>Display\<close>
  implementations of the two error enums and of \<open>CorrelationContext\<close> (xbbg-core/errors.rs),
  and error_presentation.rs. The one character of these texts outside Latin-1, the dash in
  the message for a dead pool, is written as its UTF-8 bytes.
\<close>

section \<open>Display\<close>

fun correlation_context_display :: "correlation_context \<Rightarrow> string" where
  "correlation_context_display (U64 v) = show_nat (unat v)"
| "correlation_context_display (Tag s) = s"

definition validation_error_display :: "validation_error \<Rightarrow> string" where
  "validation_error_display e = ve_path e @ '': '' @ ve_message e"

fun blp_error_to_string :: "blp_error \<Rightarrow> string" where
  "blp_error_to_string (SessionStart _ _) = ''session start failed''"
| "blp_error_to_string (OpenService _ _ _) = ''open service failed''"
| "blp_error_to_string (RequestFailure _ _ _ _ _ _ _) = ''request failed''"
| "blp_error_to_string (InvalidArgument _) = ''invalid argument''"
| "blp_error_to_string Timeout = ''operation timed out''"
| "blp_error_to_string (RequestTimeout _ _) = ''operation timed out''"
| "blp_error_to_string (TemplateTerminated _) = ''request template terminated''"
| "blp_error_to_string (SubscriptionFailure _ _) = ''subscription failure''"
| "blp_error_to_string (SubscriptionDataLoss topic detail) =
     ''subscription data loss for '' @ topic @ '': '' @ detail"
| "blp_error_to_string (Internal detail) = ''internal error: '' @ detail"
| "blp_error_to_string (SchemaOperationNotFound service operation) =
     ''operation not found: '' @ service @ ''::'' @ operation"
| "blp_error_to_string (SchemaElementNotFound parent name) =
     ''schema element not found: '' @ parent @ ''.'' @ name"
| "blp_error_to_string (SchemaTypeMismatch element expected found) =
     ''schema type mismatch at '' @ element @ '': expected '' @ expected @ '', found '' @ found"
| "blp_error_to_string (SchemaUnsupported element detail) =
     ''unsupported schema construct at '' @ element @ '': '' @ detail"
| "blp_error_to_string (Validation message _) = ''validation error: '' @ message"

text \<open>\<open>if let Some(x) = field { write!(..) }\<close>\<close>

definition opt_text :: "string \<Rightarrow> string option \<Rightarrow> string \<Rightarrow> string" where
  "opt_text before field after =
     (case field of None \<Rightarrow> [] | Some x \<Rightarrow> before @ x @ after)"

fun blp_error_display :: "blp_error \<Rightarrow> string" where
  "blp_error_display (RequestFailure service operation cid label request_id _ source) =
     ''Request failed on '' @ service @ opt_text ''::'' operation []
     @ opt_text '' (cid='' (map_option correlation_context_display cid) '')''
     @ opt_text '' [request_id='' request_id '']''
     @ opt_text '' - '' label [] @ opt_text '': '' source []"
| "blp_error_display e = blp_error_to_string e"

section \<open>Presentation\<close>

datatype error_kind =
  SessionKind | RequestKind | LimitKind | DataLossKind | ValidationKind | TimeoutKind | InternalKind

datatype error_style = Python | JavaScript

record subscription_data_loss_context =
  dl_topic :: string
  dl_detail :: string

record request_error_context =
  rc_service :: "string option"
  rc_operation :: "string option"
  rc_request_id :: "string option"
  rc_bloomberg_request_ids :: "string list"

record error_presentation =
  ep_kind :: error_kind
  ep_message :: string
  ep_data_loss :: "subscription_data_loss_context option"
  ep_request_context :: "request_error_context option"

definition request_failure_is_limit :: "string option \<Rightarrow> bool" where
  "request_failure_is_limit label =
     (case label of
        None \<Rightarrow> False
      | Some l \<Rightarrow> str_contains l ''category=LIMIT'' \<or> str_contains l ''DAILY_CAPACITY_REACHED'')"

definition append_error_msg :: "string \<Rightarrow> string \<Rightarrow> string option \<Rightarrow> string option \<Rightarrow> string" where
  "append_error_msg message base label source =
     (let start = length message;
          m1 = message @ base;
          m2 = (case label of
                  None \<Rightarrow> m1
                | Some l \<Rightarrow> (if start < length m1 then m1 @ '': '' else m1) @ l);
          m3 = (case source of
                  None \<Rightarrow> m2
                | Some t \<Rightarrow> (if start < length m2 then m2 @ '' - '' else m2) @ t)
      in if length m3 = start then m3 @ ''Unknown error'' else m3)"

definition format_error_msg :: "string \<Rightarrow> string option \<Rightarrow> string option \<Rightarrow> string" where
  "format_error_msg base label source = append_error_msg [] base label source"

definition validation_entry :: "nat \<Rightarrow> validation_error \<Rightarrow> string" where
  "validation_entry index e =
     (if index = 0 then '': '' else ''; '') @ validation_error_display e
     @ opt_text '' (did you mean '' (map_option (\<lambda>s. CHR 0x27 # s @ [CHR 0x27]) (ve_suggestion e)) ''?)''"

fun append_validation_errors :: "string \<Rightarrow> nat \<Rightarrow> validation_error list \<Rightarrow> string" where
  "append_validation_errors message _ [] = message"
| "append_validation_errors message index (e # es) =
     append_validation_errors (message @ validation_entry index e) (Suc index) es"

abbreviation presentation :: "error_kind \<Rightarrow> string \<Rightarrow> error_presentation" where
  "presentation kind message \<equiv>
     \<lparr>ep_kind = kind, ep_message = message, ep_data_loss = None, ep_request_context = None\<rparr>"

abbreviation quoted :: "string \<Rightarrow> string" where
  "quoted s \<equiv> CHR 0x27 # s @ [CHR 0x27]"

fun from_blp :: "blp_error \<Rightarrow> error_style \<Rightarrow> error_presentation" where
  "from_blp (SessionStart source label) style =
     presentation SessionKind (format_error_msg ''Session start failed'' label source)"
| "from_blp (OpenService service source label) style =
     presentation SessionKind
       (append_error_msg (''Failed to open service '' @ quoted service @ '': '') [] label source)"
| "from_blp (RequestFailure service operation cid label request_id ids source) style =
     \<lparr>ep_kind = (if request_failure_is_limit label then LimitKind else RequestKind),
      ep_message = blp_error_display (RequestFailure service operation cid label request_id ids source),
      ep_data_loss = None,
      ep_request_context = Some \<lparr>rc_service = Some service, rc_operation = operation,
        rc_request_id = request_id, rc_bloomberg_request_ids = ids\<rparr>\<rparr>"
| "from_blp (InvalidArgument detail) style =
     presentation ValidationKind (''Invalid argument: '' @ detail)"
| "from_blp Timeout style = presentation TimeoutKind ''Request timed out''"
| "from_blp (RequestTimeout request_id ids) style =
     \<lparr>ep_kind = TimeoutKind,
      ep_message = ''Request timed out'' @ opt_text '' [request_id='' request_id '']'',
      ep_data_loss = None,
      ep_request_context = Some \<lparr>rc_service = None, rc_operation = None,
        rc_request_id = request_id, rc_bloomberg_request_ids = ids\<rparr>\<rparr>"
| "from_blp (TemplateTerminated cid) style =
     presentation RequestKind
       (''Request template terminated''
        @ opt_text '' (cid='' (map_option correlation_context_display cid) '')'')"
| "from_blp (SubscriptionFailure cid label) style =
     presentation RequestKind
       (''Subscription failed''
        @ opt_text '' (cid='' (map_option correlation_context_display cid) '')''
        @ opt_text '': '' label [])"
| "from_blp (SubscriptionDataLoss topic detail) style =
     \<lparr>ep_kind = DataLossKind,
      ep_message = (case style of
          Python \<Rightarrow> ''Subscription data loss for '' @ quoted topic @ '': '' @ detail
        | JavaScript \<Rightarrow> ''Subscription data loss [topic='' @ topic @ '']: '' @ detail),
      ep_data_loss = Some \<lparr>dl_topic = topic, dl_detail = detail\<rparr>,
      ep_request_context = None\<rparr>"
| "from_blp (Internal detail) style = presentation InternalKind (''Internal error: '' @ detail)"
| "from_blp (SchemaOperationNotFound service operation) style =
     presentation ValidationKind (''Operation not found: '' @ service @ ''::'' @ operation)"
| "from_blp (SchemaElementNotFound parent name) style =
     presentation ValidationKind (''Schema element not found: '' @ parent @ ''.'' @ name)"
| "from_blp (SchemaTypeMismatch element expected found) style =
     presentation ValidationKind
       (case style of
          Python \<Rightarrow> ''Schema type mismatch at '' @ element @ '': expected '' @ debug_str expected
                     @ '', found '' @ debug_str found
        | JavaScript \<Rightarrow> ''Schema type mismatch at '' @ element @ '': expected '' @ expected
                     @ '', found '' @ found)"
| "from_blp (SchemaUnsupported element detail) style =
     presentation ValidationKind (''Unsupported schema construct at '' @ element @ '': '' @ detail)"
| "from_blp (Validation message errors) style =
     presentation ValidationKind (append_validation_errors message 0 errors)"

definition em_dash :: string where
  "em_dash = [CHR 0xE2, CHR 0x80, CHR 0x94]"

fun from_async :: "blp_async_error \<Rightarrow> error_style \<Rightarrow> error_presentation" where
  "from_async (Blp e) style = from_blp e style"
| "from_async (AsyncInternal message) style = presentation InternalKind message"
| "from_async (ConfigError detail) style =
     presentation ValidationKind (''Configuration error: '' @ detail)"
| "from_async ChannelClosed style = presentation InternalKind ''Channel closed unexpectedly''"
| "from_async (AllWorkersDown pool_size) style =
     presentation SessionKind
       (case style of
          Python \<Rightarrow> ''all '' @ show_nat pool_size @ '' request workers are dead '' @ em_dash
                     @ '' no healthy worker available''
        | JavaScript \<Rightarrow> ''All '' @ show_nat pool_size @ '' request workers are down'')"

section \<open>Lemmas\<close>

lemma append_error_msg_prefix:
  "\<exists>suffix. suffix \<noteq> [] \<and> append_error_msg message base label source = message @ suffix"
  by (auto simp: append_error_msg_def Let_def split: option.splits)

lemma from_blp_kind_style: "ep_kind (from_blp e st) = ep_kind (from_blp e st')"
  by (cases e) simp_all

lemma from_blp_context:
  "map_option rc_bloomberg_request_ids (ep_request_context (from_blp e st)) =
     (if is_request_error e then Some (bloomberg_request_ids e) else None)"
  by (cases e) simp_all

lemma from_blp_extend:
  "from_blp (extend_bloomberg_request_ids e ids) st =
     (from_blp e st)\<lparr>ep_request_context :=
        map_option (\<lambda>c. c\<lparr>rc_bloomberg_request_ids := union_ids (rc_bloomberg_request_ids c) ids\<rparr>)
          (ep_request_context (from_blp e st))\<rparr>"
  by (cases e) simp_all

lemma from_blp_data_loss:
  "ep_data_loss (from_blp e st) \<noteq> None \<longleftrightarrow> ep_kind (from_blp e st) = DataLossKind"
  by (cases e) simp_all



end
