(* ===== verification/Dispatch.thy ===== *)
theory Dispatch
  imports Xbbg_Prelude
begin

text \<open>
  Correlation identifiers (engine/dispatch.rs and xbbg-core/correlation.rs): the 64-bit
  dispatch keys the workers hand to the SDK, their decoding, and the identifier spaces
  reserved for service opens and identity requests. An \<open>i64\<close> is a 64-bit word read through
  \<open>sint\<close>; the failing \<open>expect\<close>s are \<open>None\<close>.
\<close>

unbundle bit_operations_syntax

section \<open>Data\<close>

datatype correlation_id = Unset | IntId i64 | PtrId u64

type_synonym dispatch_key = i64

section \<open>Constants\<close>

definition SERVICE_OPEN_CID_TAG :: i64 where
  "SERVICE_OPEN_CID_TAG = push_bit 62 1"

definition IDENTITY_CID :: i64 where
  "IDENTITY_CID = push_bit 61 1"

definition IDENTITY_TOKEN_CID :: i64 where
  "IDENTITY_TOKEN_CID = push_bit 60 3"

definition SLOT_BITS :: nat where
  "SLOT_BITS = 32"

definition SLOT_MASK :: i64 where
  "SLOT_MASK = push_bit SLOT_BITS 1 - 1"

definition GENERATION_MASK :: i64 where
  "GENERATION_MASK = push_bit 30 1 - 1"

section \<open>Operations\<close>

text \<open>\<open>u32::try_from(slab_key)\<close> and \<open>checked_add(1)\<close>.\<close>

definition slot_of_slab_key :: "slab_key \<Rightarrow> u32 option" where
  "slot_of_slab_key k = (if k < 2 ^ 32 \<and> k + 1 < 2 ^ 32 then Some (of_nat (k + 1)) else None)"

definition with_generation :: "slab_key \<Rightarrow> u32 \<Rightarrow> dispatch_key option" where
  "with_generation k generation =
     (case slot_of_slab_key k of
        None \<Rightarrow> None
      | Some slot \<Rightarrow>
          Some (push_bit SLOT_BITS (ucast generation AND GENERATION_MASK) OR ucast slot))"

definition from_slab_key :: "slab_key \<Rightarrow> dispatch_key option" where
  "from_slab_key k = with_generation k 0"

fun from_correlation_id :: "correlation_id \<Rightarrow> dispatch_key option" where
  "from_correlation_id (IntId v) =
     (if 0 < sint v \<and> v AND SERVICE_OPEN_CID_TAG = 0 \<and> v AND SLOT_MASK \<noteq> 0 then Some v else None)"
| "from_correlation_id _ = None"

definition to_slab_key :: "dispatch_key \<Rightarrow> slab_key option" where
  "to_slab_key d =
     (let slot = sint ((d AND SLOT_MASK) - 1) in if 0 \<le> slot then Some (nat slot) else None)"

definition generation_of :: "dispatch_key \<Rightarrow> u32" where
  "generation_of d = ucast (signed_drop_bit SLOT_BITS d AND GENERATION_MASK)"

definition to_correlation_id :: "dispatch_key \<Rightarrow> correlation_id" where
  "to_correlation_id d = IntId d"

text \<open>The identifier of the \<open>n\<close>-th service open (\<open>PendingServiceOpens::register\<close>).\<close>

definition service_open_cid :: "i64 \<Rightarrow> i64" where
  "service_open_cid next_id = SERVICE_OPEN_CID_TAG OR (next_id AND (SERVICE_OPEN_CID_TAG - 1))"

section \<open>Masks and bits\<close>

lemma SLOT_MASK_mask: "SLOT_MASK = mask 32"
  by (simp add: SLOT_MASK_def SLOT_BITS_def mask_eq_exp_minus_1 push_bit_of_1)

lemma GENERATION_MASK_mask: "GENERATION_MASK = mask 30"
  by (simp add: GENERATION_MASK_def mask_eq_exp_minus_1 push_bit_of_1)

lemma SERVICE_TAG_minus_1: "SERVICE_OPEN_CID_TAG - 1 = mask 62"
  by (simp add: SERVICE_OPEN_CID_TAG_def mask_eq_exp_minus_1 push_bit_of_1)

lemma bit_SERVICE_TAG [simp]: "bit SERVICE_OPEN_CID_TAG n \<longleftrightarrow> n = 62"
  unfolding SERVICE_OPEN_CID_TAG_def
  by (simp only: bit_push_bit_iff possible_bit_word bit_1_iff) auto

lemma bit_SLOT_MASK [simp]: "bit SLOT_MASK n \<longleftrightarrow> n < 32"
  by (auto simp: SLOT_MASK_mask bit_simps)

lemma bit_GENERATION_MASK [simp]: "bit GENERATION_MASK n \<longleftrightarrow> n < 30"
  by (auto simp: GENERATION_MASK_mask bit_simps)

lemma SERVICE_TAG_and_eq_0: "v AND SERVICE_OPEN_CID_TAG = 0 \<longleftrightarrow> \<not> bit v 62"
  for v :: i64
proof
  assume "v AND SERVICE_OPEN_CID_TAG = 0"
  then have "\<not> bit (v AND SERVICE_OPEN_CID_TAG) 62" by simp
  then show "\<not> bit v 62" by (simp add: bit_and_iff)
next
  assume "\<not> bit v 62"
  then show "v AND SERVICE_OPEN_CID_TAG = 0"
    by (intro bit_word_eqI) (auto simp: bit_and_iff)
qed

lemma sint_neg_iff: "sint v < 0 \<longleftrightarrow> bit v 63" for v :: i64
  using bit_last_iff [of v] by simp

lemma sint_pos_iff: "0 < sint v \<longleftrightarrow> v \<noteq> 0 \<and> \<not> bit v 63" for v :: i64
proof -
  have "sint v = 0 \<longleftrightarrow> v = 0" by (metis signed_0 signed_word_eqI)
  then show ?thesis using sint_neg_iff [of v] by (cases "sint v" "0::int" rule: linorder_cases) auto
qed

lemma bit_service_open_cid:
  "bit (service_open_cid i) n \<longleftrightarrow> n = 62 \<or> n < 62 \<and> bit i n"
  by (auto simp: service_open_cid_def SERVICE_TAG_minus_1 bit_or_iff bit_and_iff bit_simps)

lemma slot_of_slab_key_Some_iff:
  "slot_of_slab_key k = Some s \<longleftrightarrow> k + 1 < 2 ^ 32 \<and> s = of_nat (k + 1)"
  by (auto simp: slot_of_slab_key_def)

lemma unat_slot: "k + 1 < 2 ^ 32 \<Longrightarrow> unat (of_nat (k + 1) :: u32) = k + 1"
  by (rule of_nat_inverse [OF refl]) simp

lemma ucast_slot_bit:
  "bit (ucast (s :: u32) :: i64) n \<longleftrightarrow> n < 32 \<and> bit s n"
  by (auto simp: bit_simps dest: bit_imp_le_length)

section \<open>The encoded value, bit by bit\<close>

lemma with_generation_SomeE:
  assumes "with_generation k g = Some d"
  shows "k + 1 < 2 ^ 32"
    and "d = push_bit 32 (ucast g AND GENERATION_MASK) OR ucast (of_nat (k + 1) :: u32)"
  using assms
  by (auto simp: with_generation_def slot_of_slab_key_Some_iff SLOT_BITS_def split: option.splits)

lemma with_generation_total: "k + 1 < 2 ^ 32 \<Longrightarrow> \<exists>d. with_generation k g = Some d"
  by (simp add: with_generation_def slot_of_slab_key_def)

lemma bit_with_generation:
  assumes "with_generation k g = Some d"
  shows "bit d n \<longleftrightarrow>
    n < 32 \<and> bit (of_nat (k + 1) :: u32) n \<or> 32 \<le> n \<and> n < 62 \<and> bit g (n - 32)"
  unfolding with_generation_SomeE(2) [OF assms]
  by (auto simp only: bit_or_iff bit_push_bit_iff ucast_slot_bit bit_and_iff bit_GENERATION_MASK
      possible_bit_word bit_ucast_iff len_num1 len_bit0 dest: bit_imp_le_length)

lemma with_generation_slot:
  assumes "with_generation k g = Some d"
  shows "d AND SLOT_MASK = ucast (of_nat (k + 1) :: u32)"
  by (rule bit_word_eqI) (auto simp: bit_and_iff bit_with_generation [OF assms] ucast_slot_bit)

lemma ucast_eq_of_nat: "ucast (w :: u32) = (of_nat (unat w) :: i64)"
  by simp

lemma with_generation_slot_nat:
  assumes "with_generation k g = Some d"
  shows "d AND SLOT_MASK = of_nat (k + 1)"
  using unat_slot [OF with_generation_SomeE(1) [OF assms]]
  by (simp only: with_generation_slot [OF assms] ucast_eq_of_nat)

lemma sint_of_nat_small: "n < 2 ^ 63 \<Longrightarrow> sint (of_nat n :: i64) = int n"
  by (simp add: signed_of_nat signed_take_bit_int_eq_self)

lemma to_slab_key_with_generation:
  assumes "with_generation k g = Some d"
  shows "to_slab_key d = Some k"
proof -
  have "(d AND SLOT_MASK) - 1 = of_nat k"
    unfolding with_generation_slot_nat [OF assms] by simp
  then show ?thesis
    using with_generation_SomeE(1) [OF assms] sint_of_nat_small [of k]
    by (simp add: to_slab_key_def)
qed

lemma generation_of_with_generation:
  assumes "with_generation k g = Some d"
  shows "generation_of d = take_bit 30 g"
proof (rule bit_word_eqI)
  fix n assume n: "n < LENGTH(32)"
  have "bit (generation_of d) n \<longleftrightarrow> n < 30 \<and> bit (signed_drop_bit 32 d) n"
    using n by (auto simp: generation_of_def SLOT_BITS_def bit_ucast_iff bit_and_iff)
  also have "\<dots> \<longleftrightarrow> n < 30 \<and> bit g n"
    by (auto simp: bit_signed_drop_bit_iff bit_with_generation [OF assms])
  also have "\<dots> \<longleftrightarrow> bit (take_bit 30 g) n"
    by (auto simp: bit_take_bit_iff)
  finally show "bit (generation_of d) n \<longleftrightarrow> bit (take_bit 30 g) n" .
qed

lemma with_generation_nonzero_slot:
  assumes "with_generation k g = Some d"
  shows "d AND SLOT_MASK \<noteq> 0"
proof
  assume "d AND SLOT_MASK = 0"
  then have "to_slab_key d = None" by (simp add: to_slab_key_def)
  then show False by (simp add: to_slab_key_with_generation [OF assms])
qed

lemma with_generation_not_tagged:
  assumes "with_generation k g = Some d"
  shows "d AND SERVICE_OPEN_CID_TAG = 0"
  by (simp add: SERVICE_TAG_and_eq_0 bit_with_generation [OF assms])

lemma with_generation_pos:
  assumes "with_generation k g = Some d"
  shows "0 < sint d"
  using with_generation_nonzero_slot [OF assms]
  by (auto simp: sint_pos_iff bit_with_generation [OF assms])

lemmas with_generation_laws =
  to_slab_key_with_generation generation_of_with_generation with_generation_nonzero_slot
  with_generation_not_tagged with_generation_pos

section \<open>Properties\<close>

text \<open>C12: an encoded dispatch key decodes from its correlation identifier to itself, and carries
  the slab key and the low thirty bits of the generation it was built from.\<close>

theorem dispatch_key_roundtrip:
  assumes "with_generation k g = Some d"
  shows "from_correlation_id (to_correlation_id d) = Some d \<and>
         to_slab_key d = Some k \<and> generation_of d = take_bit 30 g"
  using with_generation_laws [OF assms] by (simp add: to_correlation_id_def)

theorem dispatch_key_roundtrip_witness:
  "from_correlation_id (to_correlation_id 21474836484) = Some 21474836484 \<and>
   to_slab_key 21474836484 = Some 3 \<and> generation_of 21474836484 = take_bit 30 5"
proof -
  have "with_generation 3 5 = Some 21474836484"
    by (simp add: with_generation_def slot_of_slab_key_def SLOT_BITS_def GENERATION_MASK_def)
  from dispatch_key_roundtrip [OF this] show ?thesis .
qed


end
