(* ===== verification/Lifecycle.thy ===== *)
theory Lifecycle
  imports Presentation Dispatch
begin

text \<open>
  Startup and service-open bookkeeping (engine/session_lifecycle.rs): the startup latch, the
  concurrent start of a pool, the table of pending service opens and the waiter that owns a
  one-shot receiver. A one-shot channel is a cell of a store, addressed by a number; its
  sending half and its receiving half are both named by that number.
\<close>

type_synonym outcome = "(unit, blp_error) result"

section \<open>Startup latch\<close>

record startup_latch =
  sl_resolved :: bool
  sl_result :: "outcome option"

definition latch_default :: startup_latch where
  "latch_default = \<lparr>sl_resolved = False, sl_result = None\<rparr>"

definition latch_resolve :: "outcome \<Rightarrow> startup_latch \<Rightarrow> startup_latch" where
  "latch_resolve r l = (if \<not> sl_resolved l then \<lparr>sl_resolved = True, sl_result = Some r\<rparr> else l)"

text \<open>The blocking wait. While it sleeps on the condition variable the lock is released: each
  entry of \<open>wakes\<close> is one return of \<open>wait_until\<close>, with the outcomes other threads resolved
  meanwhile and whether the deadline had passed. \<open>None\<close>: it still sleeps after the last entry.\<close>

fun latch_wait ::
  "startup_latch \<Rightarrow> (outcome list \<times> bool) list \<Rightarrow> (outcome \<times> startup_latch) option" where
  "latch_wait l wakes =
     (case sl_result l of
        Some r \<Rightarrow> Some (r, l\<lparr>sl_result := None\<rparr>)
      | None \<Rightarrow>
          (case wakes of
             [] \<Rightarrow> None
           | (rs, timed_out) # wakes' \<Rightarrow>
               (let l' = fold latch_resolve rs l
                in if timed_out then Some (Inl Timeout, l') else latch_wait l' wakes')))"

declare latch_wait.simps [simp del]

section \<open>Concurrent start\<close>

text \<open>\<open>start i = None\<close> stands for a panic of that call, \<open>spawn_ok i\<close> for a successful
  \<open>spawn_scoped\<close>; the result \<open>None\<close> is the panic resumed on the caller.\<close>

definition spawn_all :: "nat \<Rightarrow> (nat \<Rightarrow> bool) \<Rightarrow> (nat \<Rightarrow> 'a option) \<Rightarrow> ('a option, nat) result list" where
  "spawn_all n spawn_ok start =
     map (\<lambda>index. if spawn_ok index then Inr (start index) else Inl index) [1..<n]"

fun join_all :: "(nat \<Rightarrow> 'a option) \<Rightarrow> ('a option, nat) result list \<Rightarrow> 'a list \<Rightarrow> 'a list option" where
  "join_all start [] outcomes = Some outcomes"
| "join_all start (h # hs) outcomes =
     (case (case h of Inr joined \<Rightarrow> joined | Inl index \<Rightarrow> start index) of
        None \<Rightarrow> None
      | Some v \<Rightarrow> join_all start hs (outcomes @ [v]))"

definition start_concurrently :: "nat \<Rightarrow> (nat \<Rightarrow> bool) \<Rightarrow> (nat \<Rightarrow> 'a option) \<Rightarrow> 'a list option" where
  "start_concurrently n spawn_ok start =
     (let spawned = spawn_all n spawn_ok start
      in if 0 < n
         then (case start 0 of None \<Rightarrow> None | Some v \<Rightarrow> join_all start spawned [v])
         else join_all start spawned [])"

fun worker_start_error :: "string \<Rightarrow> string \<Rightarrow> blp_error \<Rightarrow> blp_async_error" where
  "worker_start_error worker internal (SessionStart source label) =
     Blp (SessionStart source
       (Some (case label of Some l \<Rightarrow> worker @ '': '' @ l | None \<Rightarrow> worker)))"
| "worker_start_error worker internal other =
     Blp (Internal (internal @ '': '' @ blp_error_display other))"

section \<open>One-shot channels\<close>

datatype cell = Empty | Sent outcome | RxClosed | TxClosed

record oneshots =
  os_next :: nat
  os_cell :: "nat \<Rightarrow> cell"

definition oneshots_empty :: oneshots where
  "oneshots_empty = \<lparr>os_next = 0, os_cell = \<lambda>_. RxClosed\<rparr>"

definition oneshot_channel :: "oneshots \<Rightarrow> nat \<times> oneshots" where
  "oneshot_channel h =
     (os_next h, \<lparr>os_next = os_next h + 1, os_cell = (os_cell h)(os_next h := Empty)\<rparr>)"

definition set_cell :: "nat \<Rightarrow> cell \<Rightarrow> oneshots \<Rightarrow> oneshots" where
  "set_cell i c h = h\<lparr>os_cell := (os_cell h)(i := c)\<rparr>"

definition tx_is_closed :: "oneshots \<Rightarrow> nat \<Rightarrow> bool" where
  "tx_is_closed h tx \<longleftrightarrow> os_cell h tx = RxClosed"

definition tx_send :: "outcome \<Rightarrow> nat \<Rightarrow> oneshots \<Rightarrow> oneshots" where
  "tx_send r tx h = (if tx_is_closed h tx then h else set_cell tx (Sent r) h)"

definition tx_drop :: "nat \<Rightarrow> oneshots \<Rightarrow> oneshots" where
  "tx_drop tx h = (if os_cell h tx = Empty then set_cell tx TxClosed h else h)"

definition rx_drop :: "nat \<Rightarrow> oneshots \<Rightarrow> oneshots" where
  "rx_drop rx h = set_cell rx RxClosed h"

section \<open>Pending service opens\<close>

record pending_service_open =
  po_cid :: i64
  po_waiters :: "nat list"

text \<open>Every closure the engine passes to \<open>complete\<close> returns equal values on each call, so
  the closure is its value.\<close>

definition po_complete :: "outcome \<Rightarrow> pending_service_open \<Rightarrow> oneshots \<Rightarrow> oneshots" where
  "po_complete r open h = fold (tx_send r) (po_waiters open) h"

definition po_drop :: "pending_service_open \<Rightarrow> oneshots \<Rightarrow> oneshots" where
  "po_drop open h = fold tx_drop (po_waiters open) h"

record pending_service_opens =
  ps_next_id :: i64
  ps_by_service :: "(string \<times> pending_service_open) list"

definition opens_default :: pending_service_opens where
  "opens_default = \<lparr>ps_next_id = 0, ps_by_service = []\<rparr>"

definition retain_open :: "oneshots \<Rightarrow> pending_service_open \<Rightarrow> pending_service_open" where
  "retain_open h open = open\<lparr>po_waiters := filter (\<lambda>w. \<not> tx_is_closed h w) (po_waiters open)\<rparr>"

definition opens_register ::
  "string \<Rightarrow> pending_service_opens \<Rightarrow> oneshots \<Rightarrow>
     (bool \<times> i64 \<times> nat) \<times> pending_service_opens \<times> oneshots" where
  "opens_register service p h =
     (let (tx, h') = oneshot_channel h
      in case map_of (ps_by_service p) service of
           Some open \<Rightarrow>
             (let open' = retain_open h' open; open'' = open'\<lparr>po_waiters := po_waiters open' @ [tx]\<rparr>
              in ((False, po_cid open'', tx),
                  p\<lparr>ps_by_service := AList.update service open'' (ps_by_service p)\<rparr>, h'))
         | None \<Rightarrow>
             (let next = ps_next_id p + 1; cid = service_open_cid next
              in ((True, cid, tx),
                  \<lparr>ps_next_id = next,
                   ps_by_service = AList.update service \<lparr>po_cid = cid, po_waiters = [tx]\<rparr>
                     (ps_by_service p)\<rparr>, h')))"

definition opens_remove ::
  "string \<Rightarrow> i64 \<Rightarrow> pending_service_opens \<Rightarrow> pending_service_open option \<times> pending_service_opens" where
  "opens_remove service cid p =
     (case map_of (ps_by_service p) service of
        Some open \<Rightarrow>
          if po_cid open = cid
          then (Some open, p\<lparr>ps_by_service := AList.delete service (ps_by_service p)\<rparr>)
          else (None, p)
      | None \<Rightarrow> (None, p))"

definition opens_remove_by_cid ::
  "i64 \<Rightarrow> pending_service_opens \<Rightarrow> (string \<times> pending_service_open) option \<times> pending_service_opens" where
  "opens_remove_by_cid cid p =
     (case find (\<lambda>(service, open). po_cid open = cid) (ps_by_service p) of
        None \<Rightarrow> (None, p)
      | Some (service, _) \<Rightarrow>
          (map_option (\<lambda>open. (service, open)) (map_of (ps_by_service p) service),
           p\<lparr>ps_by_service := AList.delete service (ps_by_service p)\<rparr>))"

definition opens_prune :: "string \<Rightarrow> i64 \<Rightarrow> oneshots \<Rightarrow> pending_service_opens \<Rightarrow> pending_service_opens" where
  "opens_prune service cid h p =
     (case map_of (ps_by_service p) service of
        None \<Rightarrow> p
      | Some open \<Rightarrow>
          if po_cid open \<noteq> cid then p
          else (let open' = retain_open h open
                in if po_waiters open' = []
                   then p\<lparr>ps_by_service := AList.delete service (ps_by_service p)\<rparr>
                   else p\<lparr>ps_by_service := AList.update service open' (ps_by_service p)\<rparr>))"

definition opens_drain ::
  "pending_service_opens \<Rightarrow> (string \<times> pending_service_open) list \<times> pending_service_opens" where
  "opens_drain p = (ps_by_service p, p\<lparr>ps_by_service := []\<rparr>)"

definition opens_is_empty :: "pending_service_opens \<Rightarrow> bool" where
  "opens_is_empty p \<longleftrightarrow> ps_by_service p = []"

section \<open>Waiters\<close>

text \<open>\<open>PendingWaiter\<close> with the state it closes over: the store and a table the two callbacks
  act on. Dropping it closes the receiver first and prunes second.\<close>

definition waiter_drop ::
  "(oneshots \<Rightarrow> 's \<Rightarrow> 's) \<Rightarrow> nat \<Rightarrow> oneshots \<Rightarrow> 's \<Rightarrow> oneshots \<times> 's" where
  "waiter_drop prune rx h s = (let h' = rx_drop rx h in (h', prune h' s))"

text \<open>One poll of the waiting future; \<open>elapsed\<close> says that the ten seconds have passed. The
  receiver is polled before the timer.\<close>

definition wait_service_open ::
  "bool \<Rightarrow> ('s \<Rightarrow> pending_service_open option \<times> 's) \<Rightarrow> blp_error \<Rightarrow> (oneshots \<Rightarrow> 's \<Rightarrow> 's) \<Rightarrow>
     nat \<Rightarrow> oneshots \<Rightarrow> 's \<Rightarrow> outcome poll \<times> oneshots \<times> 's" where
  "wait_service_open elapsed remove_attempt dropped_error prune rx h s =
     (case os_cell h rx of
        Sent r \<Rightarrow> (Ready r, waiter_drop prune rx h s)
      | TxClosed \<Rightarrow> (Ready (Inl dropped_error), waiter_drop prune rx h s)
      | _ \<Rightarrow>
          if \<not> elapsed then (Pending, h, s)
          else (let (removed, s') = remove_attempt s;
                    h' = (case removed of None \<Rightarrow> h | Some open \<Rightarrow> po_complete (Inl Timeout) open h)
                in (Ready (Inl Timeout), waiter_drop prune rx h' s')))"

section \<open>Latch and concurrent start\<close>

lemma latch_resolved [simp]: "sl_resolved l \<Longrightarrow> fold latch_resolve rs l = l"
  by (induction rs arbitrary: l) (simp_all add: latch_resolve_def)

lemma latch_resolve_default:
  "fold latch_resolve (r # rs) latch_default = \<lparr>sl_resolved = True, sl_result = Some r\<rparr>"
  by (simp add: latch_resolve_def latch_default_def)

lemma latch_wait_spurious:
  "latch_wait latch_default (replicate n ([], False) @ wakes) = latch_wait latch_default wakes"
  by (induction n) (simp_all add: latch_wait.simps [of _ "_ # _"] latch_default_def)

lemma latch_wait_result [simp]:
  "latch_wait \<lparr>sl_resolved = b, sl_result = Some r\<rparr> wakes = Some (r, \<lparr>sl_resolved = b, sl_result = None\<rparr>)"
  by (simp add: latch_wait.simps)

text \<open>C14: the first startup status wins: a waiter that sleeps through any number of spurious
  wake-ups returns the first outcome that was resolved, whatever is resolved after it, or a
  timeout when the deadline passes first, and a latch whose outcome was consumed stays resolved.\<close>

theorem startup_first_status_wins:
  "latch_wait latch_default (replicate n ([], False) @ (r # rs, False) # wakes) =
     Some (r, \<lparr>sl_resolved = True, sl_result = None\<rparr>) \<and>
   latch_wait (fold latch_resolve (r # rs) latch_default) wakes =
     Some (r, \<lparr>sl_resolved = True, sl_result = None\<rparr>) \<and>
   latch_wait latch_default (replicate n ([], False) @ (late, True) # wakes) =
     Some (Inl Timeout, fold latch_resolve late latch_default) \<and>
   fold latch_resolve rs \<lparr>sl_resolved = True, sl_result = None\<rparr> =
     \<lparr>sl_resolved = True, sl_result = None\<rparr>"
proof (intro conjI)
  have "sl_result latch_default = None" by (simp add: latch_default_def)
  note step = latch_wait.simps [of latch_default "_ # _", simplified this list.case option.case Let_def prod.case]
  show "latch_wait latch_default (replicate n ([], False) @ (r # rs, False) # wakes) =
     Some (r, \<lparr>sl_resolved = True, sl_result = None\<rparr>)"
    unfolding latch_wait_spurious by (simp only: step prod.case latch_resolve_default latch_wait_result if_False)
  show "latch_wait latch_default (replicate n ([], False) @ (late, True) # wakes) =
     Some (Inl Timeout, fold latch_resolve late latch_default)"
    unfolding latch_wait_spurious by (simp only: step prod.case if_True)
  show "latch_wait (fold latch_resolve (r # rs) latch_default) wakes =
     Some (r, \<lparr>sl_resolved = True, sl_result = None\<rparr>)"
    by (simp only: latch_resolve_default latch_wait_result)
qed simp

lemma join_all_spawned:
  "join_all start (map (\<lambda>i. if ok i then Inr (start i) else Inl i) is) acc =
     (if \<forall>i \<in> set is. start i \<noteq> None then Some (acc @ map (\<lambda>i. the (start i)) is) else None)"
  by (induction "is" arbitrary: acc) (auto split: option.splits)

text \<open>C15: starting a pool concurrently gives the outcomes in index order whichever threads could
  be spawned, and a panic of any start call surfaces on the caller.\<close>

theorem start_concurrently_in_order:
  "start_concurrently n spawn_ok start =
     (if list_all (\<lambda>i. start i \<noteq> None) [0..<n] then Some (map (\<lambda>i. the (start i)) [0..<n]) else None)"
proof (cases n)
  case 0
  then show ?thesis by (simp add: start_concurrently_def spawn_all_def)
next
  case (Suc m)
  have split: "[0..<Suc m] = 0 # [1..<Suc m]" by (simp add: upt_rec)
  show ?thesis
    unfolding Suc start_concurrently_def spawn_all_def Let_def split join_all_spawned
    by (cases "start 0") (auto simp: list_all_iff)
qed

end
