(* ===== verification/Service_Open.thy ===== *)
theory Service_Open
  imports Lifecycle
begin

text \<open>
  How a request worker opens services (engine/worker.rs: \<open>ensure_service\<close>,
  \<open>handle_service_status\<close>, \<open>fail_pending_service_opens\<close>) on top of the table of pending
  opens. Any number of tasks call \<open>ensure_service\<close>; the SDK dispatcher, the timers and the
  shutdown path resolve attempts. The steps are cut where the code releases the lock of the
  table: between taking an attempt out of the table and sending to its waiters other steps
  may run. Such an attempt is a flight.
\<close>

section \<open>State\<close>

type_synonym waiter = "nat \<times> string \<times> i64" \<comment> \<open>receiver, service, attempt\<close>

record flight =
  fl_service :: string
  fl_open :: pending_service_open
  fl_insert :: bool \<comment> \<open>the service is still to be inserted into \<open>open_services\<close>\<close>
  fl_outcome :: outcome
  fl_owner :: "waiter option" \<comment> \<open>the timed-out waiter that runs the completion\<close>

record service_world =
  sw_opens :: pending_service_opens
  sw_cells :: oneshots
  sw_open_services :: "string list"
  sw_waiting :: "waiter list"
  sw_flights :: "flight list"
  sw_calls :: "(string \<times> i64) list" \<comment> \<open>every \<open>open_service_async\<close> call, in order\<close>
  sw_returned :: "(nat \<times> string \<times> outcome) list" \<comment> \<open>results of \<open>ensure_service\<close>\<close>
  sw_home :: "nat \<Rightarrow> string \<times> i64" \<comment> \<open>history: the attempt a receiver was registered with\<close>

definition service_world_init :: "string list \<Rightarrow> service_world" where
  "service_world_init warm =
     \<lparr>sw_opens = opens_default, sw_cells = oneshots_empty, sw_open_services = warm,
      sw_waiting = [], sw_flights = [], sw_calls = [], sw_returned = [], sw_home = \<lambda>_. ([], 0)\<rparr>"

section \<open>Operations\<close>

text \<open>The locked section of \<open>ensure_service\<close>; \<open>sdk\<close> is the failure of
  \<open>open_service_async\<close>, if any.\<close>

definition ensure_register :: "string \<Rightarrow> blp_error option \<Rightarrow> service_world \<Rightarrow> service_world" where
  "ensure_register name sdk w =
     (if name \<in> set (sw_open_services w) then w
      else
        (let ((should_open, cid, rx), p, h) = opens_register name (sw_opens w) (sw_cells w);
             w1 = w\<lparr>sw_opens := p, sw_cells := h, sw_home := (sw_home w)(rx := (name, cid))\<rparr>
         in if should_open
            then
              (let w2 = w1\<lparr>sw_calls := sw_calls w @ [(name, cid)]\<rparr>
               in case sdk of
                    None \<Rightarrow> w2\<lparr>sw_waiting := (rx, name, cid) # sw_waiting w\<rparr>
                  | Some e \<Rightarrow>
                      (let (removed, p') = opens_remove name cid p;
                           h' = (case removed of None \<Rightarrow> h | Some open \<Rightarrow> po_drop open h)
                       in w2\<lparr>sw_opens := p', sw_cells := rx_drop rx h',
                             sw_returned := sw_returned w @ [(rx, name, Inl e)]\<rparr>))
            else w1\<lparr>sw_waiting := (rx, name, cid) # sw_waiting w\<rparr>))"

abbreviation prune_for :: "waiter \<Rightarrow> oneshots \<Rightarrow> pending_service_opens \<Rightarrow> pending_service_opens" where
  "prune_for wt h p \<equiv> opens_prune (fst (snd wt)) (snd (snd wt)) h p"

definition drop_waiter :: "waiter \<Rightarrow> service_world \<Rightarrow> service_world" where
  "drop_waiter wt w =
     (let (h, p) = waiter_drop (prune_for wt) (fst wt) (sw_cells w) (sw_opens w)
      in w\<lparr>sw_cells := h, sw_opens := p\<rparr>)"

definition forget_waiter :: "waiter \<Rightarrow> service_world \<Rightarrow> service_world" where
  "forget_waiter wt w = w\<lparr>sw_waiting := removeAll wt (sw_waiting w)\<rparr>"

definition return_waiter :: "waiter \<Rightarrow> outcome \<Rightarrow> service_world \<Rightarrow> service_world" where
  "return_waiter wt r w =
     (drop_waiter wt w)\<lparr>sw_returned := sw_returned w @ [(fst wt, fst (snd wt), r)]\<rparr>"

definition dropped_error :: "string \<Rightarrow> blp_error" where
  "dropped_error name = Internal (''service open for '' @ name @ '' dropped without resolution'')"

text \<open>The timer of a waiting task fires: it takes its own attempt out of the table, if the
  attempt is still there, and completes it before it returns.\<close>

definition elapse_waiter :: "waiter \<Rightarrow> service_world \<Rightarrow> service_world" where
  "elapse_waiter wt w =
     (let (removed, p) = opens_remove (fst (snd wt)) (snd (snd wt)) (sw_opens w);
          w1 = forget_waiter wt (w\<lparr>sw_opens := p\<rparr>)
      in case removed of
           None \<Rightarrow> return_waiter wt (Inl Timeout) w1
         | Some open \<Rightarrow>
             w1\<lparr>sw_flights := \<lparr>fl_service = fst (snd wt), fl_open = open, fl_insert = False,
                  fl_outcome = Inl Timeout, fl_owner = Some wt\<rparr> # sw_flights w\<rparr>)"

definition status_outcome :: "bool \<Rightarrow> string \<Rightarrow> string option \<Rightarrow> outcome" where
  "status_outcome opened service reason =
     (if opened then Inr () else Inl (OpenService service None reason))"

definition handle_service_status :: "bool \<Rightarrow> i64 \<Rightarrow> string option \<Rightarrow> service_world \<Rightarrow> service_world" where
  "handle_service_status opened cid reason w =
     (case opens_remove_by_cid cid (sw_opens w) of
        (None, p) \<Rightarrow> w\<lparr>sw_opens := p\<rparr>
      | (Some (service, open), p) \<Rightarrow>
          w\<lparr>sw_opens := p,
            sw_flights := \<lparr>fl_service = service, fl_open = open, fl_insert = opened,
              fl_outcome = status_outcome opened service reason, fl_owner = None\<rparr>
              # sw_flights w\<rparr>)"

definition failure_flight :: "string \<Rightarrow> string \<times> pending_service_open \<Rightarrow> flight" where
  "failure_flight reason e =
     \<lparr>fl_service = fst e, fl_open = snd e, fl_insert = False,
      fl_outcome = Inl (OpenService (fst e) None (Some reason)), fl_owner = None\<rparr>"

definition fail_pending_service_opens :: "string \<Rightarrow> service_world \<Rightarrow> service_world" where
  "fail_pending_service_opens reason w =
     (let (drained, p) = opens_drain (sw_opens w)
      in w\<lparr>sw_opens := p, sw_flights := map (failure_flight reason) drained @ sw_flights w\<rparr>)"

text \<open>One action of a flight: insert the service, send to the next waiter, or finish.\<close>

definition advance_flight :: "flight \<Rightarrow> flight list \<Rightarrow> flight list \<Rightarrow> service_world \<Rightarrow> service_world" where
  "advance_flight f before after w =
     (if fl_insert f
      then w\<lparr>sw_open_services := List.insert (fl_service f) (sw_open_services w),
             sw_flights := before @ f\<lparr>fl_insert := False\<rparr> # after\<rparr>
      else case po_waiters (fl_open f) of
             x # xs \<Rightarrow>
               w\<lparr>sw_cells := tx_send (fl_outcome f) x (sw_cells w),
                 sw_flights := before @ f\<lparr>fl_open := (fl_open f)\<lparr>po_waiters := xs\<rparr>\<rparr> # after\<rparr>
           | [] \<Rightarrow>
               (let w1 = w\<lparr>sw_flights := before @ after\<rparr>
                in case fl_owner f of
                     None \<Rightarrow> w1
                   | Some wt \<Rightarrow> return_waiter wt (Inl Timeout) w1))"

section \<open>Steps\<close>

inductive service_step :: "service_world \<Rightarrow> service_world \<Rightarrow> bool" where
  register: "service_step w (ensure_register name sdk w)"
| receive: "\<lbrakk>wt \<in> set (sw_waiting w); os_cell (sw_cells w) (fst wt) = Sent r\<rbrakk>
    \<Longrightarrow> service_step w (return_waiter wt r (forget_waiter wt w))"
| receive_dropped: "\<lbrakk>wt \<in> set (sw_waiting w); os_cell (sw_cells w) (fst wt) = TxClosed\<rbrakk>
    \<Longrightarrow> service_step w (return_waiter wt (Inl (dropped_error (fst (snd wt)))) (forget_waiter wt w))"
| elapse: "\<lbrakk>wt \<in> set (sw_waiting w); os_cell (sw_cells w) (fst wt) = Empty\<rbrakk>
    \<Longrightarrow> service_step w (elapse_waiter wt w)"
| cancel: "wt \<in> set (sw_waiting w) \<Longrightarrow> service_step w (drop_waiter wt (forget_waiter wt w))"
| status: "service_step w (handle_service_status opened cid reason w)"
| fail_all: "service_step w (fail_pending_service_opens reason w)"
| advance: "sw_flights w = before @ f # after \<Longrightarrow> service_step w (advance_flight f before after w)"

inductive service_reach :: "service_world \<Rightarrow> bool" where
  init: "service_reach (service_world_init warm)"
| step: "service_reach w \<Longrightarrow> service_step w w' \<Longrightarrow> service_reach w'"

end
