(* ===== verification/Service_Open_Inv.thy ===== *)
theory Service_Open_Inv
  imports Service_Open
begin

text \<open>
  Invariants of the service-open protocol: every sender and receiver of a one-shot channel is
  where the code expects it (\<open>world_inv\<close>), and success is reported only for a service that
  is open (\<open>success_inv\<close>). Each operation has its lemma; the reachable states follow by
  rule induction.
\<close>

section \<open>Senders of a table\<close>

definition table_senders :: "(string \<times> pending_service_open) list \<Rightarrow> nat multiset" where
  "table_senders bs = mset (concat (map (\<lambda>e. po_waiters (snd e)) bs))"

definition flight_senders :: "flight list \<Rightarrow> nat multiset" where
  "flight_senders fs = mset (concat (map (\<lambda>f. po_waiters (fl_open f)) fs))"

lemma table_senders_simps [simp]:
  "table_senders [] = {#}" "table_senders (e # bs) = mset (po_waiters (snd e)) + table_senders bs"
  by (simp_all add: table_senders_def)

lemma flight_senders_simps [simp]:
  "flight_senders [] = {#}" "flight_senders (f # fs) = mset (po_waiters (fl_open f)) + flight_senders fs"
  "flight_senders (fs @ gs) = flight_senders fs + flight_senders gs"
  by (simp_all add: flight_senders_def)

lemma in_table_senders: "x \<in># table_senders bs \<longleftrightarrow> (\<exists>e \<in> set bs. x \<in> set (po_waiters (snd e)))"
  by (induction bs) auto

lemma in_flight_senders: "x \<in># flight_senders fs \<longleftrightarrow> (\<exists>f \<in> set fs. x \<in> set (po_waiters (fl_open f)))"
  by (induction fs) auto

lemma table_senders_delete:
  "distinct (map fst bs) \<Longrightarrow> map_of bs k = Some v \<Longrightarrow>
     table_senders bs = mset (po_waiters v) + table_senders (AList.delete k bs)"
  by (induction bs) (auto split: if_splits)

lemma table_senders_update:
  "distinct (map fst bs) \<Longrightarrow>
     table_senders (AList.update k v bs) = mset (po_waiters v) + table_senders (AList.delete k bs)"
  by (induction bs) auto

lemma set_alist_update:
  "distinct (map fst bs) \<Longrightarrow> set (AList.update k v bs) = insert (k, v) (set (AList.delete k bs))"
  by (induction bs) auto

lemma set_alist_delete_subset: "set (AList.delete k bs) \<subseteq> set bs"
  by (simp add: AList.delete_eq)

lemma flight_senders_failures [simp]:
  "flight_senders (map (failure_flight reason) bs) = table_senders bs"
  by (induction bs) (simp_all add: failure_flight_def)

lemma find_SomeE:
  assumes "find P xs = Some x"
  shows "x \<in> set xs \<and> P x"
  using assms by (auto simp: find_Some_iff)


section \<open>The invariant\<close>

definition svc_inv ::
  "(string \<times> pending_service_open) list \<Rightarrow> nat \<Rightarrow> (nat \<Rightarrow> cell) \<Rightarrow> flight list \<Rightarrow> waiter list \<Rightarrow>
     (nat \<Rightarrow> string \<times> i64) \<Rightarrow> bool" where
  "svc_inv bs n c fs ws home \<longleftrightarrow>
     distinct (map fst bs) \<and>
     (\<forall>x. count (table_senders bs + flight_senders fs) x \<le> 1) \<and>
     (\<forall>x \<in># table_senders bs + flight_senders fs. x < n \<and> (c x = Empty \<or> c x = RxClosed)) \<and>
     (\<forall>e \<in> set bs. \<forall>x \<in> set (po_waiters (snd e)). home x = (fst e, po_cid (snd e))) \<and>
     (\<forall>f \<in> set fs. \<forall>x \<in> set (po_waiters (fl_open f)). home x = (fl_service f, po_cid (fl_open f))) \<and>
     (\<forall>wt \<in> set ws. fst wt < n \<and> home (fst wt) = snd wt \<and>
        (c (fst wt) = Empty \<and> fst wt \<in># table_senders bs + flight_senders fs
         \<or> (\<exists>r. c (fst wt) = Sent r))) \<and>
     (\<forall>f \<in> set fs. \<forall>wt. fl_owner f = Some wt \<longrightarrow>
        fst wt < n \<and> home (fst wt) = snd wt \<and> wt \<notin> set ws)"

lemma svc_invI:
  assumes "distinct (map fst bs)"
    and "\<And>x. count (table_senders bs + flight_senders fs) x \<le> 1"
    and "\<And>x. x \<in># table_senders bs + flight_senders fs \<Longrightarrow> x < n \<and> (c x = Empty \<or> c x = RxClosed)"
    and "\<And>s op x. (s, op) \<in> set bs \<Longrightarrow> x \<in> set (po_waiters op) \<Longrightarrow> home x = (s, po_cid op)"
    and "\<And>f x. f \<in> set fs \<Longrightarrow> x \<in> set (po_waiters (fl_open f)) \<Longrightarrow>
          home x = (fl_service f, po_cid (fl_open f))"
    and "\<And>wt. wt \<in> set ws \<Longrightarrow> fst wt < n \<and> home (fst wt) = snd wt"
    and "\<And>wt. wt \<in> set ws \<Longrightarrow>
        c (fst wt) = Empty \<and> fst wt \<in># table_senders bs + flight_senders fs \<or> (\<exists>r. c (fst wt) = Sent r)"
    and "\<And>f wt. f \<in> set fs \<Longrightarrow> fl_owner f = Some wt \<Longrightarrow>
          fst wt < n \<and> home (fst wt) = snd wt \<and> wt \<notin> set ws"
  shows "svc_inv bs n c fs ws home"
  unfolding svc_inv_def
  by (intro conjI ballI allI impI) (use assms in \<open>simp_all del: set_mset_union\<close>)

lemma svc_invD:
  assumes "svc_inv bs n c fs ws home"
  shows "distinct (map fst bs)"
    and "\<And>x. count (table_senders bs + flight_senders fs) x \<le> 1"
    and "\<And>x. x \<in># table_senders bs + flight_senders fs \<Longrightarrow> x < n \<and> (c x = Empty \<or> c x = RxClosed)"
    and "\<And>s op x. (s, op) \<in> set bs \<Longrightarrow> x \<in> set (po_waiters op) \<Longrightarrow> home x = (s, po_cid op)"
    and "\<And>f x. f \<in> set fs \<Longrightarrow> x \<in> set (po_waiters (fl_open f)) \<Longrightarrow>
          home x = (fl_service f, po_cid (fl_open f))"
    and "\<And>wt. wt \<in> set ws \<Longrightarrow> fst wt < n \<and> home (fst wt) = snd wt"
    and "\<And>wt. wt \<in> set ws \<Longrightarrow>
        c (fst wt) = Empty \<and> fst wt \<in># table_senders bs + flight_senders fs \<or> (\<exists>r. c (fst wt) = Sent r)"
    and "\<And>f wt. f \<in> set fs \<Longrightarrow> fl_owner f = Some wt \<Longrightarrow>
          fst wt < n \<and> home (fst wt) = snd wt \<and> wt \<notin> set ws"
  using assms unfolding svc_inv_def by ((drule conjunct1 | drule conjunct2)?, fastforce)+

text \<open>An attempt moves from the table into a flight.\<close>

lemma svc_inv_take:
  assumes inv: "svc_inv bs n c fs ws home" and k: "map_of bs k = Some op"
    and f: "fl_service f = k" "fl_open f = op"
    and own: "\<And>wt. fl_owner f = Some wt \<Longrightarrow> wt \<in> set ws \<and> wt \<notin> set ws'"
    and ws: "set ws' \<subseteq> set ws"
  shows "svc_inv (AList.delete k bs) n c (f # fs) ws' home"
proof -
  note D = svc_invD [OF inv]
  have sum: "table_senders (AList.delete k bs) + flight_senders (f # fs)
      = table_senders bs + flight_senders fs"
    using table_senders_delete [OF D(1) k] f by simp
  have mem: "(k, op) \<in> set bs" using k by (rule map_of_SomeD)
  show ?thesis
  proof (rule svc_invI, unfold sum)
    show "distinct (map fst (AList.delete k bs))" using D(1) by (rule AList.distinct_delete)
    show "home x = (s, po_cid op')" if "(s, op') \<in> set (AList.delete k bs)" "x \<in> set (po_waiters op')"
      for s op' x
      using D(4) [of s op' x] that set_alist_delete_subset [of k bs] by blast
    show "home x = (fl_service g, po_cid (fl_open g))"
      if "g \<in> set (f # fs)" "x \<in> set (po_waiters (fl_open g))" for g x
      using that D(4) [OF mem, of x] D(5) [of g x] f by auto
    show "fst wt < n \<and> home (fst wt) = snd wt \<and> wt \<notin> set ws'"
      if "g \<in> set (f # fs)" "fl_owner g = Some wt" for g wt
    proof (cases "g = f")
      case True
      then show ?thesis using own [of wt] that D(6) [of wt] by simp
    next
      case False
      then have "g \<in> set fs" using that by simp
      then show ?thesis using D(8) [of g wt] that ws by blast
    qed
    show "c (fst wt) = Empty \<and> fst wt \<in># table_senders bs + flight_senders fs \<or> (\<exists>r. c (fst wt) = Sent r)"
      if "wt \<in> set ws'" for wt
      by (rule D(7) [OF subsetD [OF ws that]])
    show "fst wt < n \<and> home (fst wt) = snd wt" if "wt \<in> set ws'" for wt
      by (rule D(6) [OF subsetD [OF ws that]])
  qed (fact D(2), fact D(3))
qed

lemma svc_inv_drain:
  assumes inv: "svc_inv bs n c fs ws home"
  shows "svc_inv [] n c (map (failure_flight reason) bs @ fs) ws home"
proof -
  note D = svc_invD [OF inv]
  have fl: "fl_owner (failure_flight reason e) = None" "fl_open (failure_flight reason e) = snd e"
    "fl_service (failure_flight reason e) = fst e" for e
    by (simp_all add: failure_flight_def)
  have sum: "table_senders [] + flight_senders (map (failure_flight reason) bs @ fs)
      = table_senders bs + flight_senders fs" by simp
  show ?thesis
  proof (rule svc_invI, unfold sum)
    show "home x = (fl_service g, po_cid (fl_open g))"
      if "g \<in> set (map (failure_flight reason) bs @ fs)" "x \<in> set (po_waiters (fl_open g))" for g x
      using that D(4,5) by (auto simp: fl)
    show "fst wt < n \<and> home (fst wt) = snd wt \<and> wt \<notin> set ws"
      if "g \<in> set (map (failure_flight reason) bs @ fs)" "fl_owner g = Some wt" for g wt
      using that D(8) [of g wt] by (auto simp: fl)
  qed (simp, fact D(2), fact D(3), simp, fact D(6), fact D(7))
qed

text \<open>Senders whose receiver is gone may leave the table.\<close>

lemma svc_inv_shrink:
  assumes inv: "svc_inv bs n c fs ws home" and dis: "distinct (map fst bs')"
    and sub: "table_senders bs' \<subseteq># table_senders bs"
    and gone: "\<And>x. x \<in># table_senders bs \<Longrightarrow> x \<notin># table_senders bs' \<Longrightarrow> c x = RxClosed"
    and home: "\<And>s op x. (s, op) \<in> set bs' \<Longrightarrow> x \<in> set (po_waiters op) \<Longrightarrow> home x = (s, po_cid op)"
  shows "svc_inv bs' n c fs ws home"
proof -
  note D = svc_invD [OF inv]
  have le: "count (table_senders bs') x \<le> count (table_senders bs) x" for x
    using sub by (simp add: mset_subset_eq_count)
  have in_sub: "x \<in># table_senders bs + flight_senders fs"
    if "x \<in># table_senders bs' + flight_senders fs" for x
    using that sub by (auto dest: mset_subset_eqD)
  show ?thesis
  proof (rule svc_invI)
    show "count (table_senders bs' + flight_senders fs) x \<le> 1" for x
      using D(2) [of x] le [of x] by simp
    show "x < n \<and> (c x = Empty \<or> c x = RxClosed)" if "x \<in># table_senders bs' + flight_senders fs" for x
      using D(3) in_sub [OF that] by blast
    show "c (fst wt) = Empty \<and> fst wt \<in># table_senders bs' + flight_senders fs \<or> (\<exists>r. c (fst wt) = Sent r)"
      if "wt \<in> set ws" for wt
      using D(7) [OF that] gone [of "fst wt"] by auto
  qed (fact dis, fact home, fact D(5), fact D(6), fact D(8))
qed

lemma filter_mset_subset: "mset (filter P xs) \<subseteq># mset xs"
  by (simp add: mset_filter)

lemma svc_inv_retain:
  assumes inv: "svc_inv bs (os_next h) (os_cell h) fs ws home" and k: "map_of bs k = Some op"
  shows "svc_inv (AList.update k (retain_open h op) bs) (os_next h) (os_cell h) fs ws home"
    and "po_waiters (retain_open h op) = [] \<Longrightarrow>
      svc_inv (AList.delete k bs) (os_next h) (os_cell h) fs ws home"
proof -
  note D = svc_invD [OF inv]
  let ?op = "retain_open h op"
  have tab: "table_senders bs = mset (po_waiters op) + table_senders (AList.delete k bs)"
    by (rule table_senders_delete [OF D(1) k])
  have ret: "po_waiters ?op = filter (\<lambda>x. os_cell h x \<noteq> RxClosed) (po_waiters op)" "po_cid ?op = po_cid op"
    by (simp_all add: retain_open_def tx_is_closed_def)
  have mem: "(k, op) \<in> set bs" using k by (rule map_of_SomeD)
  show "svc_inv (AList.update k ?op bs) (os_next h) (os_cell h) fs ws home"
  proof (rule svc_inv_shrink [OF inv])
    show "table_senders (AList.update k ?op bs) \<subseteq># table_senders bs"
      by (simp add: table_senders_update [OF D(1)] tab ret filter_mset_subset del: mset_filter)
    show "os_cell h x = RxClosed"
      if "x \<in># table_senders bs" "x \<notin># table_senders (AList.update k ?op bs)" for x
      using that by (auto simp: table_senders_update [OF D(1)] tab ret)
    show "home x = (s, po_cid op')"
      if "(s, op') \<in> set (AList.update k ?op bs)" "x \<in> set (po_waiters op')" for s op' x
      using that D(4) [OF mem, of x] D(4) [of s op' x] set_alist_delete_subset [of k bs]
      by (auto simp: set_alist_update [OF D(1)] ret)
  qed (rule AList.distinct_update [OF D(1)])
  show "svc_inv (AList.delete k bs) (os_next h) (os_cell h) fs ws home" if "po_waiters ?op = []"
  proof (rule svc_inv_shrink [OF inv])
    show "os_cell h x = RxClosed" if "x \<in># table_senders bs" "x \<notin># table_senders (AList.delete k bs)" for x
      using that \<open>po_waiters ?op = []\<close> by (auto simp: tab ret filter_empty_conv)
    show "home x = (s, po_cid op')"
      if "(s, op') \<in> set (AList.delete k bs)" "x \<in> set (po_waiters op')" for s op' x
      using D(4) [of s op' x] that set_alist_delete_subset [of k bs] by blast
  qed (rule AList.distinct_delete [OF D(1)], simp add: tab)
qed

lemma svc_inv_prune:
  assumes inv: "svc_inv (ps_by_service p) (os_next h) (os_cell h) fs ws home"
  shows "svc_inv (ps_by_service (opens_prune k cid h p)) (os_next h) (os_cell h) fs ws home"
  using inv svc_inv_retain [OF inv]
  by (auto simp: opens_prune_def Let_def split: option.split)

text \<open>A receiver closes; its waiter is no longer waiting.\<close>

lemma svc_inv_close:
  assumes inv: "svc_inv bs n c fs ws home" and ws: "set ws' \<subseteq> set ws"
    and rx: "\<And>wt. wt \<in> set ws' \<Longrightarrow> fst wt \<noteq> rx"
  shows "svc_inv bs n (c(rx := RxClosed)) fs ws' home"
proof -
  note D = svc_invD [OF inv]
  show ?thesis
  proof (rule svc_invI)
    show "x < n \<and> ((c(rx := RxClosed)) x = Empty \<or> (c(rx := RxClosed)) x = RxClosed)"
      if "x \<in># table_senders bs + flight_senders fs" for x
      using D(3) [OF that] by simp
    show "fst wt < n \<and> home (fst wt) = snd wt" if "wt \<in> set ws'" for wt
      by (rule D(6) [OF subsetD [OF ws that]])
    show "(c(rx := RxClosed)) (fst wt) = Empty \<and> fst wt \<in># table_senders bs + flight_senders fs \<or>
        (\<exists>r. (c(rx := RxClosed)) (fst wt) = Sent r)" if "wt \<in> set ws'" for wt
      using D(7) [OF subsetD [OF ws that]] rx [OF that] by simp
    show "fst wt < n \<and> home (fst wt) = snd wt \<and> wt \<notin> set ws'"
      if "f \<in> set fs" "fl_owner f = Some wt" for f wt
      using D(8) [OF that] ws by blast
  qed (fact D(1), fact D(2), fact D(4), fact D(5))
qed

text \<open>A flight sends to its next waiter.\<close>

lemma svc_inv_send:
  assumes inv: "svc_inv bs n c (before @ f # after) ws home"
    and x: "po_waiters (fl_open f) = x # xs"
    and c': "c' = (if c x = RxClosed then c else c(x := Sent r))"
    and g: "g = f\<lparr>fl_open := (fl_open f)\<lparr>po_waiters := xs\<rparr>\<rparr>"
  shows "svc_inv bs n c' (before @ g # after) ws home"
proof -
  let ?S = "table_senders bs + flight_senders (before @ f # after)"
  let ?T = "table_senders bs + flight_senders (before @ g # after)"
  note D = svc_invD [OF inv]
  have S: "?S = add_mset x ?T" by (simp add: x g)
  have "count ?S x \<le> 1" by (rule D(2))
  then have "count ?T x = 0" unfolding S by (simp only: count_add_mset) simp
  then have notin: "x \<notin># ?T" by (simp only: not_in_iff)
  have xcell: "c x = Empty \<or> c x = RxClosed" using D(3) [of x] unfolding S by simp
  have flights: "h \<in> set (before @ f # after) \<or> h = g" if "h \<in> set (before @ g # after)" for h
    using that by auto
  show ?thesis
  proof (rule svc_invI)
    show "count ?T y \<le> 1" for y
      using D(2) [of y] unfolding S by (simp del: count_union split: if_splits)
    show "y < n \<and> (c' y = Empty \<or> c' y = RxClosed)" if y: "y \<in># ?T" for y
    proof -
      have "y \<noteq> x" using y notin by blast
      moreover have "y \<in># ?S" using y unfolding S by simp
      ultimately show ?thesis using D(3) [of y] c' by simp
    qed
    show "home y = (fl_service h, po_cid (fl_open h))"
      if "h \<in> set (before @ g # after)" "y \<in> set (po_waiters (fl_open h))" for h y
      using flights [OF that(1)] D(5) [of h y] D(5) [of f y] that(2) by (auto simp: g x)
    show "c' (fst wt) = Empty \<and> fst wt \<in># ?T \<or> (\<exists>r. c' (fst wt) = Sent r)" if wt: "wt \<in> set ws" for wt
      using D(7) [OF wt] xcell unfolding S by (auto simp: c' simp del: set_mset_union)
    show "fst wt < n \<and> home (fst wt) = snd wt \<and> wt \<notin> set ws"
      if "h \<in> set (before @ g # after)" "fl_owner h = Some wt" for h wt
      using flights [OF that(1)] D(8) [of h wt] D(8) [of f wt] that(2) by (auto simp: g)
  qed (fact D(1), fact D(4), fact D(6))
qed

text \<open>A flight changes without touching its senders, or ends.\<close>

lemma svc_inv_flights:
  assumes inv: "svc_inv bs n c fs ws home" and S: "flight_senders gs = flight_senders fs"
    and sub: "\<And>g. g \<in> set gs \<Longrightarrow> \<exists>f \<in> set fs. fl_service f = fl_service g \<and> fl_open f = fl_open g
      \<and> fl_owner f = fl_owner g"
  shows "svc_inv bs n c gs ws home"
proof -
  note D = svc_invD [OF inv]
  show ?thesis
  proof (rule svc_invI, unfold S)
    show "home y = (fl_service h, po_cid (fl_open h))"
      if "h \<in> set gs" "y \<in> set (po_waiters (fl_open h))" for h y
      using sub [OF that(1)] D(5) that(2) by metis
    show "fst wt < n \<and> home (fst wt) = snd wt \<and> wt \<notin> set ws"
      if "h \<in> set gs" "fl_owner h = Some wt" for h wt
      using sub [OF that(1)] D(8) that(2) by metis
  qed (fact D(1), fact D(2), fact D(3), fact D(4), fact D(6), fact D(7))
qed

text \<open>A fresh channel, with or without a sender in the table.\<close>

lemma svc_inv_fresh:
  assumes inv: "svc_inv bs n c fs ws home"
  shows "svc_inv bs (n + 1) (c(n := RxClosed)) fs ws (home(n := h))"
proof -
  note D = svc_invD [OF inv]
  have S: "x < n" if "x \<in># table_senders bs + flight_senders fs" for x using D(3) [OF that] by simp
  have bs: "x < n" if "(s, op) \<in> set bs" "x \<in> set (po_waiters op)" for s op x
    using S [of x] that by (force simp: in_table_senders)
  have fl: "x < n" if "f \<in> set fs" "x \<in> set (po_waiters (fl_open f))" for f x
    using S [of x] that by (force simp: in_flight_senders)
  show ?thesis
  proof (rule svc_invI)
    show "x < n + 1 \<and> ((c(n := RxClosed)) x = Empty \<or> (c(n := RxClosed)) x = RxClosed)"
      if "x \<in># table_senders bs + flight_senders fs" for x
      using D(3) [OF that] by simp
    show "(home(n := h)) x = (s, po_cid op)" if "(s, op) \<in> set bs" "x \<in> set (po_waiters op)" for s op x
      using D(4) [OF that] bs [OF that] by simp
    show "(home(n := h)) x = (fl_service f, po_cid (fl_open f))"
      if "f \<in> set fs" "x \<in> set (po_waiters (fl_open f))" for f x
      using D(5) [OF that] fl [OF that] by simp
    show "fst wt < n + 1 \<and> (home(n := h)) (fst wt) = snd wt" if "wt \<in> set ws" for wt
      using D(6) [OF that] by simp
    show "(c(n := RxClosed)) (fst wt) = Empty \<and> fst wt \<in># table_senders bs + flight_senders fs \<or>
        (\<exists>r. (c(n := RxClosed)) (fst wt) = Sent r)" if "wt \<in> set ws" for wt
      using D(6) [OF that] D(7) [OF that] by simp
    show "fst wt < n + 1 \<and> (home(n := h)) (fst wt) = snd wt \<and> wt \<notin> set ws"
      if "f \<in> set fs" "fl_owner f = Some wt" for f wt
      using D(8) [OF that] by simp
  qed (fact D(1), fact D(2))
qed

lemma svc_inv_add:
  assumes inv: "svc_inv bs n c fs ws home" and dis: "distinct (map fst bs')"
    and S: "table_senders bs' = add_mset n (table_senders bs)"
    and home: "\<And>s op x. (s, op) \<in> set bs' \<Longrightarrow> x \<in> set (po_waiters op) \<Longrightarrow> (home(n := h)) x = (s, po_cid op)"
  shows "svc_inv bs' (n + 1) (c(n := Empty)) fs ((n, h) # ws) (home(n := h))"
proof -
  note D = svc_invD [OF svc_inv_fresh [OF inv]]
  note E = svc_invD [OF inv]
  have notin: "n \<notin># table_senders bs + flight_senders fs"
    using E(3) [of n] by blast
  show ?thesis
  proof (rule svc_invI)
    show "count (table_senders bs' + flight_senders fs) x \<le> 1" for x
      using D(2) [of x] notin by (auto simp: S not_in_iff)
    show "x < n + 1 \<and> ((c(n := Empty)) x = Empty \<or> (c(n := Empty)) x = RxClosed)"
      if "x \<in># table_senders bs' + flight_senders fs" for x
      using that E(3) [of x] by (auto simp: S)
    show "fst wt < n + 1 \<and> (home(n := h)) (fst wt) = snd wt" if "wt \<in> set ((n, h) # ws)" for wt
      using that E(6) [of wt] by auto
    show "(c(n := Empty)) (fst wt) = Empty \<and> fst wt \<in># table_senders bs' + flight_senders fs \<or>
        (\<exists>r. (c(n := Empty)) (fst wt) = Sent r)" if "wt \<in> set ((n, h) # ws)" for wt
      using that E(7) [of wt] by (auto simp: S)
    show "fst wt < n + 1 \<and> (home(n := h)) (fst wt) = snd wt \<and> wt \<notin> set ((n, h) # ws)"
      if "f \<in> set fs" "fl_owner f = Some wt" for f wt
      using D(8) [OF that] E(8) [OF that] by auto
  qed (fact dis, fact home, fact D(5))
qed


section \<open>Steps keep the invariant\<close>

definition world_inv :: "service_world \<Rightarrow> bool" where
  "world_inv w \<longleftrightarrow>
     svc_inv (ps_by_service (sw_opens w)) (os_next (sw_cells w)) (os_cell (sw_cells w))
       (sw_flights w) (sw_waiting w) (sw_home w)"

lemmas cell_ops = oneshot_channel_def set_cell_def tx_send_def tx_drop_def rx_drop_def tx_is_closed_def

lemma world_inv_init: "world_inv (service_world_init warm)"
  by (simp add: world_inv_def service_world_init_def opens_default_def oneshots_empty_def svc_inv_def)

lemma world_inv_drop_waiter:
  assumes inv: "world_inv w" and ws: "\<And>wt'. wt' \<in> set (sw_waiting w) \<Longrightarrow> fst wt' \<noteq> fst wt"
  shows "world_inv (drop_waiter wt w)"
proof -
  let ?h = "rx_drop (fst wt) (sw_cells w)"
  have "svc_inv (ps_by_service (sw_opens w)) (os_next ?h) (os_cell ?h) (sw_flights w) (sw_waiting w) (sw_home w)"
    using svc_inv_close [OF inv [unfolded world_inv_def] order.refl ws] by (simp add: cell_ops)
  from svc_inv_prune [OF this] show ?thesis
    by (simp add: world_inv_def drop_waiter_def waiter_drop_def Let_def)
qed

lemma world_inv_forget: "world_inv w \<Longrightarrow> world_inv (forget_waiter wt w)"
  unfolding world_inv_def forget_waiter_def svc_inv_def by simp

lemma world_inv_returned [simp]: "world_inv (w\<lparr>sw_returned := r\<rparr>) = world_inv w"
  by (simp add: world_inv_def)

lemma forget_waiter_others:
  assumes inv: "world_inv w" and wt: "sw_home w (fst wt) = snd wt"
    and wt': "wt' \<in> set (sw_waiting w)" "wt' \<noteq> wt"
  shows "fst wt' \<noteq> fst wt"
proof
  assume eq: "fst wt' = fst wt"
  have "snd wt' = snd wt" using svc_invD(6) [OF inv [unfolded world_inv_def] wt'(1)] wt eq by simp
  with eq have "wt' = wt" by (rule prod_eqI)
  with wt'(2) show False by simp
qed

lemma world_inv_drop_waiting:
  assumes inv: "world_inv w" and wt: "wt \<in> set (sw_waiting w)"
  shows "world_inv (drop_waiter wt (forget_waiter wt w))"
    and "world_inv (return_waiter wt r (forget_waiter wt w))"
proof -
  have home: "sw_home w (fst wt) = snd wt" using svc_invD(6) [OF inv [unfolded world_inv_def] wt] by simp
  show drop: "world_inv (drop_waiter wt (forget_waiter wt w))"
    using forget_waiter_others [OF inv home]
    by (intro world_inv_drop_waiter world_inv_forget [OF inv]) (auto simp: forget_waiter_def)
  then show "world_inv (return_waiter wt r (forget_waiter wt w))"
    by (simp add: return_waiter_def)
qed

lemma opens_remove_cases:
  obtains "opens_remove k cid p = (None, p)"
  | op where "map_of (ps_by_service p) k = Some op" "po_cid op = cid"
      "opens_remove k cid p = (Some op, p\<lparr>ps_by_service := AList.delete k (ps_by_service p)\<rparr>)"
proof (cases "map_of (ps_by_service p) k")
  case None
  then show ?thesis using that(1) by (simp add: opens_remove_def)
next
  case (Some op)
  then show ?thesis using that by (cases "po_cid op = cid") (auto simp: opens_remove_def)
qed

lemma world_inv_elapse:
  assumes inv: "world_inv w" and wt: "wt \<in> set (sw_waiting w)"
  shows "world_inv (elapse_waiter wt w)"
proof (cases rule: opens_remove_cases [of "fst (snd wt)" "snd (snd wt)" "sw_opens w"])
  case 1
  then show ?thesis using world_inv_drop_waiting(2) [OF inv wt] by (simp add: elapse_waiter_def)
next
  case (2 op)
  have "svc_inv (AList.delete (fst (snd wt)) (ps_by_service (sw_opens w))) (os_next (sw_cells w))
    (os_cell (sw_cells w))
    (\<lparr>fl_service = fst (snd wt), fl_open = op, fl_insert = False, fl_outcome = Inl Timeout, fl_owner = Some wt\<rparr>
     # sw_flights w)
    (removeAll wt (sw_waiting w)) (sw_home w)"
    by (rule svc_inv_take [OF inv [unfolded world_inv_def] 2(1)]) (use wt in auto)
  with 2(3) show ?thesis
    by (simp add: elapse_waiter_def world_inv_def forget_waiter_def)
qed

lemma opens_remove_by_cid_cases:
  obtains "opens_remove_by_cid cid p = (None, p)"
  | k op where "map_of (ps_by_service p) k = Some op" "(k, op) \<in> set (ps_by_service p)"
      "opens_remove_by_cid cid p =
         (Some (k, op), p\<lparr>ps_by_service := AList.delete k (ps_by_service p)\<rparr>)"
proof (cases "find (\<lambda>(service, op). po_cid op = cid) (ps_by_service p)")
  case None
  then show ?thesis using that(1) by (simp add: opens_remove_by_cid_def)
next
  case (Some e)
  obtain k op where e: "e = (k, op)" by (cases e)
  from find_SomeE [OF Some] have "k \<in> fst ` set (ps_by_service p)" by (force simp: e)
  then obtain op' where "map_of (ps_by_service p) k = Some op'" by (metis map_of_eq_None_iff option.exhaust)
  then show ?thesis using that(2) [of k op'] Some e
    by (simp add: opens_remove_by_cid_def map_of_SomeD)
qed

lemma world_inv_status:
  assumes inv: "world_inv w"
  shows "world_inv (handle_service_status opened cid reason w)"
proof (cases rule: opens_remove_by_cid_cases [of cid "sw_opens w"])
  case 1
  then show ?thesis using inv by (simp add: handle_service_status_def)
next
  case (2 k op)
  have "svc_inv (AList.delete k (ps_by_service (sw_opens w))) (os_next (sw_cells w))
    (os_cell (sw_cells w))
    (\<lparr>fl_service = k, fl_open = op, fl_insert = opened,
      fl_outcome = status_outcome opened k reason, fl_owner = None\<rparr> # sw_flights w)
    (sw_waiting w) (sw_home w)"
    by (rule svc_inv_take [OF inv [unfolded world_inv_def] 2(1)]) auto
  with 2(3) show ?thesis
    by (simp add: handle_service_status_def world_inv_def)
qed

lemma world_inv_fail_all: "world_inv w \<Longrightarrow> world_inv (fail_pending_service_opens reason w)"
  unfolding world_inv_def fail_pending_service_opens_def opens_drain_def Let_def
  by (simp add: svc_inv_drain)

lemma world_inv_advance:
  assumes inv: "world_inv w" and fs: "sw_flights w = before @ f # after"
  shows "world_inv (advance_flight f before after w)"
proof -
  note inv' = inv [unfolded world_inv_def fs]
  show ?thesis
  proof (cases "fl_insert f")
    case True
    have "svc_inv (ps_by_service (sw_opens w)) (os_next (sw_cells w)) (os_cell (sw_cells w))
      (before @ f\<lparr>fl_insert := False\<rparr> # after) (sw_waiting w) (sw_home w)"
      by (rule svc_inv_flights [OF inv']) auto
    with True show ?thesis by (simp add: advance_flight_def world_inv_def)
  next
    case False
    show ?thesis
    proof (cases "po_waiters (fl_open f)")
      case (Cons x xs)
      from svc_inv_send [OF inv' Cons refl refl, of "fl_outcome f"] False Cons show ?thesis
        by (simp add: advance_flight_def world_inv_def cell_ops split: if_splits)
    next
      case Nil
      have "svc_inv (ps_by_service (sw_opens w)) (os_next (sw_cells w)) (os_cell (sw_cells w))
        (before @ after) (sw_waiting w) (sw_home w)"
        by (rule svc_inv_flights [OF inv']) (auto simp: Nil)
      then have w1: "world_inv (w\<lparr>sw_flights := before @ after\<rparr>)" by (simp add: world_inv_def)
      have "world_inv (return_waiter wt r (w\<lparr>sw_flights := before @ after\<rparr>))"
        if "fl_owner f = Some wt" for wt r
      proof -
        have "sw_home w (fst wt) = snd wt" "wt \<notin> set (sw_waiting w)"
          using svc_invD(8) [OF inv' _ that] by auto
        then have "world_inv (drop_waiter wt (w\<lparr>sw_flights := before @ after\<rparr>))"
          using forget_waiter_others [OF inv, of wt] by (intro world_inv_drop_waiter w1) auto
        then show ?thesis by (simp add: return_waiter_def)
      qed
      with False Nil w1 show ?thesis
        by (simp add: advance_flight_def Let_def split: option.split)
    qed
  qed
qed

text \<open>Registration, by cases on the pending attempt.\<close>

lemma retain_open_fresh:
  assumes "\<And>x. x \<in> set (po_waiters op) \<Longrightarrow> x < os_next h"
  shows "retain_open (snd (oneshot_channel h)) op = retain_open h op"
proof -
  have "filter (\<lambda>x. \<not> tx_is_closed (snd (oneshot_channel h)) x) (po_waiters op) =
      filter (\<lambda>x. \<not> tx_is_closed h x) (po_waiters op)"
    by (rule filter_cong) (use assms in \<open>auto simp: cell_ops\<close>)
  then show ?thesis by (simp only: retain_open_def)
qed

lemma svc_inv_register:
  assumes inv: "svc_inv (ps_by_service p) (os_next h) (os_cell h) fs ws home"
    and reg: "opens_register name p h = ((should_open, cid, rx), p', h')"
  shows "svc_inv (ps_by_service p') (os_next h') (os_cell h') fs ((rx, name, cid) # ws)
           (home(rx := (name, cid)))"
proof (cases "map_of (ps_by_service p) name")
  case None
  note D = svc_invD [OF inv]
  have k: "name \<notin> fst ` set (ps_by_service p)" using None by (simp add: map_of_eq_None_iff)
  have eqs: "rx = os_next h" "h' = snd (oneshot_channel h)" "cid = service_open_cid (ps_next_id p + 1)"
    "ps_by_service p' = AList.update name \<lparr>po_cid = cid, po_waiters = [rx]\<rparr> (ps_by_service p)"
    using reg None by (auto simp: opens_register_def oneshot_channel_def Let_def)
  have lt: "x < os_next h" if "(s, op) \<in> set (ps_by_service p)" "x \<in> set (po_waiters op)" for s op x
    using D(3) [of x] that by (force simp: in_table_senders)
  have "svc_inv (ps_by_service p') (os_next h + 1) ((os_cell h)(os_next h := Empty)) fs
      ((os_next h, name, cid) # ws) (home(os_next h := (name, cid)))"
  proof (rule svc_inv_add [OF inv])
    show "table_senders (ps_by_service p') = add_mset (os_next h) (table_senders (ps_by_service p))"
      by (simp add: eqs table_senders_update [OF D(1)] AList.delete_id [OF k])
    show "(home(os_next h := (name, cid))) x = (s, po_cid op)"
      if "(s, op) \<in> set (ps_by_service p')" "x \<in> set (po_waiters op)" for s op x
      using that D(4) [of s op x] lt [of s op x]
      by (auto simp: eqs set_alist_update [OF D(1)] AList.delete_id [OF k])
  qed (simp add: eqs AList.distinct_update [OF D(1)])
  then show ?thesis by (simp add: eqs oneshot_channel_def)
next
  case (Some op)
  let ?bs = "AList.update name (retain_open h op) (ps_by_service p)"
  have inv2: "svc_inv ?bs (os_next h) (os_cell h) fs ws home" by (rule svc_inv_retain(1) [OF inv Some])
  note D = svc_invD [OF inv2] and E = svc_invD [OF inv]
  have lt: "x < os_next h" if "x \<in> set (po_waiters op)" for x
    using E(3) [of x] that map_of_SomeD [OF Some] by (force simp: in_table_senders)
  have lt2: "x < os_next h" if "(s, op) \<in> set ?bs" "x \<in> set (po_waiters op)" for s op x
    using D(3) [of x] that by (force simp: in_table_senders)
  have mem: "(name, retain_open h op) \<in> set ?bs" by (simp add: set_alist_update [OF E(1)])
  have eqs: "rx = os_next h" "h' = snd (oneshot_channel h)" "cid = po_cid (retain_open h op)"
    "ps_by_service p' = AList.update name
       ((retain_open h op)\<lparr>po_waiters := po_waiters (retain_open h op) @ [rx]\<rparr>) ?bs"
    using reg Some retain_open_fresh [of op h, OF lt]
    by (auto simp: opens_register_def oneshot_channel_def Let_def AList.update_last)
  have "svc_inv (ps_by_service p') (os_next h + 1) ((os_cell h)(os_next h := Empty)) fs
      ((os_next h, name, cid) # ws) (home(os_next h := (name, cid)))"
  proof (rule svc_inv_add [OF inv2])
    show "table_senders (ps_by_service p') = add_mset (os_next h) (table_senders ?bs)"
      by (simp add: eqs table_senders_update [OF E(1)])
    show "(home(os_next h := (name, cid))) x = (s, po_cid op')"
      if "(s, op') \<in> set (ps_by_service p')" "x \<in> set (po_waiters op')" for s op' x
    proof (cases "(s, op') \<in> set ?bs")
      case True
      then show ?thesis using D(4) [OF True that(2)] lt2 [OF True that(2)] by simp
    next
      case False
      then have "s = name" "po_cid op' = cid" "x \<in> set (po_waiters (retain_open h op)) \<or> x = os_next h"
        using that by (auto simp: eqs set_alist_update [OF E(1)])
      then show ?thesis using D(4) [OF mem, of x] lt2 [OF mem, of x] by (auto simp: eqs)
    qed
  qed (simp add: eqs AList.distinct_update [OF E(1)])
  then show ?thesis by (simp add: eqs oneshot_channel_def)
qed

lemma opens_register_created:
  assumes "opens_register name p h = ((True, cid, rx), p', h')" "distinct (map fst (ps_by_service p))"
  shows "map_of (ps_by_service p) name = None" "rx = os_next h" "h' = snd (oneshot_channel h)"
    "p' = \<lparr>ps_next_id = ps_next_id p + 1,
           ps_by_service = AList.update name \<lparr>po_cid = cid, po_waiters = [rx]\<rparr> (ps_by_service p)\<rparr>"
    "cid = service_open_cid (ps_next_id p + 1)"
  using assms by (auto simp: opens_register_def oneshot_channel_def Let_def split: option.splits)

lemma world_inv_register:
  assumes inv: "world_inv w"
  shows "world_inv (ensure_register name sdk w)"
proof (cases "name \<in> set (sw_open_services w)")
  case True
  then show ?thesis using inv by (simp add: ensure_register_def)
next
  case False
  obtain should_open cid rx p h where
    reg: "opens_register name (sw_opens w) (sw_cells w) = ((should_open, cid, rx), p, h)"
    by (metis prod_cases3)
  note inv' = inv [unfolded world_inv_def]
  note plain = svc_inv_register [OF inv' reg]
  show ?thesis
  proof (cases "should_open \<and> sdk \<noteq> None")
    case False
    with plain reg \<open>name \<notin> set (sw_open_services w)\<close> show ?thesis
      by (auto simp: ensure_register_def world_inv_def Let_def split: option.split)
  next
    case True
    then obtain e where so: should_open and sdk: "sdk = Some e" by auto
    note C = opens_register_created [OF reg [simplified so] svc_invD(1) [OF inv']]
    have k: "name \<notin> fst ` set (ps_by_service (sw_opens w))" using C(1) by (simp add: map_of_eq_None_iff)
    have rem: "opens_remove name cid p =
      (Some \<lparr>po_cid = cid, po_waiters = [rx]\<rparr>, p\<lparr>ps_by_service := ps_by_service (sw_opens w)\<rparr>)"
      by (simp add: opens_remove_def C(4) AList.update_conv' AList.delete_update_same AList.delete_id [OF k])
    have "svc_inv (ps_by_service (sw_opens w)) (os_next (sw_cells w) + 1)
      ((os_cell (sw_cells w))(os_next (sw_cells w) := RxClosed)) (sw_flights w) (sw_waiting w)
      ((sw_home w)(os_next (sw_cells w) := (name, cid)))"
      by (rule svc_inv_fresh [OF inv'])
    with so sdk reg \<open>name \<notin> set (sw_open_services w)\<close> rem show ?thesis
      by (simp add: ensure_register_def world_inv_def Let_def po_drop_def C(2,3) cell_ops)
  qed
qed

lemma world_inv_step: "service_step w w' \<Longrightarrow> world_inv w \<Longrightarrow> world_inv w'"
  by (induction rule: service_step.induct)
    (auto intro: world_inv_register world_inv_drop_waiting world_inv_elapse world_inv_status
      world_inv_fail_all world_inv_advance)

lemma world_inv_reach: "service_reach w \<Longrightarrow> world_inv w"
  by (induction rule: service_reach.induct) (auto intro: world_inv_init world_inv_step)


section \<open>Success is reported only for an open service\<close>

definition success_inv :: "service_world \<Rightarrow> bool" where
  "success_inv w \<longleftrightarrow>
     (\<forall>wt \<in> set (sw_waiting w). os_cell (sw_cells w) (fst wt) = Sent (Inr ()) \<longrightarrow>
        fst (snd wt) \<in> set (sw_open_services w)) \<and>
     (\<forall>f \<in> set (sw_flights w). fl_outcome f = Inr () \<longrightarrow>
        fl_insert f \<or> fl_service f \<in> set (sw_open_services w)) \<and>
     (\<forall>r \<in> set (sw_returned w). snd (snd r) = Inr () \<longrightarrow> fst (snd r) \<in> set (sw_open_services w))"

lemma success_inv_init: "success_inv (service_world_init warm)"
  by (simp add: success_inv_def service_world_init_def)

lemma drop_waiter_fields [simp]:
  "sw_waiting (drop_waiter wt w) = sw_waiting w" "sw_flights (drop_waiter wt w) = sw_flights w"
  "sw_open_services (drop_waiter wt w) = sw_open_services w" "sw_home (drop_waiter wt w) = sw_home w"
  "sw_returned (drop_waiter wt w) = sw_returned w" "sw_calls (drop_waiter wt w) = sw_calls w"
  "sw_cells (drop_waiter wt w) = rx_drop (fst wt) (sw_cells w)"
  "sw_opens (drop_waiter wt w) = prune_for wt (rx_drop (fst wt) (sw_cells w)) (sw_opens w)"
  by (simp_all add: drop_waiter_def waiter_drop_def Let_def)

lemma forget_waiter_fields [simp]:
  "sw_waiting (forget_waiter wt w) = removeAll wt (sw_waiting w)" "sw_flights (forget_waiter wt w) = sw_flights w"
  "sw_open_services (forget_waiter wt w) = sw_open_services w" "sw_home (forget_waiter wt w) = sw_home w"
  "sw_returned (forget_waiter wt w) = sw_returned w" "sw_calls (forget_waiter wt w) = sw_calls w"
  "sw_cells (forget_waiter wt w) = sw_cells w" "sw_opens (forget_waiter wt w) = sw_opens w"
  by (simp_all add: forget_waiter_def)

lemma return_waiter_fields [simp]:
  "sw_waiting (return_waiter wt r w) = sw_waiting w" "sw_flights (return_waiter wt r w) = sw_flights w"
  "sw_open_services (return_waiter wt r w) = sw_open_services w" "sw_home (return_waiter wt r w) = sw_home w"
  "sw_returned (return_waiter wt r w) = sw_returned w @ [(fst wt, fst (snd wt), r)]"
  "sw_calls (return_waiter wt r w) = sw_calls w"
  "sw_cells (return_waiter wt r w) = rx_drop (fst wt) (sw_cells w)"
  "sw_opens (return_waiter wt r w) = prune_for wt (rx_drop (fst wt) (sw_cells w)) (sw_opens w)"
  by (simp_all add: return_waiter_def)

lemma rx_drop_Sent [simp]: "os_cell (rx_drop rx h) x = Sent r \<longleftrightarrow> x \<noteq> rx \<and> os_cell h x = Sent r"
  by (simp add: cell_ops)

lemma success_inv_drop:
  assumes "success_inv w"
  shows "success_inv (drop_waiter wt w)"
    and "(r = Inr () \<Longrightarrow> fst (snd wt) \<in> set (sw_open_services w)) \<Longrightarrow> success_inv (return_waiter wt r w)"
  using assms by (auto simp: success_inv_def)

lemma success_inv_return_err: "success_inv w \<Longrightarrow> success_inv (return_waiter wt (Inl e) w)"
  by (rule success_inv_drop(2)) simp_all

lemma success_inv_forget: "success_inv w \<Longrightarrow> success_inv (forget_waiter wt w)"
  by (auto simp: success_inv_def)

lemma fold_tx_drop_Sent: "os_cell (fold tx_drop xs h) x = Sent r \<longleftrightarrow> os_cell h x = Sent r"
  by (induction xs arbitrary: h) (auto simp: cell_ops)

lemma po_drop_Sent [simp]: "os_cell (po_drop op h) x = Sent r \<longleftrightarrow> os_cell h x = Sent r"
  by (simp add: po_drop_def fold_tx_drop_Sent)

lemma oneshot_channel_Sent [simp]:
  "os_cell (snd (oneshot_channel h)) x = Sent r \<longleftrightarrow> x \<noteq> os_next h \<and> os_cell h x = Sent r"
  by (simp add: oneshot_channel_def)

lemma success_inv_register:
  assumes "success_inv w"
  shows "success_inv (ensure_register name sdk w)"
proof -
  obtain should_open cid rx p h where
    reg: "opens_register name (sw_opens w) (sw_cells w) = ((should_open, cid, rx), p, h)"
    by (metis prod_cases3)
  have h: "rx = os_next (sw_cells w)" "h = snd (oneshot_channel (sw_cells w))"
    using reg by (auto simp: opens_register_def oneshot_channel_def Let_def split: option.splits)
  from assms show ?thesis
    unfolding ensure_register_def reg
    by (auto simp: success_inv_def Let_def h split: option.splits prod.splits)
qed

lemma success_inv_elapse: "success_inv w \<Longrightarrow> success_inv (elapse_waiter wt w)"
proof (cases rule: opens_remove_cases [of "fst (snd wt)" "snd (snd wt)" "sw_opens w"])
  case 1
  assume "success_inv w"
  with 1 show ?thesis
    by (simp add: elapse_waiter_def success_inv_return_err success_inv_forget)
next
  case (2 op)
  assume "success_inv w"
  with 2 show ?thesis by (auto simp: elapse_waiter_def success_inv_def)
qed

lemma success_inv_status: "success_inv w \<Longrightarrow> success_inv (handle_service_status opened cid reason w)"
  by (cases rule: opens_remove_by_cid_cases [of cid "sw_opens w"])
    (auto simp: handle_service_status_def success_inv_def status_outcome_def)

lemma success_inv_fail_all: "success_inv w \<Longrightarrow> success_inv (fail_pending_service_opens reason w)"
  by (auto simp: fail_pending_service_opens_def opens_drain_def failure_flight_def success_inv_def)

lemma success_inv_advance:
  assumes suc: "success_inv w" and inv: "world_inv w" and fs: "sw_flights w = before @ f # after"
  shows "success_inv (advance_flight f before after w)"
proof (cases "\<not> fl_insert f \<and> po_waiters (fl_open f) \<noteq> []")
  case True
  then obtain x xs where x: "po_waiters (fl_open f) = x # xs" and ins: "\<not> fl_insert f"
    by (auto simp: neq_Nil_conv)
  note D = svc_invD [OF inv [unfolded world_inv_def]]
  have home: "fst (snd wt) = fl_service f" if "wt \<in> set (sw_waiting w)" "fst wt = x" for wt
    using D(5) [of f x] D(6) [OF that(1)] that(2) by (cases wt) (simp add: fs x)
  have "fl_service f \<in> set (sw_open_services w)" if "fl_outcome f = Inr ()"
    using suc that ins by (auto simp: success_inv_def fs)
  with suc home show ?thesis
    by (auto simp: advance_flight_def x ins success_inv_def fs cell_ops)
next
  case False
  then consider (insert) "fl_insert f" | (finish) "\<not> fl_insert f" "po_waiters (fl_open f) = []" by blast
  then show ?thesis
  proof cases
    case insert
    with suc show ?thesis by (auto simp: advance_flight_def success_inv_def fs)
  next
    case finish
    have "success_inv (w\<lparr>sw_flights := before @ after\<rparr>)" using suc by (auto simp: success_inv_def fs)
    with finish show ?thesis
      by (simp add: advance_flight_def Let_def success_inv_return_err split: option.split)
  qed
qed

lemma success_inv_step: "service_step w w' \<Longrightarrow> world_inv w \<Longrightarrow> success_inv w \<Longrightarrow> success_inv w'"
proof (induction rule: service_step.induct)
  case (receive wt w r)
  then have "r = Inr () \<Longrightarrow> fst (snd wt) \<in> set (sw_open_services w)" by (auto simp: success_inv_def)
  with receive show ?case by (simp add: success_inv_drop success_inv_forget)
qed (simp_all add: success_inv_register success_inv_drop success_inv_return_err success_inv_forget success_inv_elapse
    success_inv_status success_inv_fail_all success_inv_advance)

lemma success_inv_reach: "service_reach w \<Longrightarrow> success_inv w"
  by (induction rule: service_reach.induct)
    (auto intro: success_inv_init success_inv_step world_inv_reach)


end
