(* ===== verification/Service_Open_Props.thy ===== *)
theory Service_Open_Props
  imports Service_Open_Inv
begin

text \<open>
  The identifiers of service-open attempts, and what the service-open protocol guarantees to
  the tasks that wait for a service.
\<close>

section \<open>Every attempt has its own identifier\<close>

lemma service_open_cid_inj:
  assumes "service_open_cid (of_nat i) = service_open_cid (of_nat j)" "i < 2 ^ 62" "j < 2 ^ 62"
  shows "i = j"
proof -
  have "bit i n \<longleftrightarrow> bit j n" for n
  proof (cases "n < 62")
    case True
    have "bit (service_open_cid (of_nat i)) n \<longleftrightarrow> bit (service_open_cid (of_nat j)) n"
      using assms(1) by simp
    with True show ?thesis by (simp add: bit_service_open_cid bit_of_nat_iff)
  next
    case False
    then have "(2::nat) ^ 62 \<le> 2 ^ n" by (intro power_increasing) auto
    then have "i < 2 ^ n" "j < 2 ^ n" using assms(2,3) by linarith+
    then show ?thesis by (simp add: bit_iff_odd)
  qed
  then show ?thesis by (rule bit_eqI)
qed

definition calls_inv :: "service_world \<Rightarrow> bool" where
  "calls_inv w \<longleftrightarrow>
     ps_next_id (sw_opens w) = of_nat (length (sw_calls w)) \<and>
     map snd (sw_calls w) = map (\<lambda>i. service_open_cid (of_nat (Suc i))) [0..<length (sw_calls w)] \<and>
     (\<forall>e \<in> set (ps_by_service (sw_opens w)). (fst e, po_cid (snd e)) \<in> set (sw_calls w))"

text \<open>Everything but registration only takes entries out of the table or trims them.\<close>

definition table_shrinks :: "pending_service_opens \<Rightarrow> pending_service_opens \<Rightarrow> bool" where
  "table_shrinks p p' \<longleftrightarrow> ps_next_id p' = ps_next_id p \<and>
     (\<forall>e' \<in> set (ps_by_service p'). \<exists>e \<in> set (ps_by_service p). fst e = fst e' \<and> po_cid (snd e) = po_cid (snd e'))"

lemma table_shrinks_refl [simp]: "table_shrinks p p"
  by (auto simp: table_shrinks_def)

lemma table_shrinks_delete [simp]:
  "table_shrinks p (p\<lparr>ps_by_service := AList.delete k (ps_by_service p)\<rparr>)"
  using set_alist_delete_subset [of k "ps_by_service p"] by (auto simp: table_shrinks_def)

lemma set_alist_update_subset: "set (AList.update k v bs) \<subseteq> insert (k, v) (set bs)"
  by (induction bs) auto

lemma table_shrinks_update:
  assumes "map_of (ps_by_service p) k = Some op" "po_cid op' = po_cid op"
  shows "table_shrinks p (p\<lparr>ps_by_service := AList.update k op' (ps_by_service p)\<rparr>)"
proof -
  have "\<exists>e \<in> set (ps_by_service p). fst e = fst e' \<and> po_cid (snd e) = po_cid (snd e')"
    if "e' \<in> set (AList.update k op' (ps_by_service p))" for e'
  proof (cases "e' = (k, op')")
    case True
    then show ?thesis using map_of_SomeD [OF assms(1)] assms(2) by (intro bexI [of _ "(k, op)"]) simp_all
  next
    case False
    then have "e' \<in> set (ps_by_service p)" using that set_alist_update_subset [of k op' "ps_by_service p"] by blast
    then show ?thesis by blast
  qed
  then show ?thesis by (simp add: table_shrinks_def)
qed

lemma table_shrinks_prune [simp]: "table_shrinks p (opens_prune k cid h p)"
  by (simp add: opens_prune_def Let_def table_shrinks_update retain_open_def split: option.split)

lemma calls_inv_shrinks:
  "calls_inv w \<Longrightarrow> table_shrinks (sw_opens w) (sw_opens w') \<Longrightarrow> sw_calls w' = sw_calls w \<Longrightarrow> calls_inv w'"
  by (simp add: calls_inv_def table_shrinks_def) fastforce

lemma table_shrinks_remove [simp]: "table_shrinks p (snd (opens_remove k cid p))"
  by (cases rule: opens_remove_cases [of k cid p]) simp_all

lemma table_shrinks_remove_by_cid [simp]: "table_shrinks p (snd (opens_remove_by_cid cid p))"
  by (cases rule: opens_remove_by_cid_cases [of cid p]) simp_all

lemma table_shrinks_elapse [simp]: "table_shrinks (sw_opens w) (sw_opens (elapse_waiter wt w))"
  by (cases rule: opens_remove_cases [of "fst (snd wt)" "snd (snd wt)" "sw_opens w"])
    (simp_all add: elapse_waiter_def)

lemma table_shrinks_status [simp]:
  "table_shrinks (sw_opens w) (sw_opens (handle_service_status opened cid reason w))"
  by (cases rule: opens_remove_by_cid_cases [of cid "sw_opens w"])
    (simp_all add: handle_service_status_def)

lemma table_shrinks_fail [simp]:
  "table_shrinks (sw_opens w) (sw_opens (fail_pending_service_opens reason w))"
  by (simp add: fail_pending_service_opens_def opens_drain_def table_shrinks_def)

lemma table_shrinks_advance [simp]:
  "table_shrinks (sw_opens w) (sw_opens (advance_flight f before after w))"
  by (simp add: advance_flight_def Let_def split: list.split option.split)

lemma same_calls [simp]:
  "sw_calls (elapse_waiter wt w) = sw_calls w"
  "sw_calls (handle_service_status opened cid reason w) = sw_calls w"
  "sw_calls (fail_pending_service_opens why w) = sw_calls w"
  "sw_calls (advance_flight f before after w) = sw_calls w"
  by (simp_all add: elapse_waiter_def handle_service_status_def fail_pending_service_opens_def
      opens_drain_def advance_flight_def Let_def split: option.split list.split prod.split)

lemma calls_inv_register:
  assumes inv: "calls_inv w" and winv: "world_inv w"
  shows "calls_inv (ensure_register name sdk w)"
proof -
  obtain should_open cid rx p h where
    reg: "opens_register name (sw_opens w) (sw_cells w) = ((should_open, cid, rx), p, h)"
    by (metis prod_cases3)
  note dis = svc_invD(1) [OF winv [unfolded world_inv_def]]
  show ?thesis
  proof (cases should_open)
    case False
    have "table_shrinks (sw_opens w) p"
    proof (cases "map_of (ps_by_service (sw_opens w)) name")
      case None
      with reg False show ?thesis by (auto simp: opens_register_def Let_def oneshot_channel_def)
    next
      case (Some op)
      with reg table_shrinks_update [OF Some] show ?thesis
        by (auto simp: opens_register_def Let_def oneshot_channel_def retain_open_def)
    qed
    then show ?thesis
      by (intro calls_inv_shrinks [OF inv]) (simp_all add: ensure_register_def reg False Let_def)
  next
    case True
    note C = opens_register_created [OF reg [simplified True] dis]
    let ?calls = "sw_calls w @ [(name, cid)]"
    have all: "calls_inv (w\<lparr>sw_opens := p, sw_calls := ?calls\<rparr>)"
    proof -
      have "(fst e, po_cid (snd e)) \<in> set ?calls" if "e \<in> set (ps_by_service p)" for e
        using that set_alist_update_subset [of name "\<lparr>po_cid = cid, po_waiters = [rx]\<rparr>" "ps_by_service (sw_opens w)"]
          inv by (auto simp: C(4) calls_inv_def)
      then show ?thesis using inv by (simp add: calls_inv_def C(4,5) add.commute)
    qed
    have "calls_inv w'" if "sw_opens w' \<in> {p, snd (opens_remove name cid p)}" "sw_calls w' = ?calls" for w'
      by (rule calls_inv_shrinks [OF all]) (use that in auto)
    with inv show ?thesis
      by (auto simp: ensure_register_def reg True Let_def split: option.split prod.split)
  qed
qed

lemma step_shrinks:
  "service_step w w' \<Longrightarrow> (\<exists>name sdk. w' = ensure_register name sdk w) \<or>
     table_shrinks (sw_opens w) (sw_opens w') \<and> sw_calls w' = sw_calls w"
proof (induction rule: service_step.induct)
  case (register w name sdk)
  then show ?case by blast
qed simp_all

lemma calls_inv_step: "service_step w w' \<Longrightarrow> calls_inv w \<Longrightarrow> world_inv w \<Longrightarrow> calls_inv w'"
  using step_shrinks [of w w'] calls_inv_register [of w] calls_inv_shrinks [of w w'] by blast

lemma calls_inv_reach: "service_reach w \<Longrightarrow> calls_inv w"
proof (induction rule: service_reach.induct)
  case (init warm)
  then show ?case by (simp add: calls_inv_def service_world_init_def opens_default_def)
qed (auto intro: calls_inv_step world_inv_reach)


section \<open>Properties\<close>

lemma one_waiter_reach:
  "service_reach (ensure_register ''s'' None (service_world_init []))"
  by (rule service_reach.step [OF service_reach.init service_step.register])

lemma one_waiter_state:
  "ensure_register ''s'' None (service_world_init []) =
     \<lparr>sw_opens = \<lparr>ps_next_id = 1,
        ps_by_service = [(''s'', \<lparr>po_cid = service_open_cid 1, po_waiters = [0]\<rparr>)]\<rparr>,
      sw_cells = \<lparr>os_next = 1, os_cell = (\<lambda>_. RxClosed)(0 := Empty)\<rparr>, sw_open_services = [],
      sw_waiting = [(0, ''s'', service_open_cid 1)], sw_flights = [],
      sw_calls = [(''s'', service_open_cid 1)], sw_returned = [],
      sw_home = (\<lambda>_. ([], 0))(0 := (''s'', service_open_cid 1))\<rparr>"
  by (simp add: ensure_register_def service_world_init_def opens_register_def oneshot_channel_def
      opens_default_def oneshots_empty_def Let_def)

text \<open>C9: no task waiting for a service is ever stranded: in every reachable state its channel
  has not been dropped, and while it is unanswered its sender sits in the pending attempt the
  task registered with, or in a completion of that very attempt that is still running.\<close>

theorem service_waiter_never_stranded:
  assumes "service_reach w" and "(rx, name, cid) \<in> set (sw_waiting w)"
  shows "os_cell (sw_cells w) rx \<noteq> TxClosed \<and>
    (os_cell (sw_cells w) rx = Empty \<longrightarrow>
       (\<exists>op. map_of (ps_by_service (sw_opens w)) name = Some op \<and> po_cid op = cid \<and>
          rx \<in> set (po_waiters op)) \<or>
       (\<exists>f \<in> set (sw_flights w). fl_service f = name \<and> po_cid (fl_open f) = cid \<and>
          rx \<in> set (po_waiters (fl_open f))))"
proof -
  note D = svc_invD [OF world_inv_reach [OF assms(1), unfolded world_inv_def]]
  have home: "sw_home w rx = (name, cid)" using D(6) [OF assms(2)] by simp
  have table: "\<exists>op. map_of (ps_by_service (sw_opens w)) name = Some op \<and> po_cid op = cid \<and> rx \<in> set (po_waiters op)"
    if mem: "rx \<in># table_senders (ps_by_service (sw_opens w))"
  proof -
    obtain s op where e: "(s, op) \<in> set (ps_by_service (sw_opens w))" "rx \<in> set (po_waiters op)"
      using mem by (auto simp: in_table_senders)
    from D(4) [OF e] home have "s = name" "po_cid op = cid" by simp_all
    with e D(1) show ?thesis by auto
  qed
  have flights: "\<exists>f \<in> set (sw_flights w). fl_service f = name \<and> po_cid (fl_open f) = cid \<and> rx \<in> set (po_waiters (fl_open f))"
    if mem: "rx \<in># flight_senders (sw_flights w)"
    using mem D(5) home by (fastforce simp: in_flight_senders)
  from D(7) [OF assms(2)] table flights show ?thesis by auto
qed

theorem service_waiter_never_stranded_witness:
  "\<exists>w rx name cid. service_reach w \<and> (rx, name, cid) \<in> set (sw_waiting w) \<and>
     os_cell (sw_cells w) rx = Empty \<and>
     ((\<exists>op. map_of (ps_by_service (sw_opens w)) name = Some op \<and> po_cid op = cid \<and>
          rx \<in> set (po_waiters op)) \<or>
       (\<exists>f \<in> set (sw_flights w). fl_service f = name \<and> po_cid (fl_open f) = cid \<and>
          rx \<in> set (po_waiters (fl_open f))))"
proof -
  let ?w = "ensure_register ''s'' None (service_world_init [])"
  have w: "(0, ''s'', service_open_cid 1) \<in> set (sw_waiting ?w)" "os_cell (sw_cells ?w) 0 = Empty"
    by (simp_all add: one_waiter_state)
  from service_waiter_never_stranded [OF one_waiter_reach w(1)] w one_waiter_reach show ?thesis by blast
qed

text \<open>C11: \<open>ensure_service\<close> reports success to a waiting task only when the SDK has confirmed the
  service: in every reachable state a task that was answered \<open>Ok\<close> asked for a service that is
  in the set of open services.\<close>

theorem service_success_only_when_open:
  assumes "service_reach w" and "(rx, name, Inr ()) \<in> set (sw_returned w)"
  shows "name \<in> set (sw_open_services w)"
  using success_inv_reach [OF assms(1)] assms(2) by (force simp: success_inv_def)

lemma answered_run:
  "\<exists>w. service_reach w \<and> sw_returned w = [(0, ''s'', Inr ())] \<and> sw_open_services w = [''s'']"
proof -
  let ?c = "service_open_cid 1"
  let ?w1 = "ensure_register ''s'' None (service_world_init [])"
  let ?w2 = "handle_service_status True ?c None ?w1"
  have r2: "service_reach ?w2" by (rule service_reach.step [OF one_waiter_reach service_step.status])
  define f where "f = \<lparr>fl_service = ''s'', fl_open = \<lparr>po_cid = ?c, po_waiters = [0]\<rparr>,
    fl_insert = True, fl_outcome = Inr () :: outcome, fl_owner = None\<rparr>"
  have f: "sw_flights ?w2 = [] @ f # []" "fl_insert f" "fl_service f = ''s''"
    "fl_open f = \<lparr>po_cid = ?c, po_waiters = [0]\<rparr>" "fl_outcome f = Inr ()" "fl_owner f = None"
    "sw_waiting ?w2 = [(0, ''s'', ?c)]" "os_cell (sw_cells ?w2) 0 = Empty" "sw_open_services ?w2 = []"
    "sw_returned ?w2 = []"
    by (simp_all add: one_waiter_state handle_service_status_def opens_remove_by_cid_def
        status_outcome_def f_def)
  let ?w3 = "advance_flight f [] [] ?w2"
  have r3: "service_reach ?w3" by (rule service_reach.step [OF r2 service_step.advance [OF f(1)]])
  let ?g = "f\<lparr>fl_insert := False\<rparr>"
  have g: "sw_flights ?w3 = [] @ ?g # []" by (simp add: advance_flight_def f)
  let ?w4 = "advance_flight ?g [] [] ?w3"
  have r4: "service_reach ?w4" by (rule service_reach.step [OF r3 service_step.advance [OF g]])
  have w4: "(0, ''s'', ?c) \<in> set (sw_waiting ?w4)" "os_cell (sw_cells ?w4) (fst (0, ''s'', ?c)) = Sent (Inr ())"
    "sw_returned ?w4 = []" "sw_open_services ?w4 = [''s'']"
    using f by (simp_all add: advance_flight_def cell_ops)
  let ?w5 = "return_waiter (0, ''s'', ?c) (Inr ()) (forget_waiter (0, ''s'', ?c) ?w4)"
  have "service_reach ?w5"
    by (rule service_reach.step [OF r4 service_step.receive [OF w4(1,2)]])
  moreover have "sw_returned ?w5 = [(0, ''s'', Inr ())]" "sw_open_services ?w5 = [''s'']"
    using w4 by simp_all
  ultimately show ?thesis by blast
qed

theorem service_success_only_when_open_witness:
  "\<exists>w rx name. service_reach w \<and> (rx, name, Inr ()) \<in> set (sw_returned w) \<and>
     name \<in> set (sw_open_services w)"
proof -
  obtain w where w: "service_reach w" "sw_returned w = [(0, ''s'', Inr ())]" using answered_run by blast
  then have "(0, ''s'', Inr ()) \<in> set (sw_returned w)" by simp
  from service_success_only_when_open [OF w(1) this] this w(1) show ?thesis by blast
qed

text \<open>C10: as long as fewer than \<open>2 ^ 62\<close> opens were issued, every SDK call has its own
  correlation identifier, there is at most one pending attempt per service, and the pending
  attempt's identifier belongs to a call for that service; so a late answer or timeout of an
  earlier attempt cannot retire a newer one.\<close>

theorem service_attempts_unique:
  assumes "service_reach w" and "length (sw_calls w) < 2 ^ 62"
  shows "distinct (map snd (sw_calls w)) \<and>
    distinct (map fst (ps_by_service (sw_opens w))) \<and>
    (\<forall>(name, op) \<in> set (ps_by_service (sw_opens w)).
       (name, po_cid op) \<in> set (sw_calls w) \<and>
       (\<forall>other. (other, po_cid op) \<in> set (sw_calls w) \<longrightarrow> other = name) \<and>
       (\<forall>stale. (name, stale) \<in> set (sw_calls w) \<and> stale \<noteq> po_cid op \<longrightarrow>
          opens_remove name stale (sw_opens w) = (None, sw_opens w)))"
proof -
  note C = calls_inv_reach [OF assms(1), unfolded calls_inv_def]
  note keys = svc_invD(1) [OF world_inv_reach [OF assms(1), unfolded world_inv_def]]
  have "inj_on (\<lambda>i. service_open_cid (of_nat (Suc i))) {0..<length (sw_calls w)}"
    using assms(2) service_open_cid_inj by (force intro!: inj_onI simp del: of_nat_Suc)
  then have dis: "distinct (map snd (sw_calls w))"
    using C by (simp add: distinct_map del: of_nat_Suc)
  have own: "other = name" if "(name, c) \<in> set (sw_calls w)" "(other, c) \<in> set (sw_calls w)" for name other c
    using dis that by (metis distinct_map inj_onD prod.inject snd_conv)
  have "opens_remove name stale (sw_opens w) = (None, sw_opens w)"
    if "(name, op) \<in> set (ps_by_service (sw_opens w))" "stale \<noteq> po_cid op" for name op stale
    using that keys by (simp add: opens_remove_def)
  with C dis keys own show ?thesis by fastforce
qed

theorem service_attempts_unique_witness:
  "let w = ensure_register ''s'' None (service_world_init []) in
     distinct (map snd (sw_calls w)) \<and> (''s'', service_open_cid 1) \<in> set (sw_calls w) \<and>
     map_of (ps_by_service (sw_opens w)) ''s'' \<noteq> None"
proof -
  let ?w = "ensure_register ''s'' None (service_world_init [])"
  have n: "length (sw_calls ?w) < 2 ^ 62" by (simp add: one_waiter_state)
  from service_attempts_unique [OF one_waiter_reach n] show ?thesis
    by (simp add: one_waiter_state Let_def)
qed

end
