(* ===== verification/Services.thy ===== *)
theory Services
  imports Xbbg_Prelude
begin

text \<open>
  The service, operation, extractor and output-format enums (services.rs) with their wire
  names: \<open>as_str\<close>, \<open>FromStr\<close> and the serde implementations, which are the same two
  functions, and the defaults an operation carries.
\<close>

section \<open>Field bundles\<close>

definition CDX_INFO_FIELDS :: "string list" where
  "CDX_INFO_FIELDS =
    [''ROLLING_SERIES'',
     ''VERSION'',
     ''ON_THE_RUN_CURRENT_BD_INDICATOR'',
     ''CDS_FIRST_ACCRUAL_START_DATE'',
     ''NAME'',
     ''NUM_CURRENT_COMPANIES_CCY_TKR'',
     ''NUM_ORIG_COMPANIES_CRNCY_TKR'',
     ''PX_LAST'']"

definition CDX_PRICING_FIELDS :: "string list" where
  "CDX_PRICING_FIELDS =
    [''PX_LAST'',
     ''PX_BID'',
     ''PX_ASK'',
     ''UPFRONT_LAST'',
     ''UPFRONT_BID'',
     ''UPFRONT_ASK'',
     ''CDS_FLAT_SPREAD'',
     ''UPFRONT_FEE'',
     ''PV_CDS_PREMIUM_LEG'',
     ''PV_CDS_DEFAULT_LEG'']"

definition CDX_RISK_FIELDS :: "string list" where
  "CDX_RISK_FIELDS =
    [''SW_CNV_BPV'',
     ''SW_EQV_BPV'',
     ''CDS_SPREAD_MID_MODIFIED_DURATION'',
     ''CDS_SPREAD_MID_CONVEXITY'',
     ''RECOVERY_RATE_SEN'',
     ''CDS_RECOVERY_RT'']"

section \<open>Services\<close>

datatype service =
    ApiFlds
  | BqlSvc
  | ExrSvc
  | Instruments
  | MktBar
  | MktData
  | MktDepth
  | MktList
  | MktVwap
  | RefData
  | TaSvc
  | Custom string

fun service_as_str :: "service \<Rightarrow> string" where
  "service_as_str service.ApiFlds = ''//blp/apiflds''"
| "service_as_str service.BqlSvc = ''//blp/bqlsvc''"
| "service_as_str service.ExrSvc = ''//blp/exrsvc''"
| "service_as_str service.Instruments = ''//blp/instruments''"
| "service_as_str service.MktBar = ''//blp/mktbar''"
| "service_as_str service.MktData = ''//blp/mktdata''"
| "service_as_str service.MktDepth = ''//blp/mktdepthdata''"
| "service_as_str service.MktList = ''//blp/mktlist''"
| "service_as_str service.MktVwap = ''//blp/mktvwap''"
| "service_as_str service.RefData = ''//blp/refdata''"
| "service_as_str service.TaSvc = ''//blp/tasvc''"
| "service_as_str (service.Custom s) = s"

definition service_from_str :: "string \<Rightarrow> service" where
  "service_from_str s =
    (if s = ''//blp/apiflds'' then service.ApiFlds
     else if s = ''//blp/bqlsvc'' then service.BqlSvc
     else if s = ''//blp/exrsvc'' then service.ExrSvc
     else if s = ''//blp/instruments'' then service.Instruments
     else if s = ''//blp/mktbar'' then service.MktBar
     else if s = ''//blp/mktdata'' then service.MktData
     else if s = ''//blp/mktdepthdata'' then service.MktDepth
     else if s = ''//blp/mktlist'' then service.MktList
     else if s = ''//blp/mktvwap'' then service.MktVwap
     else if s = ''//blp/refdata'' then service.RefData
     else if s = ''//blp/tasvc'' then service.TaSvc
     else service.Custom s)"

definition service_serialize :: "service \<Rightarrow> string" where
  "service_serialize v = service_as_str v"

definition service_deserialize :: "string \<Rightarrow> service" where
  "service_deserialize s = service_from_str s"

section \<open>Extractors\<close>

datatype extractor_type =
    Bql
  | Bsrch
  | BulkData
  | FieldInfo
  | Generic
  | HistData
  | IntradayBar
  | IntradayTick
  | RefData

definition extractor_parse :: "string \<Rightarrow> extractor_type option" where
  "extractor_parse s =
    (if s = ''bql'' then Some extractor_type.Bql
     else if s = ''bsrch'' then Some extractor_type.Bsrch
     else if s = ''bulk'' then Some extractor_type.BulkData
     else if s = ''fieldinfo'' then Some extractor_type.FieldInfo
     else if s = ''generic'' then Some extractor_type.Generic
     else if s = ''histdata'' then Some extractor_type.HistData
     else if s = ''intraday_bar'' then Some extractor_type.IntradayBar
     else if s = ''intraday_tick'' then Some extractor_type.IntradayTick
     else if s = ''refdata'' then Some extractor_type.RefData
     else None)"

definition extractor_default :: extractor_type where
  "extractor_default = extractor_type.RefData"

section \<open>Operations\<close>

datatype operation =
    Beqs
  | BqlSendQuery
  | CurveList
  | ExcelGetGrid
  | FieldInfo
  | FieldSearch
  | GovtList
  | HistoricalData
  | InstrumentList
  | IntradayBar
  | IntradayTick
  | PortfolioData
  | RawRequest
  | ReferenceData
  | StudyRequest
  | Custom string

fun operation_as_str :: "operation \<Rightarrow> string" where
  "operation_as_str operation.Beqs = ''BeqsRequest''"
| "operation_as_str operation.BqlSendQuery = ''sendQuery''"
| "operation_as_str operation.CurveList = ''curveListRequest''"
| "operation_as_str operation.ExcelGetGrid = ''ExcelGetGridRequest''"
| "operation_as_str operation.FieldInfo = ''FieldInfoRequest''"
| "operation_as_str operation.FieldSearch = ''FieldSearchRequest''"
| "operation_as_str operation.GovtList = ''govtListRequest''"
| "operation_as_str operation.HistoricalData = ''HistoricalDataRequest''"
| "operation_as_str operation.InstrumentList = ''instrumentListRequest''"
| "operation_as_str operation.IntradayBar = ''IntradayBarRequest''"
| "operation_as_str operation.IntradayTick = ''IntradayTickRequest''"
| "operation_as_str operation.PortfolioData = ''PortfolioDataRequest''"
| "operation_as_str operation.RawRequest = ''''"
| "operation_as_str operation.ReferenceData = ''ReferenceDataRequest''"
| "operation_as_str operation.StudyRequest = ''studyRequest''"
| "operation_as_str (operation.Custom s) = s"

definition operation_from_str :: "string \<Rightarrow> operation" where
  "operation_from_str s =
    (if s = ''BeqsRequest'' then operation.Beqs
     else if s = ''sendQuery'' then operation.BqlSendQuery
     else if s = ''curveListRequest'' then operation.CurveList
     else if s = ''ExcelGetGridRequest'' then operation.ExcelGetGrid
     else if s = ''FieldInfoRequest'' then operation.FieldInfo
     else if s = ''FieldSearchRequest'' then operation.FieldSearch
     else if s = ''govtListRequest'' then operation.GovtList
     else if s = ''HistoricalDataRequest'' then operation.HistoricalData
     else if s = ''instrumentListRequest'' then operation.InstrumentList
     else if s = ''IntradayBarRequest'' then operation.IntradayBar
     else if s = ''IntradayTickRequest'' then operation.IntradayTick
     else if s = ''PortfolioDataRequest'' then operation.PortfolioData
     else if s = '''' then operation.RawRequest
     else if s = ''ReferenceDataRequest'' then operation.ReferenceData
     else if s = ''studyRequest'' then operation.StudyRequest
     else operation.Custom s)"

definition operation_serialize :: "operation \<Rightarrow> string" where
  "operation_serialize v = operation_as_str v"

definition operation_deserialize :: "string \<Rightarrow> operation" where
  "operation_deserialize s = operation_from_str s"

fun default_extractor :: "operation \<Rightarrow> extractor_type" where
  "default_extractor operation.Beqs = extractor_type.Generic"
| "default_extractor operation.BqlSendQuery = extractor_type.Bql"
| "default_extractor operation.CurveList = extractor_type.Generic"
| "default_extractor operation.ExcelGetGrid = extractor_type.Bsrch"
| "default_extractor operation.FieldInfo = extractor_type.FieldInfo"
| "default_extractor operation.FieldSearch = extractor_type.Generic"
| "default_extractor operation.GovtList = extractor_type.Generic"
| "default_extractor operation.HistoricalData = extractor_type.HistData"
| "default_extractor operation.InstrumentList = extractor_type.Generic"
| "default_extractor operation.IntradayBar = extractor_type.IntradayBar"
| "default_extractor operation.IntradayTick = extractor_type.IntradayTick"
| "default_extractor operation.PortfolioData = extractor_type.Generic"
| "default_extractor operation.RawRequest = extractor_type.Generic"
| "default_extractor operation.ReferenceData = extractor_type.RefData"
| "default_extractor operation.StudyRequest = extractor_type.Generic"
| "default_extractor (operation.Custom _) = extractor_type.Generic"

fun default_service :: "operation \<Rightarrow> service option" where
  "default_service operation.Beqs = Some service.RefData"
| "default_service operation.BqlSendQuery = Some service.BqlSvc"
| "default_service operation.CurveList = Some service.Instruments"
| "default_service operation.ExcelGetGrid = Some service.ExrSvc"
| "default_service operation.FieldInfo = Some service.ApiFlds"
| "default_service operation.FieldSearch = Some service.ApiFlds"
| "default_service operation.GovtList = Some service.Instruments"
| "default_service operation.HistoricalData = Some service.RefData"
| "default_service operation.InstrumentList = Some service.Instruments"
| "default_service operation.IntradayBar = Some service.RefData"
| "default_service operation.IntradayTick = Some service.RefData"
| "default_service operation.PortfolioData = Some service.RefData"
| "default_service operation.RawRequest = None"
| "default_service operation.ReferenceData = Some service.RefData"
| "default_service operation.StudyRequest = Some service.TaSvc"
| "default_service (operation.Custom _) = None"

section \<open>Output formats\<close>

datatype format = Long | LongTyped | LongWithMetadata | SemiLong

definition format_default :: format where
  "format_default = Long"

fun format_as_str :: "format \<Rightarrow> string" where
  "format_as_str Long = ''long''"
| "format_as_str LongTyped = ''long_typed''"
| "format_as_str LongWithMetadata = ''long_metadata''"
| "format_as_str SemiLong = ''semi_long''"

definition format_from_str :: "string \<Rightarrow> (format, string) result" where
  "format_from_str s =
    (if s = ''long'' then Inr Long
     else if s = ''long_typed'' \<or> s = ''typed'' then Inr LongTyped
     else if s = ''long_metadata'' \<or> s = ''metadata'' \<or> s = ''with_metadata'' then Inr LongWithMetadata
     else if s = ''semi_long'' \<or> s = ''wide'' then Inr SemiLong
     else Inl (''Unknown format: '' @ s))"

section \<open>Wire names\<close>

text \<open>A custom value is canonical when its text is not the name of a listed variant.\<close>

fun service_canonical :: "service \<Rightarrow> bool" where
  "service_canonical (service.Custom s) = (service_from_str s = service.Custom s)"
| "service_canonical _ = True"

fun operation_canonical :: "operation \<Rightarrow> bool" where
  "operation_canonical (operation.Custom s) = (operation_from_str s = operation.Custom s)"
| "operation_canonical _ = True"

lemma service_as_str_from_str [simp]: "service_as_str (service_from_str s) = s"
  by (simp add: service_from_str_def)

lemma operation_as_str_from_str [simp]: "operation_as_str (operation_from_str s) = s"
  by (simp add: operation_from_str_def)

lemma service_from_str_as_str: "service_canonical v \<Longrightarrow> service_from_str (service_as_str v) = v"
  by (cases v) (simp_all add: service_from_str_def)

lemma operation_from_str_as_str:
  "operation_canonical v \<Longrightarrow> operation_from_str (operation_as_str v) = v"
  by (cases v) (simp_all add: operation_from_str_def)

lemma service_from_str_canonical [simp]: "service_canonical (service_from_str s)"
  by (simp add: service_from_str_def)

lemma operation_from_str_canonical [simp]: "operation_canonical (operation_from_str s)"
  by (simp add: operation_from_str_def)

lemma format_from_str_as_str [simp]: "format_from_str (format_as_str f) = Inr f"
  by (cases f) (simp_all add: format_from_str_def)

text \<open>C17: parsing and printing are inverse on the wire names: printing a parsed service or
  operation gives the text back, parsing a printed one gives the value back exactly when it
  is not a custom value spelling a listed name, and every printed format parses to itself.\<close>

theorem wire_names_roundtrip:
  "service_serialize (service_deserialize s) = s \<and>
   operation_serialize (operation_deserialize s) = s \<and>
   (service_deserialize (service_serialize v) = v \<longleftrightarrow> service_canonical v) \<and>
   (operation_deserialize (operation_serialize q) = q \<longleftrightarrow> operation_canonical q) \<and>
   format_from_str (format_as_str f) = Inr f"
proof -
  have "service_from_str (service_as_str v) = v \<longleftrightarrow> service_canonical v"
    using service_from_str_as_str service_from_str_canonical by metis
  moreover have "operation_from_str (operation_as_str q) = q \<longleftrightarrow> operation_canonical q"
    using operation_from_str_as_str operation_from_str_canonical by metis
  ultimately show ?thesis
    by (simp add: service_serialize_def service_deserialize_def
        operation_serialize_def operation_deserialize_def)
qed

end
