(* ===== verification/Status.thy ===== *)
theory Status
  imports Xbbg_Prelude
begin

text \<open>
  Subscription status snapshots (engine/subscription_status.rs): the lifecycle enums, the
  snapshot with its topic indexes, event history and counters, every operation that changes
  it, and the handle through which workers publish snapshots.

  The clock is an argument: \<open>now\<close> is the value of \<open>timestamp_now_us\<close>, and the readings one
  operation takes agree. The shared \<open>SubscriptionMetrics\<close> objects are never looked into and
  are named by numbers. The counters keep their 64 bits and wrap.
\<close>

section \<open>Enums\<close>

datatype subscription_failure_kind = Failure | FailureTerminated

datatype topic_lifecycle_state =
  TopicPending | Started | Streaming | Unsubscribing | Unsubscribed | Failed | TopicTerminated

datatype session_lifecycle_state = Starting | Up | Down | SessionTerminated

datatype worker_health = Healthy | Degraded | Dead

datatype subscription_event_category =
  SessionCategory | ServiceCategory | AdminCategory | SubscriptionCategory | LifecycleCategory

datatype subscription_event_level = Info | Warning | Error

fun topic_lifecycle_as_str :: "topic_lifecycle_state \<Rightarrow> string" where
  "topic_lifecycle_as_str TopicPending = ''pending''"
| "topic_lifecycle_as_str Started = ''started''"
| "topic_lifecycle_as_str Streaming = ''streaming''"
| "topic_lifecycle_as_str Unsubscribing = ''unsubscribing''"
| "topic_lifecycle_as_str Unsubscribed = ''unsubscribed''"
| "topic_lifecycle_as_str Failed = ''failed''"
| "topic_lifecycle_as_str TopicTerminated = ''terminated''"

fun session_lifecycle_as_str :: "session_lifecycle_state \<Rightarrow> string" where
  "session_lifecycle_as_str Starting = ''starting''"
| "session_lifecycle_as_str Up = ''up''"
| "session_lifecycle_as_str Down = ''down''"
| "session_lifecycle_as_str SessionTerminated = ''terminated''"

fun worker_health_as_str :: "worker_health \<Rightarrow> string" where
  "worker_health_as_str Healthy = ''healthy''"
| "worker_health_as_str Degraded = ''degraded''"
| "worker_health_as_str Dead = ''dead''"

fun event_category_as_str :: "subscription_event_category \<Rightarrow> string" where
  "event_category_as_str SessionCategory = ''session''"
| "event_category_as_str ServiceCategory = ''service''"
| "event_category_as_str AdminCategory = ''admin''"
| "event_category_as_str SubscriptionCategory = ''subscription''"
| "event_category_as_str LifecycleCategory = ''lifecycle''"

fun event_level_as_str :: "subscription_event_level \<Rightarrow> string" where
  "event_level_as_str Info = ''info''"
| "event_level_as_str Warning = ''warning''"
| "event_level_as_str Error = ''error''"

fun failure_kind_as_str :: "subscription_failure_kind \<Rightarrow> string" where
  "failure_kind_as_str Failure = ''failure''"
| "failure_kind_as_str FailureTerminated = ''terminated''"

section \<open>Records\<close>

record topic_status_info =
  ti_topic :: string
  ti_feed_topic :: string
  ti_delayed :: "bool option"
  ti_state :: topic_lifecycle_state
  ti_last_change_us :: i64
  ti_streams_active :: bool
  ti_streams_changed_us :: i64

record service_status_info =
  si_service :: string
  si_up :: bool
  si_last_change_us :: i64

record admin_status_info =
  ad_slow_consumer_warning_active :: bool
  ad_slow_consumer_warning_count :: u64
  ad_slow_consumer_cleared_count :: u64
  ad_data_loss_count :: u64
  ad_last_warning_us :: "i64 option"
  ad_last_cleared_us :: "i64 option"
  ad_last_data_loss_us :: "i64 option"

record session_status_info =
  se_state :: session_lifecycle_state
  se_last_change_us :: i64
  se_disconnect_count :: u64
  se_reconnect_count :: u64

record subscription_event_info =
  ev_at_us :: i64
  ev_category :: subscription_event_category
  ev_level :: subscription_event_level
  ev_message_type :: string
  ev_topic :: "string option"
  ev_detail :: "string option"

record subscription_failure_info =
  fi_topic :: string
  fi_reason :: string
  fi_kind :: subscription_failure_kind
  fi_at_us :: i64

type_synonym metrics_ref = nat

record status_state =
  st_keys :: "slab_key list"
  st_topics :: "string list"
  st_topic_to_key :: "string \<rightharpoonup> slab_key"
  st_key_to_topic :: "slab_key \<rightharpoonup> string"
  st_pending_key_to_topic :: "(slab_key \<times> string) list"
  st_metrics :: "slab_key \<rightharpoonup> metrics_ref"
  st_failures :: "subscription_failure_info list"
  st_topic_states :: "string \<rightharpoonup> topic_status_info"
  st_events :: "subscription_event_info list"
  st_event_sequence :: u64
  st_observer_events :: "subscription_event_info list option"
  st_defer_indices :: bool
  st_indices_dirty :: bool
  st_field_errors :: "string \<rightharpoonup> (string \<rightharpoonup> string)"
  st_warnings :: "subscription_event_info list"
  st_session :: session_status_info
  st_services :: "string \<rightharpoonup> service_status_info"
  st_admin :: admin_status_info

definition SUBSCRIPTION_EVENT_HISTORY_LIMIT :: nat where
  "SUBSCRIPTION_EVENT_HISTORY_LIMIT = 128"

definition session_default :: "i64 \<Rightarrow> session_status_info" where
  "session_default now =
     \<lparr>se_state = Starting, se_last_change_us = now, se_disconnect_count = 0, se_reconnect_count = 0\<rparr>"

definition admin_default :: admin_status_info where
  "admin_default =
     \<lparr>ad_slow_consumer_warning_active = False, ad_slow_consumer_warning_count = 0,
      ad_slow_consumer_cleared_count = 0, ad_data_loss_count = 0, ad_last_warning_us = None,
      ad_last_cleared_us = None, ad_last_data_loss_us = None\<rparr>"

definition status_default :: "i64 \<Rightarrow> status_state" where
  "status_default now =
     \<lparr>st_keys = [], st_topics = [], st_topic_to_key = Map.empty, st_key_to_topic = Map.empty,
      st_pending_key_to_topic = [], st_metrics = Map.empty, st_failures = [],
      st_topic_states = Map.empty, st_events = [], st_event_sequence = 0,
      st_observer_events = None, st_defer_indices = False, st_indices_dirty = False,
      st_field_errors = Map.empty, st_warnings = [], st_session = session_default now,
      st_services = Map.empty, st_admin = admin_default\<rparr>"

section \<open>Topics\<close>

definition new_topic_status :: "string \<Rightarrow> topic_lifecycle_state \<Rightarrow> i64 \<Rightarrow> topic_status_info" where
  "new_topic_status topic state now =
     \<lparr>ti_topic = topic, ti_feed_topic = topic, ti_delayed = None, ti_state = state,
      ti_last_change_us = now, ti_streams_active = False, ti_streams_changed_us = now\<rparr>"

definition add_one :: "i64 \<Rightarrow> (string \<times> slab_key) \<times> metrics_ref \<Rightarrow> status_state \<Rightarrow> status_state" where
  "add_one now e s =
     (let topic = fst (fst e); key = snd (fst e); metric = snd e
      in s\<lparr>st_topic_to_key := (st_topic_to_key s)(topic \<mapsto> key),
           st_pending_key_to_topic := AList.delete key (st_pending_key_to_topic s),
           st_key_to_topic := (st_key_to_topic s)(key \<mapsto> topic),
           st_topics := st_topics s @ [topic],
           st_keys := st_keys s @ [key],
           st_metrics := (st_metrics s)(key \<mapsto> metric),
           st_topic_states := (st_topic_states s)(topic \<mapsto> new_topic_status topic TopicPending now)\<rparr>)"

definition add_active ::
  "string list \<Rightarrow> slab_key list \<Rightarrow> metrics_ref list \<Rightarrow> i64 \<Rightarrow> status_state \<Rightarrow> status_state" where
  "add_active topics keys metrics now s =
     (let s' = (if st_keys s = []
                then s\<lparr>st_session := (st_session s)\<lparr>se_state := Up, se_last_change_us := now\<rparr>\<rparr>
                else s)
      in fold (add_one now) (zip (zip topics keys) metrics) s')"

definition remove_active_index :: "slab_key \<Rightarrow> string \<Rightarrow> status_state \<Rightarrow> status_state" where
  "remove_active_index key topic s =
     (if st_defer_indices s then s\<lparr>st_indices_dirty := True\<rparr>
      else s\<lparr>st_keys := filter (\<lambda>k. k \<noteq> key) (st_keys s),
             st_topics := filter (\<lambda>t. t \<noteq> topic) (st_topics s)\<rparr>)"

definition finish_index_changes :: "status_state \<Rightarrow> status_state" where
  "finish_index_changes s =
     (let s' = (if st_indices_dirty s
                then s\<lparr>st_keys := filter (\<lambda>k. st_key_to_topic s k \<noteq> None) (st_keys s),
                       st_topics := filter (\<lambda>t. st_topic_to_key s t \<noteq> None) (st_topics s)\<rparr>
                else s)
      in s'\<lparr>st_defer_indices := False, st_indices_dirty := False\<rparr>)"

definition remove_topic :: "string \<Rightarrow> status_state \<Rightarrow> slab_key option \<times> status_state" where
  "remove_topic topic s =
     (case st_topic_to_key s topic of
        None \<Rightarrow> (None, s)
      | Some key \<Rightarrow>
          (let s1 = s\<lparr>st_topic_to_key := (st_topic_to_key s)(topic := None),
                      st_key_to_topic := (st_key_to_topic s)(key := None)\<rparr>;
               s2 = remove_active_index key topic s1
           in (Some key, s2\<lparr>st_metrics := (st_metrics s2)(key := None)\<rparr>)))"

definition drop_topic :: "string \<Rightarrow> status_state \<Rightarrow> slab_key option \<times> status_state" where
  "drop_topic topic s =
     (let (removed, s1) = remove_topic topic s;
          (key, s2) =
            (case removed of
               Some k \<Rightarrow> (Some k, s1)
             | None \<Rightarrow>
                 (case find (\<lambda>(k, pending). pending = topic) (st_pending_key_to_topic s1) of
                    None \<Rightarrow> (None, s1)
                  | Some (k, _) \<Rightarrow>
                      (Some k, s1\<lparr>st_pending_key_to_topic :=
                                    AList.delete k (st_pending_key_to_topic s1)\<rparr>)))
      in (key, s2\<lparr>st_topic_states := (st_topic_states s2)(topic := None),
                  st_field_errors := (st_field_errors s2)(topic := None)\<rparr>))"

definition topic_for_key :: "slab_key \<Rightarrow> status_state \<Rightarrow> string option" where
  "topic_for_key key s = st_key_to_topic s key"

definition set_feed_topic :: "string \<Rightarrow> string \<Rightarrow> status_state \<Rightarrow> status_state" where
  "set_feed_topic label feed_topic s =
     (case st_topic_states s label of
        None \<Rightarrow> s
      | Some info \<Rightarrow>
          s\<lparr>st_topic_states := (st_topic_states s)(label \<mapsto> info\<lparr>ti_feed_topic := feed_topic\<rparr>)\<rparr>)"

definition set_delayed :: "string \<Rightarrow> bool option \<Rightarrow> status_state \<Rightarrow> status_state" where
  "set_delayed label delayed s =
     (case st_topic_states s label of
        None \<Rightarrow> s
      | Some info \<Rightarrow>
          s\<lparr>st_topic_states := (st_topic_states s)(label \<mapsto> info\<lparr>ti_delayed := delayed\<rparr>)\<rparr>)"

definition record_field_error :: "string \<Rightarrow> string \<Rightarrow> string \<Rightarrow> status_state \<Rightarrow> status_state" where
  "record_field_error label field category s =
     (let errors = (case st_field_errors s label of None \<Rightarrow> Map.empty | Some m \<Rightarrow> m)
      in s\<lparr>st_field_errors := (st_field_errors s)(label \<mapsto> errors(field \<mapsto> category))\<rparr>)"

definition take_warnings :: "status_state \<Rightarrow> subscription_event_info list \<times> status_state" where
  "take_warnings s = (st_warnings s, s\<lparr>st_warnings := []\<rparr>)"

definition update_topic_state :: "string \<Rightarrow> topic_lifecycle_state \<Rightarrow> i64 \<Rightarrow> status_state \<Rightarrow> status_state" where
  "update_topic_state topic state now s =
     s\<lparr>st_topic_states := (st_topic_states s)(topic \<mapsto>
         (case st_topic_states s topic of
            Some info \<Rightarrow> info\<lparr>ti_state := state, ti_last_change_us := now\<rparr>
          | None \<Rightarrow> new_topic_status topic state now))\<rparr>"

definition set_topic_streams_active ::
  "string \<Rightarrow> bool \<Rightarrow> i64 \<Rightarrow> status_state \<Rightarrow> bool option \<times> status_state" where
  "set_topic_streams_active topic active now s =
     (case st_topic_states s topic of
        None \<Rightarrow> (None, s)
      | Some info \<Rightarrow>
          (Some (ti_streams_active info),
           if ti_streams_active info \<noteq> active
           then s\<lparr>st_topic_states := (st_topic_states s)(topic \<mapsto>
                    info\<lparr>ti_streams_active := active, ti_streams_changed_us := now\<rparr>)\<rparr>
           else s))"

definition mark_topic :: "topic_lifecycle_state \<Rightarrow> slab_key \<Rightarrow> i64 \<Rightarrow> status_state \<Rightarrow> string option \<times> status_state" where
  "mark_topic state key now s =
     (case topic_for_key key s of
        None \<Rightarrow> (None, s)
      | Some topic \<Rightarrow> (Some topic, update_topic_state topic state now s))"

definition mark_topic_started :: "slab_key \<Rightarrow> i64 \<Rightarrow> status_state \<Rightarrow> string option \<times> status_state" where
  "mark_topic_started = mark_topic Started"

definition mark_topic_streaming :: "slab_key \<Rightarrow> i64 \<Rightarrow> status_state \<Rightarrow> string option \<times> status_state" where
  "mark_topic_streaming = mark_topic Streaming"

definition mark_topic_unsubscribing :: "slab_key \<Rightarrow> i64 \<Rightarrow> status_state \<Rightarrow> string option \<times> status_state" where
  "mark_topic_unsubscribing key now s =
     (case st_key_to_topic s key of
        None \<Rightarrow> (None, s)
      | Some topic \<Rightarrow>
          (let s1 = s\<lparr>st_key_to_topic := (st_key_to_topic s)(key := None),
                      st_topic_to_key := (st_topic_to_key s)(topic := None)\<rparr>;
               s2 = remove_active_index key topic s1;
               s3 = s2\<lparr>st_metrics := (st_metrics s2)(key := None),
                       st_pending_key_to_topic :=
                         AList.update key topic (st_pending_key_to_topic s2)\<rparr>
           in (Some topic, update_topic_state topic Unsubscribing now s3)))"

text \<open>\<open>key_to_topic.remove(&key).or_else(|| pending_key_to_topic.remove(&key))\<close>\<close>

definition take_key :: "slab_key \<Rightarrow> status_state \<Rightarrow> (string \<times> status_state) option" where
  "take_key key s =
     (case st_key_to_topic s key of
        Some topic \<Rightarrow> Some (topic, s\<lparr>st_key_to_topic := (st_key_to_topic s)(key := None)\<rparr>)
      | None \<Rightarrow>
          (case map_of (st_pending_key_to_topic s) key of
             Some topic \<Rightarrow>
               Some (topic, s\<lparr>st_pending_key_to_topic :=
                                AList.delete key (st_pending_key_to_topic s)\<rparr>)
           | None \<Rightarrow> None))"

definition finalize_key :: "slab_key \<Rightarrow> status_state \<Rightarrow> string option \<times> status_state" where
  "finalize_key key s =
     (case take_key key s of
        None \<Rightarrow> (None, s)
      | Some (topic, s1) \<Rightarrow>
          (let s2 = s1\<lparr>st_topic_to_key := (st_topic_to_key s1)(topic := None)\<rparr>;
               s3 = remove_active_index key topic s2
           in (Some topic, s3\<lparr>st_metrics := (st_metrics s3)(key := None)\<rparr>)))"

definition mark_topic_unsubscribed :: "slab_key \<Rightarrow> i64 \<Rightarrow> status_state \<Rightarrow> string option \<times> status_state" where
  "mark_topic_unsubscribed key now s =
     (case finalize_key key s of
        (None, s1) \<Rightarrow> (None, s1)
      | (Some topic, s1) \<Rightarrow>
          (Some topic,
           snd (set_topic_streams_active topic False now
                  (update_topic_state topic Unsubscribed now s1))))"

fun failure_state :: "subscription_failure_kind \<Rightarrow> topic_lifecycle_state" where
  "failure_state Failure = Failed"
| "failure_state FailureTerminated = TopicTerminated"

text \<open>The part \<open>record_failure\<close> and \<open>record_failures\<close> share: the final state of the topic, its
  streams, and the failure entry.\<close>

definition note_failure ::
  "string \<Rightarrow> string \<Rightarrow> subscription_failure_kind \<Rightarrow> i64 \<Rightarrow> status_state \<Rightarrow> status_state" where
  "note_failure topic reason kind now s =
     (let s1 = snd (set_topic_streams_active topic False now
                      (update_topic_state topic (failure_state kind) now s))
      in s1\<lparr>st_failures := st_failures s1 @
           [\<lparr>fi_topic = topic, fi_reason = reason, fi_kind = kind, fi_at_us = now\<rparr>]\<rparr>)"

definition record_failure ::
  "slab_key \<Rightarrow> string \<Rightarrow> subscription_failure_kind \<Rightarrow> i64 \<Rightarrow> status_state \<Rightarrow> string option \<times> status_state" where
  "record_failure key reason kind now s =
     (case finalize_key key s of
        (None, s1) \<Rightarrow> (None, s1)
      | (Some topic, s1) \<Rightarrow> (Some topic, note_failure topic reason kind now s1))"

definition record_one_failure ::
  "i64 \<Rightarrow> slab_key \<times> string \<times> subscription_failure_kind \<Rightarrow> status_state \<Rightarrow> status_state" where
  "record_one_failure now f s =
     (case f of (key, reason, kind) \<Rightarrow>
        (case take_key key s of
           None \<Rightarrow> s
         | Some (topic, s1) \<Rightarrow>
             note_failure topic reason kind now
               (s1\<lparr>st_topic_to_key := (st_topic_to_key s1)(topic := None),
                   st_metrics := (st_metrics s1)(key := None)\<rparr>)))"

definition record_failures ::
  "(slab_key \<times> string \<times> subscription_failure_kind) list \<Rightarrow> i64 \<Rightarrow> status_state \<Rightarrow> status_state" where
  "record_failures failures now s =
     (let s1 = fold (record_one_failure now) failures s
      in s1\<lparr>st_keys := filter (\<lambda>k. k \<notin> fst ` set failures) (st_keys s1),
            st_topics := filter (\<lambda>t. st_topic_to_key s1 t \<noteq> None) (st_topics s1)\<rparr>)"

definition stop_streams :: "i64 \<Rightarrow> topic_status_info \<Rightarrow> topic_status_info" where
  "stop_streams now info =
     (if ti_streams_active info
      then info\<lparr>ti_streams_active := False, ti_streams_changed_us := now\<rparr> else info)"

definition clear_active :: "i64 \<Rightarrow> status_state \<Rightarrow> status_state" where
  "clear_active now s =
     s\<lparr>st_topic_states := (\<lambda>t. map_option (stop_streams now) (st_topic_states s t)),
       st_keys := [], st_topics := [], st_topic_to_key := Map.empty,
       st_key_to_topic := Map.empty, st_metrics := Map.empty\<rparr>"

definition has_active_topics :: "status_state \<Rightarrow> bool" where
  "has_active_topics s \<longleftrightarrow> st_keys s \<noteq> []"

section \<open>Events\<close>

definition is_kept_warning :: "subscription_event_info \<Rightarrow> bool" where
  "is_kept_warning e \<longleftrightarrow> ev_level e = Warning \<and>
     (ev_message_type e = ''DelayedStream'' \<or> ev_message_type e = ''FieldException'')"

definition append_event :: "subscription_event_info \<Rightarrow> status_state \<Rightarrow> status_state" where
  "append_event e s =
     s\<lparr>st_observer_events := map_option (\<lambda>es. es @ [e]) (st_observer_events s),
       st_warnings := (if is_kept_warning e then st_warnings s @ [e] else st_warnings s),
       st_event_sequence := st_event_sequence s + 1,
       st_events := (if SUBSCRIPTION_EVENT_HISTORY_LIMIT \<le> length (st_events s)
                     then tl (st_events s) else st_events s) @ [e]\<rparr>"

definition push_event ::
  "subscription_event_category \<Rightarrow> subscription_event_level \<Rightarrow> string \<Rightarrow> string option \<Rightarrow>
     string option \<Rightarrow> i64 \<Rightarrow> status_state \<Rightarrow> status_state" where
  "push_event category level message_type topic detail now s =
     append_event \<lparr>ev_at_us = now, ev_category = category, ev_level = level,
       ev_message_type = message_type, ev_topic = topic, ev_detail = detail\<rparr> s"

definition record_subscription_event ::
  "string \<Rightarrow> string option \<Rightarrow> string option \<Rightarrow> subscription_event_level \<Rightarrow> i64 \<Rightarrow>
     status_state \<Rightarrow> status_state" where
  "record_subscription_event message_type topic detail level now s =
     push_event SubscriptionCategory level message_type topic detail now s"

definition record_session_state ::
  "session_lifecycle_state \<Rightarrow> string \<Rightarrow> string option \<Rightarrow> i64 \<Rightarrow> status_state \<Rightarrow> status_state" where
  "record_session_state state message_type detail now s =
     (let old = st_session s;
          session = \<lparr>se_state = state, se_last_change_us = now,
            se_disconnect_count = (if state = Down then se_disconnect_count old + 1
                                   else se_disconnect_count old),
            se_reconnect_count = (if se_state old = Down \<and> state = Up then se_reconnect_count old + 1
                                  else se_reconnect_count old)\<rparr>;
          level = (if state = Down \<or> state = SessionTerminated then Error else Info)
      in push_event SessionCategory level message_type None detail now (s\<lparr>st_session := session\<rparr>))"

definition record_service_state ::
  "string \<Rightarrow> bool \<Rightarrow> string \<Rightarrow> string option \<Rightarrow> i64 \<Rightarrow> status_state \<Rightarrow> status_state" where
  "record_service_state service up message_type detail now s =
     push_event ServiceCategory (if up then Info else Warning) message_type (Some service) detail now
       (s\<lparr>st_services := (st_services s)(service \<mapsto>
            \<lparr>si_service = service, si_up = up, si_last_change_us = now\<rparr>)\<rparr>)"

definition record_admin_warning :: "string \<Rightarrow> string option \<Rightarrow> i64 \<Rightarrow> status_state \<Rightarrow> status_state" where
  "record_admin_warning message_type detail now s =
     (let ad = st_admin s
      in push_event AdminCategory Warning message_type None detail now
           (s\<lparr>st_admin := ad\<lparr>ad_slow_consumer_warning_active := True,
                ad_slow_consumer_warning_count := ad_slow_consumer_warning_count ad + 1,
                ad_last_warning_us := Some now\<rparr>\<rparr>))"

definition record_admin_warning_cleared :: "string \<Rightarrow> string option \<Rightarrow> i64 \<Rightarrow> status_state \<Rightarrow> status_state" where
  "record_admin_warning_cleared message_type detail now s =
     (let ad = st_admin s
      in push_event AdminCategory Info message_type None detail now
           (s\<lparr>st_admin := ad\<lparr>ad_slow_consumer_warning_active := False,
                ad_slow_consumer_cleared_count := ad_slow_consumer_cleared_count ad + 1,
                ad_last_cleared_us := Some now\<rparr>\<rparr>))"

definition record_admin_data_loss :: "string option \<Rightarrow> string option \<Rightarrow> i64 \<Rightarrow> status_state \<Rightarrow> status_state" where
  "record_admin_data_loss topic detail now s =
     (let ad = st_admin s
      in push_event AdminCategory Warning ''DataLoss'' topic detail now
           (s\<lparr>st_admin := ad\<lparr>ad_data_loss_count := ad_data_loss_count ad + 1,
                ad_last_data_loss_us := Some now\<rparr>\<rparr>))"

section \<open>The handle\<close>

datatype status_scope = Topics "slab_key list" | Global

text \<open>The observer callback is named by a number; every call is logged.\<close>

record observer_call =
  oc_previous :: status_state
  oc_next :: status_state
  oc_scope :: status_scope
  oc_events :: "subscription_event_info list"

record status_handle =
  sh_snapshot :: status_state
  sh_revision :: u64
  sh_observer :: "nat option"
  sh_pending_warnings :: nat
  sh_observed :: "observer_call list"

definition handle_new :: "status_state \<Rightarrow> status_handle" where
  "handle_new initial =
     \<lparr>sh_snapshot = initial, sh_revision = 0, sh_observer = None,
      sh_pending_warnings = length (st_warnings initial), sh_observed = []\<rparr>"

definition handle_with_observer :: "nat \<Rightarrow> i64 \<Rightarrow> status_handle" where
  "handle_with_observer observer now =
     \<lparr>sh_snapshot = status_default now, sh_revision = 0, sh_observer = Some observer,
      sh_pending_warnings = 0, sh_observed = []\<rparr>"

definition notify_observer ::
  "status_state \<Rightarrow> status_state \<Rightarrow> status_scope \<Rightarrow> subscription_event_info list \<Rightarrow>
     status_handle \<Rightarrow> status_handle" where
  "notify_observer previous next scope events h =
     (case sh_observer h of
        None \<Rightarrow> h
      | Some _ \<Rightarrow>
          h\<lparr>sh_observed := sh_observed h @
              [\<lparr>oc_previous = previous, oc_next = next, oc_scope = scope, oc_events = events\<rparr>]\<rparr>)"

definition publish :: "status_state \<Rightarrow> status_handle \<Rightarrow> status_handle" where
  "publish next h =
     h\<lparr>sh_snapshot := next, sh_revision := sh_revision h + 1,
       sh_pending_warnings := length (st_warnings next)\<rparr>"

definition handle_store :: "status_state \<Rightarrow> status_handle \<Rightarrow> status_handle" where
  "handle_store next h =
     (let previous = sh_snapshot h;
          n = unat (st_event_sequence next - st_event_sequence previous);
          events = drop (length (st_events next) - n) (st_events next)
      in notify_observer previous next Global events (publish next h))"

definition defers :: "status_scope \<Rightarrow> bool" where
  "defers scope = (case scope of Topics keys \<Rightarrow> 1 < length keys | Global \<Rightarrow> False)"

definition update_scoped ::
  "status_scope \<Rightarrow> (status_state \<Rightarrow> 'r \<times> status_state) \<Rightarrow> status_handle \<Rightarrow> 'r \<times> status_handle" where
  "update_scoped scope mutate h =
     (let current = sh_snapshot h;
          next0 = current\<lparr>st_observer_events := map_option (\<lambda>_. []) (sh_observer h),
                          st_defer_indices := defers scope\<rparr>;
          (result, next1) = mutate next0;
          next2 = finish_index_changes next1;
          events = (case st_observer_events next2 of None \<Rightarrow> [] | Some es \<Rightarrow> es);
          next = next2\<lparr>st_observer_events := None\<rparr>
      in (result, notify_observer current next scope events (publish next h)))"

definition update_with :: "(status_state \<Rightarrow> 'r \<times> status_state) \<Rightarrow> status_handle \<Rightarrow> 'r \<times> status_handle" where
  "update_with mutate h = update_scoped Global mutate h"

definition handle_update :: "(status_state \<Rightarrow> status_state) \<Rightarrow> status_handle \<Rightarrow> status_handle" where
  "handle_update mutate h = snd (update_with (\<lambda>s. ((), mutate s)) h)"

definition update_topics :: "slab_key list \<Rightarrow> (status_state \<Rightarrow> status_state) \<Rightarrow> status_handle \<Rightarrow> status_handle" where
  "update_topics keys mutate h = snd (update_scoped (Topics keys) (\<lambda>s. ((), mutate s)) h)"

definition handle_take_warnings :: "status_handle \<Rightarrow> subscription_event_info list \<times> status_handle" where
  "handle_take_warnings h =
     (if sh_pending_warnings h = 0 then ([], h)
      else
        (let current = sh_snapshot h;
             (warnings, next) = take_warnings current;
             h' = h\<lparr>sh_snapshot := next, sh_revision := sh_revision h + 1, sh_pending_warnings := 0\<rparr>
         in (warnings, notify_observer current next Global [] h')))"

end
