(* ===== verification/Status_Ops.thy ===== *)
theory Status_Ops
  imports Status
begin

text \<open>
  The closures the subscription worker runs on a status snapshot (engine/subscription_pool.rs:
  \<open>StatusMutation::apply\<close>, the closures of \<open>dispatch_event\<close> and \<open>build_unsubscribe_list\<close>), and
  all operations on a snapshot as data, for statements about arbitrary sequences of them.
\<close>

section \<open>Mutations of a worker\<close>

datatype status_mutation =
    MStarted slab_key "string option"
  | MUnsubscribed slab_key string "string option"
  | MFailed slab_key string string subscription_failure_kind string
  | MStreamsActive slab_key bool "string option"
  | MFieldExceptions slab_key "(string \<times> string) list"

fun mutation_key :: "status_mutation \<Rightarrow> slab_key" where
  "mutation_key (MStarted key _) = key"
| "mutation_key (MUnsubscribed key _ _) = key"
| "mutation_key (MFailed key _ _ _ _) = key"
| "mutation_key (MStreamsActive key _ _) = key"
| "mutation_key (MFieldExceptions key _) = key"

fun apply_mutation :: "i64 \<Rightarrow> status_mutation \<Rightarrow> status_state \<Rightarrow> status_state" where
  "apply_mutation now (MFieldExceptions key errors) s =
     (case topic_for_key key s of
        None \<Rightarrow> s
      | Some topic \<Rightarrow> fold (\<lambda>(field, category). record_field_error topic field category) errors s)"
| "apply_mutation now (MStarted key reason) s =
     (let (topic, s1) = mark_topic_started key now s
      in record_subscription_event ''SubscriptionStarted'' topic reason Info now s1)"
| "apply_mutation now (MUnsubscribed key message_type reason) s =
     (let (topic, s1) = mark_topic_unsubscribed key now s
      in record_subscription_event message_type topic reason Info now s1)"
| "apply_mutation now (MFailed key fallback_topic reason kind message_type) s =
     (let (topic, s1) = record_failure key reason kind now s
      in record_subscription_event message_type
           (Some (case topic of Some t \<Rightarrow> t | None \<Rightarrow> fallback_topic)) (Some reason) Warning now s1)"
| "apply_mutation now (MStreamsActive key active reason) s =
     (case topic_for_key key s of
        None \<Rightarrow> s
      | Some topic \<Rightarrow>
          (let previous = map_option ti_streams_active (st_topic_states s topic);
               s1 = snd (set_topic_streams_active topic active now s)
           in if (active \<and> previous = Some False) \<or> (\<not> active \<and> previous \<noteq> Some False)
              then record_subscription_event
                     (if active then ''SubscriptionStreamsActivated'' else ''SubscriptionStreamsDeactivated'')
                     (Some topic) reason (if active then Info else Warning) now s1
              else s1))"

definition apply_mutations :: "i64 \<Rightarrow> status_mutation list \<Rightarrow> status_state \<Rightarrow> status_state" where
  "apply_mutations now ms = fold (apply_mutation now) ms"

text \<open>The status closure of \<open>build_unsubscribe_list\<close>.\<close>

definition apply_unsubscribing :: "i64 \<Rightarrow> slab_key list \<Rightarrow> status_state \<Rightarrow> status_state" where
  "apply_unsubscribing now keys =
     fold (\<lambda>key s.
       let (topic, s1) = mark_topic_unsubscribing key now s
       in record_subscription_event ''SubscriptionPendingCancel'' topic None Info now s1) keys"

text \<open>The status closure for subscription data.\<close>

definition apply_data_event ::
  "i64 \<Rightarrow> slab_key list \<Rightarrow> slab_key list \<Rightarrow> slab_key list \<Rightarrow> status_state \<Rightarrow> status_state" where
  "apply_data_event now data_loss_topics streaming_topics inactive_topics s =
     (let s1 = fold (\<lambda>key s. record_admin_data_loss (topic_for_key key s)
                 (Some ''subscription data reported DATALOSS'') now s) data_loss_topics s;
          s2 = fold (\<lambda>key s. let (topic, s') = mark_topic_streaming key now s
                 in record_subscription_event ''SubscriptionStreaming'' topic None Info now s')
                 streaming_topics s1
      in fold (\<lambda>key s. case topic_for_key key s of
                 None \<Rightarrow> s
               | Some topic \<Rightarrow> snd (set_topic_streams_active topic False now s)) inactive_topics s2)"

section \<open>All operations\<close>

datatype status_op =
    AddActive "string list" "slab_key list" "metrics_ref list"
  | RemoveTopic string
  | DropTopic string
  | SetFeedTopic string string
  | SetDelayed string "bool option"
  | RecordFieldError string string string
  | SetStreamsActive string bool
  | MarkStarted slab_key
  | MarkStreaming slab_key
  | MarkUnsubscribing slab_key
  | MarkUnsubscribed slab_key
  | RecordFailure slab_key string subscription_failure_kind
  | RecordFailures "(slab_key \<times> string \<times> subscription_failure_kind) list"
  | ClearActive
  | RecordSubscriptionEvent string "string option" "string option" subscription_event_level
  | RecordSessionState session_lifecycle_state string "string option"
  | RecordServiceState string bool string "string option"
  | RecordAdminWarning string "string option"
  | RecordAdminWarningCleared string "string option"
  | RecordAdminDataLoss "string option" "string option"

fun apply_op :: "i64 \<times> status_op \<Rightarrow> status_state \<Rightarrow> status_state" where
  "apply_op (now, AddActive topics keys metrics) s = add_active topics keys metrics now s"
| "apply_op (now, RemoveTopic topic) s = snd (remove_topic topic s)"
| "apply_op (now, DropTopic topic) s = snd (drop_topic topic s)"
| "apply_op (now, SetFeedTopic label feed) s = set_feed_topic label feed s"
| "apply_op (now, SetDelayed label delayed) s = set_delayed label delayed s"
| "apply_op (now, RecordFieldError label field category) s = record_field_error label field category s"
| "apply_op (now, SetStreamsActive topic active) s = snd (set_topic_streams_active topic active now s)"
| "apply_op (now, MarkStarted key) s = snd (mark_topic_started key now s)"
| "apply_op (now, MarkStreaming key) s = snd (mark_topic_streaming key now s)"
| "apply_op (now, MarkUnsubscribing key) s = snd (mark_topic_unsubscribing key now s)"
| "apply_op (now, MarkUnsubscribed key) s = snd (mark_topic_unsubscribed key now s)"
| "apply_op (now, RecordFailure key reason kind) s = snd (record_failure key reason kind now s)"
| "apply_op (now, RecordFailures failures) s = record_failures failures now s"
| "apply_op (now, ClearActive) s = clear_active now s"
| "apply_op (now, RecordSubscriptionEvent mt topic detail level) s =
     record_subscription_event mt topic detail level now s"
| "apply_op (now, RecordSessionState state mt detail) s = record_session_state state mt detail now s"
| "apply_op (now, RecordServiceState service up mt detail) s =
     record_service_state service up mt detail now s"
| "apply_op (now, RecordAdminWarning mt detail) s = record_admin_warning mt detail now s"
| "apply_op (now, RecordAdminWarningCleared mt detail) s = record_admin_warning_cleared mt detail now s"
| "apply_op (now, RecordAdminDataLoss topic detail) s = record_admin_data_loss topic detail now s"

definition run_ops :: "(i64 \<times> status_op) list \<Rightarrow> status_state \<Rightarrow> status_state" where
  "run_ops = fold apply_op"

section \<open>Event history\<close>

text \<open>The operations split into those that append one event and those that append none. A
  state's history agrees with the log \<open>es\<close> of everything appended since \<open>s\<close>.\<close>

definition keep_last :: "nat \<Rightarrow> 'a list \<Rightarrow> 'a list" where
  "keep_last n xs = drop (length xs - n) xs"

definition history_since :: "status_state \<Rightarrow> subscription_event_info list \<Rightarrow> status_state \<Rightarrow> bool" where
  "history_since s0 es s \<longleftrightarrow>
     st_observer_events s = map_option (\<lambda>old. old @ es) (st_observer_events s0) \<and>
     st_events s = (if es = [] then st_events s0
                    else keep_last SUBSCRIPTION_EVENT_HISTORY_LIMIT (st_events s0 @ es)) \<and>
     st_event_sequence s = st_event_sequence s0 + of_nat (length es) \<and>
     st_warnings s = st_warnings s0 @ filter is_kept_warning es"

definition same_history :: "status_state \<Rightarrow> status_state \<Rightarrow> bool" where
  "same_history s s' \<longleftrightarrow> st_observer_events s' = st_observer_events s \<and> st_events s' = st_events s \<and>
     st_event_sequence s' = st_event_sequence s \<and> st_warnings s' = st_warnings s"

end
