(* ===== verification/Status_Batch.thy ===== *)
theory Status_Batch
  imports Status_Ops
begin

text \<open>
  Batched status updates. While a batch runs, removed topics stay in the index vectors and
  one scan at the end settles them. An operation fit for a batch commutes with settling
  (\<open>batch_op\<close>); the closures of the subscription worker are such operations, so a batch
  publishes the snapshot the same operations produce one by one.
\<close>

section \<open>Deferred index maintenance\<close>

definition settled :: "status_state \<Rightarrow> status_state" where
  "settled s =
     s\<lparr>st_keys := filter (\<lambda>k. st_key_to_topic s k \<noteq> None) (st_keys s),
       st_topics := filter (\<lambda>t. st_topic_to_key s t \<noteq> None) (st_topics s),
       st_defer_indices := False, st_indices_dirty := False, st_observer_events := None\<rparr>"

definition index_clean :: "status_state \<Rightarrow> bool" where
  "index_clean s \<longleftrightarrow> st_indices_dirty s \<or>
     (\<forall>k \<in> set (st_keys s). st_key_to_topic s k \<noteq> None) \<and>
     (\<forall>t \<in> set (st_topics s). st_topic_to_key s t \<noteq> None)"

lemma settled_fields [simp]:
  "st_topic_to_key (settled s) = st_topic_to_key s" "st_key_to_topic (settled s) = st_key_to_topic s"
  "st_pending_key_to_topic (settled s) = st_pending_key_to_topic s" "st_metrics (settled s) = st_metrics s"
  "st_failures (settled s) = st_failures s" "st_topic_states (settled s) = st_topic_states s"
  "st_events (settled s) = st_events s" "st_event_sequence (settled s) = st_event_sequence s"
  "st_observer_events (settled s) = None" "st_field_errors (settled s) = st_field_errors s"
  "st_warnings (settled s) = st_warnings s" "st_session (settled s) = st_session s"
  "st_services (settled s) = st_services s" "st_admin (settled s) = st_admin s"
  "st_defer_indices (settled s) = False" "st_indices_dirty (settled s) = False"
  by (simp_all add: settled_def)

lemma settled_upd [simp]:
  "settled (s\<lparr>st_pending_key_to_topic := x1\<rparr>) = (settled s)\<lparr>st_pending_key_to_topic := x1\<rparr>"
  "settled (s\<lparr>st_metrics := x2\<rparr>) = (settled s)\<lparr>st_metrics := x2\<rparr>"
  "settled (s\<lparr>st_failures := x3\<rparr>) = (settled s)\<lparr>st_failures := x3\<rparr>"
  "settled (s\<lparr>st_topic_states := x4\<rparr>) = (settled s)\<lparr>st_topic_states := x4\<rparr>"
  "settled (s\<lparr>st_field_errors := x5\<rparr>) = (settled s)\<lparr>st_field_errors := x5\<rparr>"
  "settled (s\<lparr>st_session := x6\<rparr>) = (settled s)\<lparr>st_session := x6\<rparr>"
  "settled (s\<lparr>st_services := x7\<rparr>) = (settled s)\<lparr>st_services := x7\<rparr>"
  "settled (s\<lparr>st_admin := x8\<rparr>) = (settled s)\<lparr>st_admin := x8\<rparr>"
  by (simp_all add: settled_def)

lemma index_clean_upd [simp]:
  "index_clean (s\<lparr>st_pending_key_to_topic := x1\<rparr>) = index_clean s"
  "index_clean (s\<lparr>st_metrics := x2\<rparr>) = index_clean s"
  "index_clean (s\<lparr>st_failures := x3\<rparr>) = index_clean s"
  "index_clean (s\<lparr>st_topic_states := x4\<rparr>) = index_clean s"
  "index_clean (s\<lparr>st_field_errors := x5\<rparr>) = index_clean s"
  "index_clean (s\<lparr>st_session := x6\<rparr>) = index_clean s"
  "index_clean (s\<lparr>st_services := x7\<rparr>) = index_clean s"
  "index_clean (s\<lparr>st_admin := x8\<rparr>) = index_clean s"
  "index_clean (s\<lparr>st_observer_events := x9\<rparr>) = index_clean s"
  "index_clean (s\<lparr>st_defer_indices := x10\<rparr>) = index_clean s"
  by (simp_all add: index_clean_def)

definition quiet :: "status_state \<Rightarrow> bool" where
  "quiet s \<longleftrightarrow> \<not> st_defer_indices s \<and> \<not> st_indices_dirty s \<and> st_observer_events s = None \<and> index_clean s"

lemma quiet_settled: "quiet s \<Longrightarrow> settled s = s"
  by (cases s) (auto simp: quiet_def settled_def index_clean_def filter_True)

lemma quiet_of_settled [simp]: "quiet (settled s)"
  by (simp add: quiet_def settled_def index_clean_def)

lemma settled_flags [simp]:
  "settled (s\<lparr>st_observer_events := x\<rparr>) = settled s" "settled (s\<lparr>st_defer_indices := y\<rparr>) = settled s"
  by (simp_all add: settled_def)

text \<open>The contract of an operation that may run inside a batch.\<close>

locale batch_op =
  fixes f :: "status_state \<Rightarrow> status_state"
  assumes settled_commute: "settled (f s) = f (settled s)"
    and same_defer: "st_defer_indices (f s) = st_defer_indices s"
    and keeps_clean: "index_clean s \<Longrightarrow> index_clean (f s)"
begin

lemma finish_settles:
  assumes "index_clean s"
  shows "(finish_index_changes (f s))\<lparr>st_observer_events := None\<rparr> = f (settled s)"
proof -
  have "(finish_index_changes (f s))\<lparr>st_observer_events := None\<rparr> = settled (f s)"
    using keeps_clean [OF assms]
    by (auto simp: finish_index_changes_def settled_def index_clean_def Let_def
        filter_True [of _ "\<lambda>x. _ x \<noteq> None"])
  then show ?thesis by (simp add: settled_commute)
qed

lemma publishes:
  assumes q: "quiet (sh_snapshot h)"
  shows "sh_snapshot (snd (update_scoped scope (\<lambda>s. (r s, f s)) h)) = f (sh_snapshot h)"
    and "quiet (f (sh_snapshot h))"
proof -
  let ?s = "(sh_snapshot h)\<lparr>st_observer_events := map_option (\<lambda>_. []) (sh_observer h),
    st_defer_indices := defers scope\<rparr>"
  have "index_clean ?s" "settled ?s = sh_snapshot h"
    using q quiet_settled [OF q] by (simp_all add: quiet_def)
  from finish_settles [OF this(1)] this(2)
  show "sh_snapshot (snd (update_scoped scope (\<lambda>s. (r s, f s)) h)) = f (sh_snapshot h)"
    by (cases "sh_observer h") (simp_all add: update_scoped_def Let_def notify_observer_def publish_def
        split: prod.split)
  have "f (sh_snapshot h) = settled (f (sh_snapshot h))"
    using settled_commute [of "sh_snapshot h"] by (simp add: quiet_settled [OF q])
  then show "quiet (f (sh_snapshot h))" using quiet_of_settled by metis
qed

end

lemma batch_op_id: "batch_op (\<lambda>s. s)"
  by unfold_locales simp_all

lemma batch_op_comp: "batch_op f \<Longrightarrow> batch_op g \<Longrightarrow> batch_op (\<lambda>s. g (f s))"
  by (simp add: batch_op_def)

lemma batch_op_fold: "(\<And>x. batch_op (f x)) \<Longrightarrow> batch_op (fold f xs)"
proof (induction xs)
  case Nil
  then show ?case by (simp add: batch_op_def)
next
  case (Cons x xs)
  then show ?case using batch_op_comp [of "f x" "fold f xs"] by (simp add: comp_def)
qed

section \<open>Operations that may run in a batch\<close>

lemma batch_op_update_topic_state: "batch_op (update_topic_state topic state now)"
  by unfold_locales (simp_all add: update_topic_state_def)

lemma batch_op_streams: "batch_op (\<lambda>s. snd (set_topic_streams_active topic active now s))"
  by unfold_locales (simp_all add: set_topic_streams_active_def split: option.split)

lemma batch_op_append_event: "batch_op (append_event e)"
  by unfold_locales (simp_all add: append_event_def settled_def index_clean_def)

lemma batch_op_push_event: "batch_op (push_event category level mt topic detail now)"
  unfolding push_event_def by (rule batch_op_append_event)

lemma batch_op_record_event: "batch_op (record_subscription_event mt topic detail level now)"
  unfolding record_subscription_event_def by (rule batch_op_push_event)

lemma batch_op_field_error: "batch_op (record_field_error label field category)"
  by unfold_locales (simp_all add: record_field_error_def Let_def)

lemma batch_op_data_loss: "batch_op (record_admin_data_loss topic detail now)"
proof -
  have "batch_op (\<lambda>s. s\<lparr>st_admin := (st_admin s)\<lparr>ad_data_loss_count := ad_data_loss_count (st_admin s) + 1,
      ad_last_data_loss_us := Some now\<rparr>\<rparr>)"
    by unfold_locales simp_all
  from batch_op_comp [OF this batch_op_push_event] show ?thesis
    by (simp add: record_admin_data_loss_def [abs_def] Let_def)
qed

text \<open>Taking an active key out of the maps and the index vectors.\<close>

definition unindex :: "slab_key \<Rightarrow> string \<Rightarrow> status_state \<Rightarrow> status_state" where
  "unindex key topic s =
     remove_active_index key topic
       (s\<lparr>st_key_to_topic := (st_key_to_topic s)(key := None),
          st_topic_to_key := (st_topic_to_key s)(topic := None)\<rparr>)"

lemma batch_op_unindex: "batch_op (unindex key topic)"
proof unfold_locales
  fix s
  show "settled (unindex key topic s) = unindex key topic (settled s)"
    by (cases s) (auto simp: unindex_def remove_active_index_def settled_def intro!: filter_cong)
  show "st_defer_indices (unindex key topic s) = st_defer_indices s"
    by (simp add: unindex_def remove_active_index_def)
  show "index_clean s \<Longrightarrow> index_clean (unindex key topic s)"
    by (auto simp: unindex_def remove_active_index_def index_clean_def)
qed

lemma remove_topic_unindex:
  "snd (remove_topic topic s) =
     (case st_topic_to_key s topic of
        None \<Rightarrow> s
      | Some key \<Rightarrow> (let s2 = unindex key topic s in s2\<lparr>st_metrics := (st_metrics s2)(key := None)\<rparr>))"
  by (cases s) (simp add: remove_topic_def unindex_def Let_def split: option.split)

lemma batch_op_drop_metrics: "batch_op (\<lambda>s. s\<lparr>st_metrics := (st_metrics s)(key := None)\<rparr>)"
  by unfold_locales simp_all

lemma batch_op_pending: "batch_op (\<lambda>s. s\<lparr>st_pending_key_to_topic := f (st_pending_key_to_topic s)\<rparr>)"
  by unfold_locales simp_all

lemma batch_op_forget: "batch_op (\<lambda>s. (unindex key topic s)\<lparr>st_metrics := (st_metrics (unindex key topic s))(key := None)\<rparr>)"
  using batch_op_comp [OF batch_op_unindex batch_op_drop_metrics] .

text \<open>An operation chosen by looking at the parts of the state that settling keeps.\<close>

lemma batch_op_choose:
  assumes "\<And>x. batch_op (f x)" and "\<And>s. g (settled s) = g s"
  shows "batch_op (\<lambda>s. f (g s) s)"
  using assms unfolding batch_op_def by metis

lemma batch_op_unsubscribing: "batch_op (\<lambda>s. snd (mark_topic_unsubscribing key now s))"
proof -
  let ?f = "\<lambda>t s. case t of None \<Rightarrow> s | Some topic \<Rightarrow>
      update_topic_state topic Unsubscribing now
        ((\<lambda>s. s\<lparr>st_pending_key_to_topic := AList.update key topic (st_pending_key_to_topic s)\<rparr>)
          ((\<lambda>s. s\<lparr>st_metrics := (st_metrics s)(key := None)\<rparr>) (unindex key topic s)))"
  have "batch_op (?f t)" for t
  proof (cases t)
    case (Some topic)
    show ?thesis
      using batch_op_comp [OF batch_op_comp [OF batch_op_forget batch_op_pending [of "AList.update key topic"]]
          batch_op_update_topic_state]
      by (simp add: Some)
  qed (simp add: batch_op_id)
  then have "batch_op (\<lambda>s. ?f (st_key_to_topic s key) s)" by (rule batch_op_choose) simp
  also have "(\<lambda>s. ?f (st_key_to_topic s key) s) = (\<lambda>s. snd (mark_topic_unsubscribing key now s))"
    by (rule ext) (simp add: mark_topic_unsubscribing_def unindex_def Let_def split: option.split)
  finally show ?thesis .
qed

text \<open>\<open>finalize_key\<close> by cases: an active key, a pending key, or neither.\<close>

definition finalize_case :: "slab_key \<Rightarrow> status_state \<Rightarrow> (bool \<times> string) option" where
  "finalize_case key s =
     (case st_key_to_topic s key of
        Some topic \<Rightarrow> Some (True, topic)
      | None \<Rightarrow> map_option (Pair False) (map_of (st_pending_key_to_topic s) key))"

lemma finalize_key_cases:
  "finalize_key key s =
     (case finalize_case key s of
        None \<Rightarrow> (None, s)
      | Some (active, topic) \<Rightarrow>
          (Some topic,
           (let s2 = unindex key topic
              (if active then s
               else s\<lparr>st_pending_key_to_topic := AList.delete key (st_pending_key_to_topic s)\<rparr>)
            in s2\<lparr>st_metrics := (st_metrics s2)(key := None)\<rparr>)))"
proof -
  have "(st_key_to_topic s)(key := None) = st_key_to_topic s" if "st_key_to_topic s key = None"
    using that by (rule fun_upd_idem)
  then show ?thesis
    by (cases s) (auto simp: finalize_key_def finalize_case_def take_key_def unindex_def Let_def
        split: option.split)
qed

lemma batch_op_finalize: "batch_op (\<lambda>s. snd (finalize_key key s))"
proof -
  let ?f = "\<lambda>c s. case c of None \<Rightarrow> s | Some (active, topic) \<Rightarrow>
     (\<lambda>s. s\<lparr>st_metrics := (st_metrics s)(key := None)\<rparr>) (unindex key topic
       (if active then s
        else s\<lparr>st_pending_key_to_topic := AList.delete key (st_pending_key_to_topic s)\<rparr>))"
  have "batch_op (?f c)" for c
  proof (cases c)
    case (Some a)
    show ?thesis
      by (cases a; cases "fst a")
        (auto simp: Some intro!: batch_op_comp [OF _ batch_op_drop_metrics] batch_op_unindex
          batch_op_comp [OF batch_op_pending batch_op_unindex])
  qed (simp add: batch_op_id)
  then have "batch_op (\<lambda>s. ?f (finalize_case key s) s)"
    by (rule batch_op_choose) (simp add: finalize_case_def split: option.split)
  also have "(\<lambda>s. ?f (finalize_case key s) s) = (\<lambda>s. snd (finalize_key key s))"
    by (rule ext) (simp add: finalize_key_cases Let_def split: option.split prod.split)
  finally show ?thesis .
qed

lemma finalize_key_fst: "fst (finalize_key key s) = map_option snd (finalize_case key s)"
  by (simp add: finalize_key_cases split: option.split prod.split)

lemma batch_op_bind:
  assumes "batch_op (\<lambda>s. snd (op s))" and "\<And>s. fst (op (settled s)) = fst (op s)"
    and "\<And>t. batch_op (g t)"
  shows "batch_op (\<lambda>s. let (t, s1) = op s in g t s1)"
proof -
  have "batch_op (\<lambda>s. g t (snd (op s)))" for t by (rule batch_op_comp [OF assms(1,3)])
  then have "batch_op (\<lambda>s. (\<lambda>t s. g t (snd (op s))) (fst (op s)) s)"
    by (rule batch_op_choose) (simp add: assms(2))
  then show ?thesis by (simp add: case_prod_beta)
qed

lemma finalize_key_fst_settled: "fst (finalize_key key (settled s)) = fst (finalize_key key s)"
  by (simp add: finalize_key_fst finalize_case_def split: option.split)

lemma batch_op_note_failure: "batch_op (note_failure topic reason kind now)"
proof -
  have "batch_op (\<lambda>s. s\<lparr>st_failures := st_failures s @ [x]\<rparr>)" for x
    by unfold_locales simp_all
  from batch_op_comp [OF batch_op_comp [OF batch_op_update_topic_state batch_op_streams] this]
  show ?thesis by (simp add: note_failure_def [abs_def] Let_def)
qed


lemma batch_op_unsubscribed: "batch_op (\<lambda>s. snd (mark_topic_unsubscribed key now s))"
proof -
  let ?g = "\<lambda>t s. case t of None \<Rightarrow> s | Some topic \<Rightarrow>
    snd (set_topic_streams_active topic False now (update_topic_state topic Unsubscribed now s))"
  have "batch_op (?g t)" for t
    by (cases t) (simp_all add: batch_op_id batch_op_comp [OF batch_op_update_topic_state batch_op_streams])
  from batch_op_bind [of "finalize_key key", OF batch_op_finalize finalize_key_fst_settled this]
  show ?thesis
    by (simp add: mark_topic_unsubscribed_def [abs_def] case_prod_beta option.case_distrib cong: option.case_cong)
qed

lemma batch_op_record_failure: "batch_op (\<lambda>s. snd (record_failure key reason kind now s))"
proof -
  let ?g = "\<lambda>t s. case t of None \<Rightarrow> s | Some topic \<Rightarrow> note_failure topic reason kind now s"
  have "batch_op (?g t)" for t
    by (cases t) (simp_all add: batch_op_id batch_op_note_failure)
  from batch_op_bind [of "finalize_key key", OF batch_op_finalize finalize_key_fst_settled this]
  show ?thesis
    by (simp add: record_failure_def [abs_def] case_prod_beta option.case_distrib cong: option.case_cong)
qed

lemma batch_op_mark: "batch_op (\<lambda>s. snd (mark_topic state key now s))"
proof -
  let ?g = "\<lambda>t s. case t of None \<Rightarrow> s | Some topic \<Rightarrow> update_topic_state topic state now s"
  have "batch_op (?g t)" for t
    by (cases t) (simp_all add: batch_op_id batch_op_update_topic_state)
  then have "batch_op (\<lambda>s. ?g (topic_for_key key s) s)"
    by (rule batch_op_choose) (simp add: topic_for_key_def)
  then show ?thesis
    by (simp add: mark_topic_def [abs_def] option.case_distrib cong: option.case_cong)
qed

lemma result_settled [simp]:
  "topic_for_key key (settled s) = topic_for_key key s"
  "fst (mark_topic state key now (settled s)) = fst (mark_topic state key now s)"
  "fst (mark_topic_unsubscribing key now (settled s)) = fst (mark_topic_unsubscribing key now s)"
  "fst (mark_topic_unsubscribed key now (settled s)) = fst (mark_topic_unsubscribed key now s)"
  "fst (record_failure key reason kind now (settled s)) = fst (record_failure key reason kind now s)"
  using finalize_key_fst_settled [of key s]
  by (auto simp: topic_for_key_def mark_topic_def mark_topic_unsubscribing_def
      mark_topic_unsubscribed_def record_failure_def Let_def split: option.split prod.split)

lemma batch_op_mutation: "batch_op (apply_mutation now q)"
proof (cases q)
  case (MStarted key reason)
  have "batch_op (\<lambda>s. let (topic, s1) = mark_topic_started key now s
      in record_subscription_event ''SubscriptionStarted'' topic reason Info now s1)"
    by (rule batch_op_bind) (simp_all add: mark_topic_started_def batch_op_mark batch_op_record_event)
  then show ?thesis by (rule back_subst [of batch_op]) (simp add: fun_eq_iff MStarted)
next
  case (MUnsubscribed key mt reason)
  have "batch_op (\<lambda>s. let (topic, s1) = mark_topic_unsubscribed key now s
      in record_subscription_event mt topic reason Info now s1)"
    by (rule batch_op_bind) (simp_all add: batch_op_unsubscribed batch_op_record_event)
  then show ?thesis by (rule back_subst [of batch_op]) (simp add: fun_eq_iff MUnsubscribed)
next
  case (MFailed key fallback reason kind mt)
  have "batch_op (\<lambda>s. let (topic, s1) = record_failure key reason kind now s
      in record_subscription_event mt
           (Some (case topic of Some t \<Rightarrow> t | None \<Rightarrow> fallback)) (Some reason) Warning now s1)"
    by (rule batch_op_bind) (simp_all add: batch_op_record_failure batch_op_record_event)
  then show ?thesis by (rule back_subst [of batch_op]) (simp add: fun_eq_iff MFailed)
next
  case (MStreamsActive key active reason)
  let ?g = "\<lambda>(t, flips) s. case t of None \<Rightarrow> s | Some topic \<Rightarrow>
     if flips then record_subscription_event
                     (if active then ''SubscriptionStreamsActivated'' else ''SubscriptionStreamsDeactivated'')
                     (Some topic) reason (if active then Info else Warning) now
                     (snd (set_topic_streams_active topic active now s))
     else snd (set_topic_streams_active topic active now s)"
  let ?h = "\<lambda>s. (topic_for_key key s,
     (let previous = Option.bind (topic_for_key key s) (\<lambda>t. map_option ti_streams_active (st_topic_states s t))
      in (active \<and> previous = Some False) \<or> (\<not> active \<and> previous \<noteq> Some False)))"
  have "batch_op (?g p)" for p
    by (cases p; cases "fst p"; cases "snd p")
      (simp_all add: batch_op_id batch_op_streams batch_op_comp [OF batch_op_streams batch_op_record_event])
  then have "batch_op (\<lambda>s. ?g (?h s) s)" by (rule batch_op_choose) simp
  also have "(\<lambda>s. ?g (?h s) s) = apply_mutation now q"
  proof (rule ext)
    show "?g (?h s) s = apply_mutation now q s" for s
      by (cases "topic_for_key key s") (simp_all add: MStreamsActive Let_def)
  qed
  finally show ?thesis .
next
  case (MFieldExceptions key errors)
  let ?g = "\<lambda>t s. case t of None \<Rightarrow> s | Some topic \<Rightarrow>
     fold (\<lambda>(field, category). record_field_error topic field category) errors s"
  have "batch_op (?g t)" for t
    by (cases t) (auto intro!: batch_op_id batch_op_fold batch_op_field_error split: prod.split)
  then have "batch_op (\<lambda>s. ?g (topic_for_key key s) s)" by (rule batch_op_choose) simp
  then show ?thesis by (rule back_subst [of batch_op]) (simp add: fun_eq_iff MFieldExceptions)
qed


text \<open>The three closures of the subscription worker fulfil the contract.\<close>

interpretation mutations: batch_op "apply_mutations now ms" for now ms
  unfolding apply_mutations_def by (rule batch_op_fold [OF batch_op_mutation])

interpretation unsubscribing: batch_op "apply_unsubscribing now keys" for now keys
proof -
  have "batch_op (\<lambda>s. let (topic, s1) = mark_topic_unsubscribing key now s
      in record_subscription_event ''SubscriptionPendingCancel'' topic None Info now s1)" for key
    by (rule batch_op_bind) (simp_all add: batch_op_unsubscribing batch_op_record_event)
  then show "batch_op (apply_unsubscribing now keys)"
    unfolding apply_unsubscribing_def by (rule batch_op_fold)
qed

interpretation data_event: batch_op "apply_data_event now losses streaming inactive"
  for now losses streaming inactive
proof -
  let ?a = "\<lambda>key s. record_admin_data_loss (topic_for_key key s)
      (Some ''subscription data reported DATALOSS'') now s"
  let ?b = "\<lambda>key s. let (topic, s') = mark_topic_streaming key now s
      in record_subscription_event ''SubscriptionStreaming'' topic None Info now s'"
  let ?c = "\<lambda>key s. case topic_for_key key s of None \<Rightarrow> s
      | Some topic \<Rightarrow> snd (set_topic_streams_active topic False now s)"
  have "batch_op (?a key)" for key
    by (rule batch_op_choose [where g = "topic_for_key key" and
          f = "\<lambda>t. record_admin_data_loss t (Some ''subscription data reported DATALOSS'') now"])
      (simp_all add: batch_op_data_loss)
  then have a: "batch_op (fold ?a losses)" by (rule batch_op_fold)
  have "batch_op (?b key)" for key
    by (rule batch_op_bind) (simp_all add: mark_topic_streaming_def batch_op_mark batch_op_record_event)
  then have b: "batch_op (fold ?b streaming)" by (rule batch_op_fold)
  have opt: "batch_op (\<lambda>s. case t of None \<Rightarrow> s | Some topic \<Rightarrow> snd (set_topic_streams_active topic False now s))" for t
    by (cases t) (simp_all add: batch_op_id batch_op_streams)
  have "batch_op (?c key)" for key
    by (rule batch_op_choose [where g = "topic_for_key key" and
          f = "\<lambda>t s. case t of None \<Rightarrow> s | Some topic \<Rightarrow> snd (set_topic_streams_active topic False now s)", OF opt])
      simp
  then have c: "batch_op (fold ?c inactive)" by (rule batch_op_fold)
  have "batch_op (\<lambda>s. fold ?c inactive (fold ?b streaming (fold ?a losses s)))"
    by (rule batch_op_comp [OF batch_op_comp [OF a b] c])
  then show "batch_op (apply_data_event now losses streaming inactive)"
    by (simp only: apply_data_event_def [abs_def] Let_def)
qed

end
