(* ===== verification/Status_History.thy ===== *)
theory Status_History
  imports Status_Ops
begin

text \<open>
  The event history of a status snapshot: which operations append an event, and what the
  bounded history, the sequence counter, the pending warnings and the observer's buffer hold
  after any sequence of operations.
\<close>

lemma same_history_refl [simp]: "same_history s s"
  by (simp add: same_history_def)

lemma same_history_trans: "same_history s t \<Longrightarrow> same_history t u \<Longrightarrow> same_history s u"
  by (simp add: same_history_def)

lemma same_history_upd [simp]:
  "same_history s (s'\<lparr>st_keys := x1\<rparr>) = same_history s s'"
  "same_history s (s'\<lparr>st_topics := x2\<rparr>) = same_history s s'"
  "same_history s (s'\<lparr>st_topic_to_key := x3\<rparr>) = same_history s s'"
  "same_history s (s'\<lparr>st_key_to_topic := x4\<rparr>) = same_history s s'"
  "same_history s (s'\<lparr>st_pending_key_to_topic := x5\<rparr>) = same_history s s'"
  "same_history s (s'\<lparr>st_metrics := x6\<rparr>) = same_history s s'"
  "same_history s (s'\<lparr>st_failures := x7\<rparr>) = same_history s s'"
  "same_history s (s'\<lparr>st_topic_states := x8\<rparr>) = same_history s s'"
  "same_history s (s'\<lparr>st_defer_indices := x9\<rparr>) = same_history s s'"
  "same_history s (s'\<lparr>st_indices_dirty := x10\<rparr>) = same_history s s'"
  "same_history s (s'\<lparr>st_field_errors := x11\<rparr>) = same_history s s'"
  "same_history s (s'\<lparr>st_session := x12\<rparr>) = same_history s s'"
  "same_history s (s'\<lparr>st_services := x13\<rparr>) = same_history s s'"
  "same_history s (s'\<lparr>st_admin := x14\<rparr>) = same_history s s'"
  by (simp_all add: same_history_def)

lemma same_history_fold:
  assumes "\<And>x s. same_history s (f x s)"
  shows "same_history s (fold f xs s)"
  using assms by (induction xs arbitrary: s) (auto intro: same_history_trans)

lemma same_history_index [simp]:
  "same_history s (remove_active_index key topic s') = same_history s s'"
  by (simp add: remove_active_index_def)

lemma same_history_update_topic_state [simp]:
  "same_history s (update_topic_state topic state now s') = same_history s s'"
  by (simp add: update_topic_state_def)

lemma same_history_streams [simp]:
  "same_history s (snd (set_topic_streams_active topic active now s')) = same_history s s'"
  by (simp add: set_topic_streams_active_def split: option.split)

lemma same_history_note_failure [simp]:
  "same_history s (note_failure topic reason kind now s') = same_history s s'"
  by (simp add: note_failure_def Let_def)

lemma take_key_history: "take_key key s = Some (topic, s') \<Longrightarrow> same_history s s'"
  by (auto simp: take_key_def split: option.splits)

lemma same_history_finalize [simp]: "same_history s (snd (finalize_key key s))"
  by (auto simp: finalize_key_def Let_def dest: take_key_history split: option.split)

lemma finalize_key_history: "finalize_key key s = (topic, s') \<Longrightarrow> same_history s s'"
  by (metis same_history_finalize snd_conv)

lemma same_history_add_active [simp]: "same_history s (add_active topics keys metrics now s)"
proof -
  have "same_history t (add_one now e t)" for e t by (simp add: add_one_def Let_def)
  then have "same_history t (fold (add_one now) es t)" for es t by (rule same_history_fold)
  from this [of "if st_keys s = [] then s\<lparr>st_session := (st_session s)\<lparr>se_state := Up, se_last_change_us := now\<rparr>\<rparr> else s"
      "zip (zip topics keys) metrics"]
  show ?thesis by (auto simp: add_active_def same_history_def)
qed

lemma same_history_remove_topic [simp]: "same_history s (snd (remove_topic topic s))"
  by (simp add: remove_topic_def Let_def split: option.split)

lemma remove_topic_history: "remove_topic topic s = (key, s') \<Longrightarrow> same_history s s'"
  by (metis same_history_remove_topic snd_conv)

lemma same_history_drop_topic [simp]: "same_history s (snd (drop_topic topic s))"
  by (auto simp: drop_topic_def Let_def dest: remove_topic_history split: option.split prod.split)

lemma same_history_record_failures [simp]: "same_history s (record_failures failures now s)"
proof -
  have "same_history t (record_one_failure now f t)" for f t
    by (auto simp: record_one_failure_def split: prod.split option.split dest: take_key_history)
  then have "same_history t (fold (record_one_failure now) fs t)" for fs t by (rule same_history_fold)
  then show ?thesis by (simp add: record_failures_def Let_def)
qed

lemma same_history_marks [simp]:
  "same_history s (snd (mark_topic state key now s))"
  "same_history s (snd (mark_topic_unsubscribing key now s))"
  "same_history s (snd (mark_topic_unsubscribed key now s))"
  "same_history s (snd (record_failure key reason kind now s))"
  by (auto simp: mark_topic_def mark_topic_unsubscribing_def mark_topic_unsubscribed_def
      record_failure_def Let_def dest: finalize_key_history split: option.split prod.split)

fun appends_event :: "status_op \<Rightarrow> bool" where
  "appends_event (RecordSubscriptionEvent _ _ _ _) = True"
| "appends_event (RecordSessionState _ _ _) = True"
| "appends_event (RecordServiceState _ _ _ _) = True"
| "appends_event (RecordAdminWarning _ _) = True"
| "appends_event (RecordAdminWarningCleared _ _) = True"
| "appends_event (RecordAdminDataLoss _ _) = True"
| "appends_event _ = False"

lemma same_history_op:
  assumes "\<not> appends_event q"
  shows "same_history s (apply_op (now, q) s)"
  using assms
  by (cases q)
    (auto simp: set_feed_topic_def set_delayed_def record_field_error_def Let_def clear_active_def
      mark_topic_started_def mark_topic_streaming_def split: option.split)

lemma history_append_op:
  assumes "appends_event q"
  shows "\<exists>e s'. same_history s s' \<and> apply_op (now, q) s = append_event e s'"
  using assms
  by (cases q)
    (auto simp: record_subscription_event_def push_event_def record_session_state_def
      record_service_state_def record_admin_warning_def record_admin_warning_cleared_def
      record_admin_data_loss_def Let_def intro!: exI conjI)

lemma length_keep_last [simp]: "length (keep_last n xs) = min n (length xs)"
  by (auto simp: keep_last_def)

lemma keep_last_append: "keep_last n (keep_last n xs @ ys) = keep_last n (xs @ ys)"
  by (cases "length xs \<le> n") (simp_all add: keep_last_def add.commute)

lemma keep_last_short [simp]: "length xs \<le> n \<Longrightarrow> keep_last n xs = xs"
  by (simp add: keep_last_def)

lemma history_since_refl [simp]: "history_since s [] s"
  by (simp add: history_since_def option.map_ident)

lemma history_since_same: "history_since s0 es s \<Longrightarrow> same_history s s' \<Longrightarrow> history_since s0 es s'"
  by (simp add: history_since_def same_history_def)

lemma append_events_keep_last:
  "length xs \<le> n \<Longrightarrow> 0 < n \<Longrightarrow> (if n \<le> length xs then tl xs else xs) @ [e] = keep_last n (xs @ [e])"
  by (cases xs) (auto simp: keep_last_def)

lemma history_since_length:
  "history_since s0 es s \<Longrightarrow> length (st_events s0) \<le> SUBSCRIPTION_EVENT_HISTORY_LIMIT \<Longrightarrow>
     length (st_events s) \<le> SUBSCRIPTION_EVENT_HISTORY_LIMIT"
  by (simp add: history_since_def split: if_splits)

lemma history_since_append:
  assumes h: "history_since s0 es s" and len: "length (st_events s0) \<le> SUBSCRIPTION_EVENT_HISTORY_LIMIT"
  shows "history_since s0 (es @ [e]) (append_event e s)"
proof -
  let ?n = SUBSCRIPTION_EVENT_HISTORY_LIMIT
  have n: "0 < ?n" by (simp add: SUBSCRIPTION_EVENT_HISTORY_LIMIT_def)
  have "st_events (append_event e s) = keep_last ?n (st_events s @ [e])"
    using append_events_keep_last [OF history_since_length [OF h len] n] by (simp add: append_event_def)
  also have "st_events s = keep_last ?n (st_events s0 @ es)"
    using h len by (auto simp: history_since_def)
  finally have "st_events (append_event e s) = keep_last ?n (st_events s0 @ es @ [e])"
    by (simp add: keep_last_append)
  with h show ?thesis
    by (auto simp: history_since_def append_event_def option.map_comp comp_def)
qed

lemma run_ops_history:
  assumes len: "length (st_events s0) \<le> SUBSCRIPTION_EVENT_HISTORY_LIMIT"
    and h: "history_since s0 es s"
  shows "\<exists>es'. history_since s0 (es @ es') (run_ops ops s) \<and>
    length es' = length (filter (\<lambda>q. appends_event (snd q)) ops)"
  using h
proof (induction ops arbitrary: es s)
  case Nil
  then show ?case by (simp add: run_ops_def)
next
  case (Cons q ops)
  obtain now r where q: "q = (now, r)" by (cases q)
  show ?case
  proof (cases "appends_event r")
    case True
    then obtain e s' where s': "same_history s s'" "apply_op (now, r) s = append_event e s'"
      using history_append_op by blast
    have "history_since s0 (es @ [e]) (append_event e s')"
      by (rule history_since_append [OF history_since_same [OF Cons.prems s'(1)] len])
    from Cons.IH [OF this] obtain es' where "history_since s0 ((es @ [e]) @ es') (run_ops ops (append_event e s'))"
      "length es' = length (filter (\<lambda>q. appends_event (snd q)) ops)" by blast
    with True q s'(2) show ?thesis by (intro exI [of _ "e # es'"]) (simp add: run_ops_def)
  next
    case False
    have "history_since s0 es (apply_op q s)"
      using history_since_same [OF Cons.prems same_history_op [OF False]] by (simp add: q)
    from Cons.IH [OF this] False q show ?thesis by (simp add: run_ops_def)
  qed
qed

end
