(* ===== verification/Status_Inv.thy ===== *)
theory Status_Inv
  imports Status_Batch Status_History
begin

text \<open>
  Consistency of a snapshot's indexes (\<open>status_inv\<close>): the key and topic vectors list exactly
  the domains of two mutually inverse maps, and keys being cancelled are apart from active
  ones. Every operation keeps it; \<open>add_active\<close> under the conditions the worker establishes
  before it registers topics. Recording failures in one pass equals recording them one by one.
\<close>

section \<open>Consistency of the indexes\<close>

definition inverse_maps :: "('k \<rightharpoonup> 't) \<Rightarrow> ('t \<rightharpoonup> 'k) \<Rightarrow> bool" where
  "inverse_maps f g \<longleftrightarrow> (\<forall>k t. f k = Some t \<longleftrightarrow> g t = Some k)"

lemma inverse_mapsD: "inverse_maps f g \<Longrightarrow> f k = Some t \<longleftrightarrow> g t = Some k"
  by (simp add: inverse_maps_def)

lemma inverse_maps_remove:
  assumes inv: "inverse_maps f g" and k: "f k = Some t"
  shows "inverse_maps (f(k := None)) (g(t := None))"
proof -
  have "(f(k := None)) k' = Some t' \<longleftrightarrow> (g(t := None)) t' = Some k'" for k' t'
    using inverse_mapsD [OF inv, of k' t'] inverse_mapsD [OF inv, of k t']
      inverse_mapsD [OF inv, of k' t] k inverse_mapsD [OF inv, of k t]
    by (cases "k' = k"; cases "t' = t") auto
  then show ?thesis by (simp add: inverse_maps_def)
qed

lemma inverse_maps_add:
  assumes inv: "inverse_maps f g" and k: "f k = None" "g t = None"
  shows "inverse_maps (f(k \<mapsto> t)) (g(t \<mapsto> k))"
proof -
  have "(f(k \<mapsto> t)) k' = Some t' \<longleftrightarrow> (g(t \<mapsto> k)) t' = Some k'" for k' t'
    using inverse_mapsD [OF inv, of k' t'] k
    by (cases "k' = k"; cases "t' = t") auto
  then show ?thesis by (simp add: inverse_maps_def)
qed

definition idx_inv ::
  "slab_key list \<Rightarrow> string list \<Rightarrow> (string \<rightharpoonup> slab_key) \<Rightarrow> (slab_key \<rightharpoonup> string) \<Rightarrow>
     (slab_key \<times> string) list \<Rightarrow> (slab_key \<rightharpoonup> metrics_ref) \<Rightarrow> (string \<rightharpoonup> topic_status_info) \<Rightarrow> bool" where
  "idx_inv keys topics t2k k2t pend metrics states \<longleftrightarrow>
     distinct keys \<and> distinct topics \<and> set keys = dom k2t \<and> set topics = dom t2k \<and>
     inverse_maps k2t t2k \<and> dom metrics = dom k2t \<and>
     distinct (map fst pend) \<and> distinct (map snd pend) \<and>
     fst ` set pend \<inter> dom k2t = {} \<and> snd ` set pend \<inter> dom t2k = {} \<and> dom t2k \<subseteq> dom states"

definition status_inv :: "status_state \<Rightarrow> bool" where
  "status_inv s \<longleftrightarrow> \<not> st_defer_indices s \<and>
     idx_inv (st_keys s) (st_topics s) (st_topic_to_key s) (st_key_to_topic s)
       (st_pending_key_to_topic s) (st_metrics s) (st_topic_states s)"

lemma idx_invD:
  assumes "idx_inv keys topics t2k k2t pend metrics states"
  shows "distinct keys" "distinct topics" "set keys = dom k2t" "set topics = dom t2k"
    "inverse_maps k2t t2k" "dom metrics = dom k2t" "distinct (map fst pend)" "distinct (map snd pend)"
    "fst ` set pend \<inter> dom k2t = {}" "snd ` set pend \<inter> dom t2k = {}" "dom t2k \<subseteq> dom states"
  using assms by (simp_all add: idx_inv_def)

lemma idx_inv_remove:
  assumes inv: "idx_inv keys topics t2k k2t pend metrics states" and key: "k2t key = Some topic"
  shows "idx_inv (filter (\<lambda>k. k \<noteq> key) keys) (filter (\<lambda>t. t \<noteq> topic) topics)
    (t2k(topic := None)) (k2t(key := None)) pend (metrics(key := None)) states"
    and "key \<notin> fst ` set pend" and "topic \<notin> snd ` set pend" and "t2k topic = Some key"
proof -
  note D = idx_invD [OF inv]
  show t: "t2k topic = Some key" using inverse_mapsD [OF D(5)] key by blast
  show "key \<notin> fst ` set pend" "topic \<notin> snd ` set pend" using D(9,10) key t by blast+
  have "inverse_maps (k2t(key := None)) (t2k(topic := None))" by (rule inverse_maps_remove [OF D(5) key])
  moreover have "set (filter (\<lambda>k. k \<noteq> key) keys) = dom (k2t(key := None))"
    "set (filter (\<lambda>t. t \<noteq> topic) topics) = dom (t2k(topic := None))"
    "dom (metrics(key := None)) = dom (k2t(key := None))"
    by (auto simp: D(3,4,6))
  moreover have "fst ` set pend \<inter> dom (k2t(key := None)) = {}" "snd ` set pend \<inter> dom (t2k(topic := None)) = {}"
    "dom (t2k(topic := None)) \<subseteq> dom states"
    using D(9-11) by (simp_all only: dom_fun_upd) auto
  ultimately show "idx_inv (filter (\<lambda>k. k \<noteq> key) keys) (filter (\<lambda>t. t \<noteq> topic) topics)
    (t2k(topic := None)) (k2t(key := None)) pend (metrics(key := None)) states"
    unfolding idx_inv_def using D(1,2,7,8) by (metis distinct_filter)
qed

lemma idx_inv_states:
  assumes "idx_inv keys topics t2k k2t pend metrics states" and "dom t2k \<subseteq> dom states'"
  shows "idx_inv keys topics t2k k2t pend metrics states'"
  using assms by (simp add: idx_inv_def)

lemma idx_inv_pend_delete:
  assumes "idx_inv keys topics t2k k2t pend metrics states"
  shows "idx_inv keys topics t2k k2t (AList.delete key pend) metrics states"
proof -
  have sub: "set (AList.delete key pend) \<subseteq> set pend" by (auto simp: AList.delete_eq)
  have "distinct (map snd (AList.delete key pend))"
    using idx_invD(8) [OF assms] by (simp add: AList.delete_eq distinct_map_filter)
  moreover have "distinct (map fst (AList.delete key pend))"
    using idx_invD(7) [OF assms] by (rule AList.distinct_delete)
  moreover have "fst ` set (AList.delete key pend) \<inter> dom k2t = {}" "snd ` set (AList.delete key pend) \<inter> dom t2k = {}"
    using idx_invD(9,10) [OF assms] sub by blast+
  ultimately show ?thesis using assms by (simp add: idx_inv_def)
qed

lemma idx_inv_pend_add:
  assumes inv: "idx_inv keys topics t2k k2t pend metrics states"
    and new: "k2t key = None" "t2k topic = None" "key \<notin> fst ` set pend" "topic \<notin> snd ` set pend"
  shows "idx_inv keys topics t2k k2t (AList.update key topic pend) metrics states"
proof -
  have "AList.update key topic pend = pend @ [(key, topic)]"
    using new(3) by (induction pend) auto
  moreover have "fst ` set (pend @ [(key, topic)]) \<inter> dom k2t = {}"
    "snd ` set (pend @ [(key, topic)]) \<inter> dom t2k = {}"
    using idx_invD(9,10) [OF inv] new by auto
  ultimately show ?thesis using inv new by (simp add: idx_inv_def)
qed

lemma idx_inv_add:
  assumes inv: "idx_inv keys topics t2k k2t pend metrics states"
    and new: "k2t key = None" "t2k topic = None" "topic \<notin> snd ` set pend"
  shows "idx_inv (keys @ [key]) (topics @ [topic]) (t2k(topic \<mapsto> key)) (k2t(key \<mapsto> topic))
    (AList.delete key pend) (metrics(key \<mapsto> m)) (states(topic \<mapsto> i))"
proof -
  have sub: "set (AList.delete key pend) = {e \<in> set pend. fst e \<noteq> key}" by (auto simp: AList.delete_eq)
  note D = idx_invD [OF idx_inv_pend_delete [OF inv, of key]]
  have "key \<notin> set keys" "topic \<notin> set topics" using D(3,4) new by auto
  moreover have "fst ` set (AList.delete key pend) \<inter> dom (k2t(key \<mapsto> topic)) = {}"
    "snd ` set (AList.delete key pend) \<inter> dom (t2k(topic \<mapsto> key)) = {}"
    using D(9,10) new(3) by (auto simp: sub)
  moreover have "dom (t2k(topic \<mapsto> key)) \<subseteq> dom (states(topic \<mapsto> i))" using D(11) by auto
  ultimately show ?thesis
    unfolding idx_inv_def
    using D(1-4,6-8) inverse_maps_add [OF D(5) new(1,2)] by simp
qed

section \<open>Every operation keeps the indexes consistent\<close>

definition status_fields ::
  "status_state \<Rightarrow> slab_key list \<times> string list \<times> (string \<rightharpoonup> slab_key) \<times> (slab_key \<rightharpoonup> string) \<times>
     (slab_key \<times> string) list \<times> (slab_key \<rightharpoonup> metrics_ref) \<times> bool" where
  "status_fields s = (st_keys s, st_topics s, st_topic_to_key s, st_key_to_topic s,
     st_pending_key_to_topic s, st_metrics s, st_defer_indices s)"

text \<open>Operations that leave the indexes alone and forget no topic status.\<close>

lemma status_inv_same:
  assumes "status_inv s" "status_fields s' = status_fields s"
    "dom (st_topic_states s) \<subseteq> dom (st_topic_states s')"
  shows "status_inv s'"
proof -
  have "dom (st_topic_to_key s) \<subseteq> dom (st_topic_states s)"
    using idx_invD(11) assms(1) unfolding status_inv_def by blast
  then show ?thesis
    using assms idx_inv_states [of _ _ _ _ _ _ "st_topic_states s" "st_topic_states s'"]
    unfolding status_inv_def status_fields_def by auto
qed

lemma update_topic_state_same:
  "status_fields (update_topic_state topic state now s) = status_fields s"
  "dom (st_topic_states s) \<subseteq> dom (st_topic_states (update_topic_state topic state now s))"
  by (auto simp: update_topic_state_def status_fields_def)

lemma streams_same:
  "status_fields (snd (set_topic_streams_active topic active now s)) = status_fields s"
  "dom (st_topic_states s) \<subseteq> dom (st_topic_states (snd (set_topic_streams_active topic active now s)))"
  by (auto simp: set_topic_streams_active_def status_fields_def split: option.splits)

lemma note_failure_same:
  "status_fields (note_failure topic reason kind now s) = status_fields s"
  "dom (st_topic_states s) \<subseteq> dom (st_topic_states (note_failure topic reason kind now s))"
  using streams_same [where s = "update_topic_state topic (failure_state kind) now s" and topic = topic
      and active = False and now = now]
    update_topic_state_same [where s = s and topic = topic and state = "failure_state kind" and now = now]
  by (auto simp: note_failure_def Let_def status_fields_def)

lemma event_op_same:
  assumes "appends_event q"
  shows "status_fields (apply_op (now, q) s) = status_fields s"
    and "st_topic_states (apply_op (now, q) s) = st_topic_states s"
  using assms
  by (cases q; simp add: record_subscription_event_def push_event_def record_session_state_def
      record_service_state_def record_admin_warning_def record_admin_warning_cleared_def
      record_admin_data_loss_def append_event_def status_fields_def Let_def)+

lemma status_inv_update_topic_state: "status_inv s \<Longrightarrow> status_inv (update_topic_state topic state now s)"
  by (rule status_inv_same [OF _ update_topic_state_same])

lemma status_inv_streams: "status_inv s \<Longrightarrow> status_inv (snd (set_topic_streams_active topic active now s))"
  by (rule status_inv_same [OF _ streams_same])

lemma status_inv_note_failure: "status_inv s \<Longrightarrow> status_inv (note_failure topic reason kind now s)"
  by (rule status_inv_same [OF _ note_failure_same])

definition forget_key :: "slab_key \<Rightarrow> string \<Rightarrow> status_state \<Rightarrow> status_state" where
  "forget_key key topic s =
     (let s2 = unindex key topic s in s2\<lparr>st_metrics := (st_metrics s2)(key := None)\<rparr>)"

lemma status_inv_forget:
  assumes inv: "status_inv s" and key: "st_key_to_topic s key = Some topic"
  shows "status_inv (forget_key key topic s)"
    and "st_key_to_topic (forget_key key topic s) key = None"
    and "st_topic_to_key (forget_key key topic s) topic = None"
    and "key \<notin> fst ` set (st_pending_key_to_topic (forget_key key topic s))"
    and "topic \<notin> snd ` set (st_pending_key_to_topic (forget_key key topic s))"
  using inv idx_inv_remove [OF conjunct2 [OF inv [unfolded status_inv_def]] key]
  by (simp_all add: status_inv_def forget_key_def unindex_def remove_active_index_def Let_def)

lemma remove_topic_forget:
  "remove_topic topic s =
     (case st_topic_to_key s topic of None \<Rightarrow> (None, s) | Some key \<Rightarrow> (Some key, forget_key key topic s))"
  by (cases s) (simp add: remove_topic_def unindex_def forget_key_def Let_def split: option.split)

lemma status_inv_key:
  "status_inv s \<Longrightarrow> st_topic_to_key s topic = Some key \<longleftrightarrow> st_key_to_topic s key = Some topic"
  using inverse_mapsD [OF idx_invD(5)] unfolding status_inv_def by blast

lemma status_inv_remove_topic:
  assumes "status_inv s"
  shows "status_inv (snd (remove_topic topic s))"
    and "st_topic_to_key (snd (remove_topic topic s)) topic = None"
  using assms status_inv_forget [OF assms]
  by (auto simp: remove_topic_forget status_inv_key [OF assms] split: option.split)

lemma status_inv_pend_delete:
  "status_inv s \<Longrightarrow>
     status_inv (s\<lparr>st_pending_key_to_topic := AList.delete key (st_pending_key_to_topic s)\<rparr>)"
  by (simp add: status_inv_def idx_inv_pend_delete)

lemma status_inv_drop_states:
  assumes "status_inv s" "st_topic_to_key s topic = None"
  shows "status_inv (s\<lparr>st_topic_states := (st_topic_states s)(topic := None), st_field_errors := e\<rparr>)"
proof -
  have "dom (st_topic_to_key s) \<subseteq> dom ((st_topic_states s)(topic := None))"
    using assms idx_invD(11) unfolding status_inv_def by fastforce
  from idx_inv_states [OF conjunct2 [OF assms(1) [unfolded status_inv_def]] this] assms(1)
  show ?thesis by (simp add: status_inv_def)
qed

lemma status_inv_drop_topic:
  assumes inv: "status_inv s"
  shows "status_inv (snd (drop_topic topic s))"
proof -
  obtain removed s1 where s1: "remove_topic topic s = (removed, s1)" by (cases "remove_topic topic s")
  have 1: "status_inv s1" "st_topic_to_key s1 topic = None"
    using status_inv_remove_topic [OF inv, of topic] s1 by simp_all
  have 2: "status_inv (s1\<lparr>st_pending_key_to_topic := AList.delete k (st_pending_key_to_topic s1),
      st_topic_states := (st_topic_states s1)(topic := None), st_field_errors := e\<rparr>)" for k e
    using status_inv_drop_states [OF status_inv_pend_delete [OF 1(1)]] 1(2) by simp
  show ?thesis
    using status_inv_drop_states [OF 1] 2
    by (auto simp: drop_topic_def s1 split: option.split)
qed

lemma status_inv_unsubscribing:
  assumes inv: "status_inv s"
  shows "status_inv (snd (mark_topic_unsubscribing key now s))"
proof (cases "st_key_to_topic s key")
  case None
  then show ?thesis using inv by (simp add: mark_topic_unsubscribing_def)
next
  case (Some topic)
  let ?s = "forget_key key topic s"
  have "status_inv (?s\<lparr>st_pending_key_to_topic := AList.update key topic (st_pending_key_to_topic ?s)\<rparr>)"
    using status_inv_forget [OF inv Some] by (simp add: status_inv_def idx_inv_pend_add)
  moreover have "snd (mark_topic_unsubscribing key now s) = update_topic_state topic Unsubscribing now
    (?s\<lparr>st_pending_key_to_topic := AList.update key topic (st_pending_key_to_topic ?s)\<rparr>)"
    using Some by (simp add: mark_topic_unsubscribing_def forget_key_def unindex_def Let_def)
  ultimately show ?thesis by (simp add: status_inv_update_topic_state)
qed

text \<open>A pending key has nothing in the indexes to forget.\<close>

lemma forget_key_pending:
  assumes inv: "status_inv s" and key: "(key, topic) \<in> set (st_pending_key_to_topic s)"
  shows "forget_key key topic s = s"
proof -
  note D = idx_invD [OF conjunct2 [OF inv [unfolded status_inv_def]]]
  have k: "st_key_to_topic s key = None" "st_topic_to_key s topic = None"
    using D(9,10) key by force+
  then have "key \<notin> set (st_keys s)" "topic \<notin> set (st_topics s)" "key \<notin> dom (st_metrics s)"
    using D(3,4,6) by blast+
  then have "filter (\<lambda>k. k \<noteq> key) (st_keys s) = st_keys s" "filter (\<lambda>t. t \<noteq> topic) (st_topics s) = st_topics s"
    by (auto intro: filter_True)
  moreover have "(st_key_to_topic s)(key := None) = st_key_to_topic s"
    "(st_topic_to_key s)(topic := None) = st_topic_to_key s" "(st_metrics s)(key := None) = st_metrics s"
    using k \<open>key \<notin> dom (st_metrics s)\<close> by (auto simp: fun_upd_idem dom_def)
  ultimately show ?thesis
    using inv by (simp add: forget_key_def unindex_def remove_active_index_def status_inv_def)
qed

lemma finalize_key_forget:
  "finalize_key key s =
     (case finalize_case key s of
        None \<Rightarrow> (None, s)
      | Some (active, topic) \<Rightarrow>
          (Some topic, forget_key key topic
             (if active then s
              else s\<lparr>st_pending_key_to_topic := AList.delete key (st_pending_key_to_topic s)\<rparr>)))"
  by (simp add: finalize_key_cases forget_key_def split: option.split)

lemma finalize_case_pending:
  "finalize_case key s = Some (False, topic) \<Longrightarrow> (key, topic) \<in> set (st_pending_key_to_topic s)"
  by (auto simp: finalize_case_def dest: map_of_SomeD split: option.splits)

lemma finalize_case_active:
  "finalize_case key s = Some (True, topic) \<longleftrightarrow> st_key_to_topic s key = Some topic"
  by (auto simp: finalize_case_def split: option.splits)

lemma status_inv_finalize:
  assumes inv: "status_inv s"
  shows "status_inv (snd (finalize_key key s))"
proof (cases "finalize_case key s")
  case None
  then show ?thesis using inv by (simp add: finalize_key_forget)
next
  case (Some a)
  obtain active topic where a: "a = (active, topic)" by (cases a)
  show ?thesis
  proof (cases active)
    case True
    with Some a status_inv_forget(1) [OF inv] show ?thesis
      by (simp add: finalize_key_forget finalize_case_active [symmetric])
  next
    case False
    let ?s = "s\<lparr>st_pending_key_to_topic := AList.delete key (st_pending_key_to_topic s)\<rparr>"
    have "(key, topic) \<in> set (st_pending_key_to_topic s)"
      using Some a False finalize_case_pending by simp
    then have "forget_key key topic s = s" by (rule forget_key_pending [OF inv])
    moreover have "forget_key key topic ?s =
      (forget_key key topic s)\<lparr>st_pending_key_to_topic := AList.delete key (st_pending_key_to_topic s)\<rparr>"
      by (cases s) (simp add: forget_key_def unindex_def remove_active_index_def Let_def)
    ultimately have "forget_key key topic ?s = ?s" by simp
    with Some a False status_inv_pend_delete [OF inv] show ?thesis by (simp add: finalize_key_forget)
  qed
qed

lemma finalize_cases_simp:
  "snd (mark_topic_unsubscribed key now s) =
     (case fst (finalize_key key s) of
        None \<Rightarrow> snd (finalize_key key s)
      | Some topic \<Rightarrow> snd (set_topic_streams_active topic False now
          (update_topic_state topic Unsubscribed now (snd (finalize_key key s)))))"
  "snd (record_failure key reason kind now s) =
     (case fst (finalize_key key s) of
        None \<Rightarrow> snd (finalize_key key s)
      | Some topic \<Rightarrow> note_failure topic reason kind now (snd (finalize_key key s)))"
  by (simp_all add: mark_topic_unsubscribed_def record_failure_def split: prod.split option.split)

lemma status_inv_unsubscribed: "status_inv s \<Longrightarrow> status_inv (snd (mark_topic_unsubscribed key now s))"
  by (simp add: finalize_cases_simp status_inv_finalize status_inv_streams status_inv_update_topic_state
      split: option.split)

lemma status_inv_record_failure: "status_inv s \<Longrightarrow> status_inv (snd (record_failure key reason kind now s))"
  by (simp add: finalize_cases_simp status_inv_finalize status_inv_note_failure split: option.split)

lemma status_inv_mark: "status_inv s \<Longrightarrow> status_inv (snd (mark_topic state key now s))"
  by (simp add: mark_topic_def status_inv_update_topic_state split: option.split)

lemma status_inv_clear: "status_inv s \<Longrightarrow> status_inv (clear_active now s)"
  by (simp add: status_inv_def idx_inv_def clear_active_def inverse_maps_def)

text \<open>What \<open>add_active\<close> relies on: one key and one metric per topic, no topic twice, and none
  that is still active or still being cancelled, and keys that are not in use.\<close>

definition can_add :: "string list \<Rightarrow> slab_key list \<Rightarrow> metrics_ref list \<Rightarrow> status_state \<Rightarrow> bool" where
  "can_add topics keys metrics s \<longleftrightarrow>
     length keys = length topics \<and> length metrics = length topics \<and> distinct topics \<and> distinct keys \<and>
     (\<forall>t \<in> set topics. st_topic_to_key s t = None \<and> t \<notin> snd ` set (st_pending_key_to_topic s)) \<and>
     (\<forall>k \<in> set keys. st_key_to_topic s k = None)"

lemma status_inv_add_one:
  assumes "status_inv s" "st_key_to_topic s key = None" "st_topic_to_key s topic = None"
    "topic \<notin> snd ` set (st_pending_key_to_topic s)"
  shows "status_inv (add_one now ((topic, key), m) s)"
  using assms(1) idx_inv_add [OF conjunct2 [OF assms(1) [unfolded status_inv_def]] assms(2-4)]
  by (simp add: status_inv_def add_one_def Let_def)

lemma status_inv_fold_add:
  "status_inv s \<Longrightarrow> can_add topics keys metrics s \<Longrightarrow>
     status_inv (fold (add_one now) (zip (zip topics keys) metrics) s)"
proof (induction topics arbitrary: keys metrics s)
  case Nil
  then show ?case by simp
next
  case (Cons t ts)
  then obtain k ks m ms where e: "keys = k # ks" "metrics = m # ms"
    by (cases keys; cases metrics) (auto simp: can_add_def)
  let ?s = "add_one now ((t, k), m) s"
  have "status_inv ?s"
    using Cons.prems e by (intro status_inv_add_one) (auto simp: can_add_def)
  moreover have "can_add ts ks ms ?s"
    using Cons.prems(2) by (auto simp: can_add_def e add_one_def Let_def AList.delete_eq)
  ultimately show ?case using Cons.IH by (simp add: e)
qed

lemma status_inv_add_active:
  assumes "status_inv s" "can_add topics keys metrics s"
  shows "status_inv (add_active topics keys metrics now s)"
proof -
  let ?s = "if st_keys s = [] then s\<lparr>st_session := (st_session s)\<lparr>se_state := Up, se_last_change_us := now\<rparr>\<rparr> else s"
  have "status_inv ?s" "can_add topics keys metrics ?s"
    using assms by (simp_all add: status_inv_def can_add_def split: if_splits) metis
  from status_inv_fold_add [OF this] show ?thesis by (simp add: add_active_def Let_def)
qed

section \<open>Recording failures together or one by one\<close>

definition record_each ::
  "i64 \<Rightarrow> (slab_key \<times> string \<times> subscription_failure_kind) list \<Rightarrow> status_state \<Rightarrow> status_state" where
  "record_each now fs = fold (\<lambda>(key, reason, kind) s. snd (record_failure key reason kind now s)) fs"

definition trim_index :: "slab_key set \<Rightarrow> status_state \<Rightarrow> status_state" where
  "trim_index K s =
     s\<lparr>st_keys := filter (\<lambda>k. k \<notin> K) (st_keys s),
       st_topics := filter (\<lambda>t. st_topic_to_key s t \<noteq> None) (st_topics s)\<rparr>"

lemma note_failure_trim:
  "trim_index K (note_failure topic reason kind now s) = note_failure topic reason kind now (trim_index K s)"
  by (cases s) (auto simp: trim_index_def note_failure_def update_topic_state_def
      set_topic_streams_active_def Let_def split: option.split)

lemma record_one_failure_cases:
  "record_one_failure now (key, reason, kind) s =
     (case finalize_case key s of
        None \<Rightarrow> s
      | Some (active, topic) \<Rightarrow>
          note_failure topic reason kind now
            (s\<lparr>st_key_to_topic := (st_key_to_topic s)(key := None),
               st_pending_key_to_topic :=
                 (if active then st_pending_key_to_topic s
                  else AList.delete key (st_pending_key_to_topic s)),
               st_topic_to_key := (st_topic_to_key s)(topic := None),
               st_metrics := (st_metrics s)(key := None)\<rparr>))"
proof -
  have "(st_key_to_topic s)(key := None) = st_key_to_topic s" if "st_key_to_topic s key = None"
    using that by (rule fun_upd_idem)
  then show ?thesis
    by (cases s) (auto simp: record_one_failure_def finalize_case_def take_key_def split: option.split)
qed

lemma trim_index_fields [simp]:
  "st_key_to_topic (trim_index K s) = st_key_to_topic s"
  "st_topic_to_key (trim_index K s) = st_topic_to_key s"
  "st_pending_key_to_topic (trim_index K s) = st_pending_key_to_topic s"
  "st_metrics (trim_index K s) = st_metrics s" "st_defer_indices (trim_index K s) = st_defer_indices s"
  "finalize_case key (trim_index K s) = finalize_case key s"
  by (simp_all add: trim_index_def finalize_case_def split: option.split)

lemma record_one_trim:
  assumes inv: "status_inv (trim_index K s)"
  shows "trim_index (insert key K) (record_one_failure now (key, reason, kind) s) =
    snd (record_failure key reason kind now (trim_index K s))"
proof (cases "finalize_case key s")
  case None
  then have "st_key_to_topic s key = None" by (simp add: finalize_case_def split: option.splits)
  then have "key \<notin> set (st_keys (trim_index K s))"
    using inv idx_invD(3) unfolding status_inv_def by fastforce
  then have "filter (\<lambda>k. k \<notin> insert key K) (st_keys s) = filter (\<lambda>k. k \<notin> K) (st_keys s)"
    by (auto simp: trim_index_def intro: filter_cong)
  then have "trim_index (insert key K) s = trim_index K s" by (simp only: trim_index_def)
  with None show ?thesis
    by (simp add: record_one_failure_cases finalize_cases_simp finalize_key_forget)
next
  case (Some a)
  obtain active topic where a: "a = (active, topic)" by (cases a)
  let ?s = "s\<lparr>st_key_to_topic := (st_key_to_topic s)(key := None),
     st_pending_key_to_topic :=
       (if active then st_pending_key_to_topic s else AList.delete key (st_pending_key_to_topic s)),
     st_topic_to_key := (st_topic_to_key s)(topic := None),
     st_metrics := (st_metrics s)(key := None)\<rparr>"
  let ?t = "if active then trim_index K s
    else (trim_index K s)\<lparr>st_pending_key_to_topic := AList.delete key (st_pending_key_to_topic s)\<rparr>"
  have eager: "\<not> st_defer_indices s" using inv by (simp add: status_inv_def)
  have "trim_index (insert key K) ?s = forget_key key topic ?t"
    using eager
    by (cases s) (auto simp: trim_index_def forget_key_def unindex_def remove_active_index_def Let_def
        intro!: filter_cong)
  with Some a show ?thesis
    by (simp add: record_one_failure_cases finalize_cases_simp finalize_key_forget note_failure_trim)
qed

lemma fold_record_one:
  assumes "status_inv (trim_index K s)"
  shows "trim_index (fst ` set fs \<union> K) (fold (record_one_failure now) fs s) = record_each now fs (trim_index K s)"
  using assms
proof (induction fs arbitrary: K s)
  case Nil
  then show ?case by (simp add: record_each_def)
next
  case (Cons f fs)
  obtain key reason kind where f: "f = (key, reason, kind)" by (cases f)
  note one = record_one_trim [OF Cons.prems, of key now reason kind]
  have "status_inv (trim_index (insert key K) (record_one_failure now f s))"
    unfolding f one by (rule status_inv_record_failure [OF Cons.prems])
  from Cons.IH [OF this] show ?case
    using one by (simp add: f record_each_def)
qed

lemma trim_index_inv: "status_inv s \<Longrightarrow> trim_index {} s = s"
  using idx_invD(4) unfolding status_inv_def by (cases s) (force simp: trim_index_def filter_id_conv)

lemma record_failures_each:
  assumes inv: "status_inv s"
  shows "record_failures fs now s = record_each now fs s"
proof -
  have "trim_index (fst ` set fs \<union> {}) (fold (record_one_failure now) fs s) = record_each now fs s"
    using fold_record_one [of "{}" s fs now] inv by (simp add: trim_index_inv)
  then show ?thesis by (simp add: record_failures_def trim_index_def Let_def)
qed

lemma status_inv_record_each: "status_inv s \<Longrightarrow> status_inv (record_each now fs s)"
  by (induction fs arbitrary: s) (auto simp: record_each_def status_inv_record_failure)

section \<open>Sequences of operations\<close>

fun op_allowed :: "status_op \<Rightarrow> status_state \<Rightarrow> bool" where
  "op_allowed (AddActive topics keys metrics) s = can_add topics keys metrics s"
| "op_allowed _ s = True"

fun ops_allowed :: "(i64 \<times> status_op) list \<Rightarrow> status_state \<Rightarrow> bool" where
  "ops_allowed [] s = True"
| "ops_allowed (q # qs) s = (op_allowed (snd q) s \<and> ops_allowed qs (apply_op q s))"

lemma status_inv_op:
  assumes inv: "status_inv s" and ok: "op_allowed q s"
  shows "status_inv (apply_op (now, q) s)"
proof (cases "appends_event q")
  case True
  show ?thesis by (rule status_inv_same [OF inv]) (simp_all add: event_op_same [OF True])
next
  case False
  have "status_inv (set_feed_topic l f s)" "status_inv (set_delayed l d s)" "status_inv (record_field_error l f c s)"
    for l f d c
    by (rule status_inv_same [OF inv];
        auto simp: set_feed_topic_def set_delayed_def record_field_error_def status_fields_def Let_def
          split: option.split)+
  with inv ok False show ?thesis
    by (cases q)
      (simp_all add: status_inv_add_active status_inv_remove_topic status_inv_drop_topic status_inv_streams
        mark_topic_started_def mark_topic_streaming_def status_inv_mark status_inv_unsubscribing
        status_inv_unsubscribed status_inv_record_failure record_failures_each status_inv_record_each
        status_inv_clear)
qed

lemma status_inv_ops: "status_inv s \<Longrightarrow> ops_allowed ops s \<Longrightarrow> status_inv (run_ops ops s)"
proof (induction ops arbitrary: s)
  case (Cons q qs)
  then show ?case by (cases q) (simp add: run_ops_def status_inv_op)
qed (simp add: run_ops_def)

end
