(* ===== verification/Status_Props.thy ===== *)
theory Status_Props
  imports Status_Inv
begin

text \<open>
  What a status snapshot and its handle guarantee: consistent indexes, batched updates that
  equal eager ones, an exact event history and warnings that are delivered exactly once.
\<close>

section \<open>Indexes\<close>

lemma status_inv_default: "status_inv (status_default now)"
  by (simp add: status_inv_def idx_inv_def status_default_def inverse_maps_def)

definition sample_ops :: "(i64 \<times> status_op) list" where
  "sample_ops =
     [(1, AddActive [''A'', ''B''] [1, 2] [0, 1]), (2, MarkUnsubscribing 1),
      (3, RecordFailures [(2, ''down'', Failure)]), (4, MarkUnsubscribed 1),
      (5, AddActive [''A''] [3] [2])]"

lemma sample_ops_allowed: "ops_allowed sample_ops (status_default 0)"
  by code_simp

text \<open>C18: from the empty snapshot, any sequence of status operations in which topics are added
  only once their previous subscription is gone keeps the indexes consistent: no key or topic
  is listed twice, the vectors list exactly the active keys and topics, the two lookup maps are
  inverse to each other, every active key has metrics and every active topic a status, and a
  key or topic being cancelled is not active.\<close>

theorem status_indexes_consistent:
  assumes "ops_allowed ops (status_default now)"
  defines "s \<equiv> run_ops ops (status_default now)"
  shows "distinct (st_keys s) \<and> distinct (st_topics s) \<and>
    set (st_keys s) = dom (st_key_to_topic s) \<and> set (st_topics s) = dom (st_topic_to_key s) \<and>
    (\<forall>k t. st_key_to_topic s k = Some t \<longleftrightarrow> st_topic_to_key s t = Some k) \<and>
    dom (st_metrics s) = set (st_keys s) \<and> set (st_topics s) \<subseteq> dom (st_topic_states s) \<and>
    fst ` set (st_pending_key_to_topic s) \<inter> set (st_keys s) = {} \<and>
    snd ` set (st_pending_key_to_topic s) \<inter> set (st_topics s) = {}"
proof -
  have "status_inv s" unfolding s_def by (rule status_inv_ops [OF status_inv_default assms(1)])
  note D = idx_invD [OF conjunct2 [OF this [unfolded status_inv_def]]]
  show ?thesis
    using D(1-4,6,9-11) inverse_mapsD [OF D(5)] by simp
qed

theorem status_indexes_consistent_witness:
  "ops_allowed sample_ops (status_default 0) \<and>
   st_topics (run_ops sample_ops (status_default 0)) = [''A''] \<and>
   distinct (st_keys (run_ops sample_ops (status_default 0)))"
proof -
  have "st_topics (run_ops sample_ops (status_default 0)) = [''A'']" by code_simp
  with status_indexes_consistent [OF sample_ops_allowed] sample_ops_allowed show ?thesis by blast
qed

text \<open>C22: recording the failures of a whole session in one pass over the vectors gives the same
  snapshot as recording them one after the other.\<close>

theorem failures_together_as_one_by_one:
  assumes "ops_allowed ops (status_default now)"
  shows "record_failures fs t (run_ops ops (status_default now)) =
    fold (\<lambda>(key, reason, kind) s. snd (record_failure key reason kind t s)) fs
      (run_ops ops (status_default now))"
  using record_failures_each [OF status_inv_ops [OF status_inv_default assms]]
  by (simp add: record_each_def)

theorem failures_together_as_one_by_one_witness:
  "record_failures [(3, ''gone'', FailureTerminated), (9, ''x'', Failure)] 7 (run_ops sample_ops (status_default 0)) =
   fold (\<lambda>(key, reason, kind) s. snd (record_failure key reason kind 7 s))
     [(3, ''gone'', FailureTerminated), (9, ''x'', Failure)] (run_ops sample_ops (status_default 0))"
  by (rule failures_together_as_one_by_one [OF sample_ops_allowed])

section \<open>Batches\<close>

lemma quiet_default: "quiet (status_default now)"
  by (simp add: quiet_def index_clean_def status_default_def)

text \<open>C19: a batch published through \<open>update_topics\<close>, where the index vectors are only settled once
  at the end, publishes exactly the snapshot its mutations give when they are applied one by
  one to the current snapshot, for the three kinds of batches the subscription worker issues;
  it does so in one publication, and the published snapshot is again fit for the next batch.\<close>

theorem batch_publishes_eager_snapshot:
  assumes "quiet (sh_snapshot h)"
    and "f = apply_mutations now ms \<or> f = apply_unsubscribing now ks \<or> f = apply_data_event now as bs cs"
  shows "sh_snapshot (update_topics keys f h) = f (sh_snapshot h) \<and>
    sh_revision (update_topics keys f h) = sh_revision h + 1 \<and> quiet (f (sh_snapshot h))"
proof -
  have "sh_revision (update_topics keys f h) = sh_revision h + 1"
    by (simp add: update_topics_def update_scoped_def Let_def notify_observer_def publish_def
        split: option.split)
  then show ?thesis
    using assms(2) mutations.publishes [OF assms(1)] unsubscribing.publishes [OF assms(1)]
      data_event.publishes [OF assms(1)]
    unfolding update_topics_def by (elim disjE) simp_all
qed

theorem batch_publishes_eager_snapshot_witness:
  "let h = handle_new (run_ops sample_ops (status_default 0));
       ms = [MStarted 3 None, MFailed 3 ''A'' ''bad'' Failure ''SubscriptionFailure''] in
   sh_snapshot (update_topics [3, 3] (apply_mutations 9 ms) h) = apply_mutations 9 ms (sh_snapshot h) \<and>
   st_keys (apply_mutations 9 ms (sh_snapshot h)) = []"
proof -
  let ?h = "handle_new (run_ops sample_ops (status_default 0))"
  let ?ms = "[MStarted 3 None, MFailed 3 ''A'' ''bad'' Failure ''SubscriptionFailure'']"
  have q: "quiet (sh_snapshot ?h)" by code_simp
  have "st_keys (apply_mutations 9 ?ms (sh_snapshot ?h)) = []" by code_simp
  with batch_publishes_eager_snapshot [where h = ?h and f = "apply_mutations 9 ?ms" and keys = "[3, 3]",
      OF q disjI1 [OF refl]] show ?thesis
    by (simp add: Let_def)
qed

section \<open>Event history and warnings\<close>

text \<open>C21: whatever operations run, the observer's buffer collects every event they append, in
  order; the bounded history holds the most recent 128 events, the sequence number counts all
  of them modulo \<open>2 ^ 64\<close>, and the pending warnings are exactly the kept ones, in order. An
  operation appends one event or none.\<close>

theorem status_history_exact:
  assumes "st_observer_events s = Some []" and "length (st_events s) \<le> SUBSCRIPTION_EVENT_HISTORY_LIMIT"
  shows "\<exists>es. st_observer_events (run_ops ops s) = Some es \<and>
    length es = length (filter (\<lambda>q. appends_event (snd q)) ops) \<and>
    st_events (run_ops ops s) = drop (length (st_events s @ es) - 128) (st_events s @ es) \<and>
    st_event_sequence (run_ops ops s) = st_event_sequence s + of_nat (length es) \<and>
    st_warnings (run_ops ops s) = st_warnings s @ filter is_kept_warning es"
proof -
  obtain es where h: "history_since s es (run_ops ops s)"
    and n: "length es = length (filter (\<lambda>q. appends_event (snd q)) ops)"
    using run_ops_history [OF assms(2) history_since_refl, of ops] by auto
  have "st_events (run_ops ops s) = keep_last SUBSCRIPTION_EVENT_HISTORY_LIMIT (st_events s @ es)"
    using h assms(2) by (auto simp: history_since_def)
  with h n assms(1) show ?thesis
    by (intro exI [of _ es]) (simp add: history_since_def keep_last_def SUBSCRIPTION_EVENT_HISTORY_LIMIT_def)
qed

theorem status_history_exact_witness:
  "\<exists>es. st_observer_events (run_ops [(1, RecordAdminWarning ''SlowConsumerWarning'' None),
      (2, RecordSubscriptionEvent ''DelayedStream'' (Some ''A'') None Warning)]
      ((status_default 0)\<lparr>st_observer_events := Some []\<rparr>)) = Some es \<and> length es = 2"
  using status_history_exact [of "(status_default 0)\<lparr>st_observer_events := Some []\<rparr>"
      "[(1, RecordAdminWarning ''SlowConsumerWarning'' None),
      (2, RecordSubscriptionEvent ''DelayedStream'' (Some ''A'') None Warning)]"]
  by (auto simp: status_default_def)

text \<open>Calls on a handle: an update, or draining the warnings.\<close>

datatype handle_call = CallUpdate status_scope "(i64 \<times> status_op) list" | CallTakeWarnings

fun run_call :: "handle_call \<Rightarrow> status_handle \<Rightarrow> subscription_event_info list \<times> status_handle" where
  "run_call (CallUpdate scope ops) h = ([], snd (update_scoped scope (\<lambda>s. ((), run_ops ops s)) h))"
| "run_call CallTakeWarnings h = handle_take_warnings h"

fun run_calls :: "handle_call list \<Rightarrow> status_handle \<Rightarrow> subscription_event_info list \<times> status_handle" where
  "run_calls [] h = ([], h)"
| "run_calls (c # cs) h =
     (let (ws, h1) = run_call c h; (ws', h2) = run_calls cs h1 in (ws @ ws', h2))"

definition observed_events :: "status_handle \<Rightarrow> subscription_event_info list" where
  "observed_events h = concat (map oc_events (sh_observed h))"

definition handle_ok :: "status_handle \<Rightarrow> bool" where
  "handle_ok h \<longleftrightarrow> sh_observer h \<noteq> None \<and>
     sh_pending_warnings h = length (st_warnings (sh_snapshot h)) \<and>
     length (st_events (sh_snapshot h)) \<le> SUBSCRIPTION_EVENT_HISTORY_LIMIT"

lemma finish_index_history [simp]:
  "st_observer_events (finish_index_changes s) = st_observer_events s"
  "st_events (finish_index_changes s) = st_events s"
  "st_warnings (finish_index_changes s) = st_warnings s"
  by (simp_all add: finish_index_changes_def Let_def)

lemma update_call_warnings:
  assumes ok: "handle_ok h"
    and h': "h' = snd (update_scoped scope (\<lambda>s. ((), run_ops ops s)) h)"
  shows "handle_ok h' \<and> (\<exists>es. observed_events h' = observed_events h @ es \<and>
    st_warnings (sh_snapshot h') = st_warnings (sh_snapshot h) @ filter is_kept_warning es)"
proof -
  obtain x where x: "sh_observer h = Some x" using ok by (auto simp: handle_ok_def)
  let ?s = "(sh_snapshot h)\<lparr>st_observer_events := Some [], st_defer_indices := defers scope\<rparr>"
  have len: "length (st_events ?s) \<le> SUBSCRIPTION_EVENT_HISTORY_LIMIT" using ok by (simp add: handle_ok_def)
  obtain es where h: "history_since ?s es (run_ops ops ?s)"
    using run_ops_history [OF len history_since_refl, of ops] by auto
  have "length (st_events (run_ops ops ?s)) \<le> SUBSCRIPTION_EVENT_HISTORY_LIMIT"
    by (rule history_since_length [OF h len])
  with h x show ?thesis
    unfolding h'
    by (auto simp: update_scoped_def Let_def notify_observer_def publish_def handle_ok_def
        observed_events_def history_since_def intro!: exI [of _ es])
qed

lemma take_call_warnings:
  assumes ok: "handle_ok h"
    and h': "h' = snd (handle_take_warnings h)"
  shows "handle_ok h' \<and> observed_events h' = observed_events h \<and> st_warnings (sh_snapshot h') = [] \<and>
    fst (handle_take_warnings h) = st_warnings (sh_snapshot h)"
  using ok unfolding h'
  by (auto simp: handle_take_warnings_def take_warnings_def Let_def notify_observer_def handle_ok_def
      observed_events_def split: option.split)

lemma run_calls_warnings:
  "handle_ok h \<Longrightarrow> run_calls cs h = (ws, h') \<Longrightarrow>
     handle_ok h' \<and> (\<exists>es. observed_events h' = observed_events h @ es \<and>
       ws @ st_warnings (sh_snapshot h') = st_warnings (sh_snapshot h) @ filter is_kept_warning es)"
proof (induction cs arbitrary: h ws)
  case Nil
  then show ?case by simp
next
  case (Cons c cs)
  obtain ws1 h1 where c: "run_call c h = (ws1, h1)" by (cases "run_call c h")
  obtain ws2 where cs: "run_calls cs h1 = (ws2, h')" "ws = ws1 @ ws2"
    using Cons.prems(2) c by (auto simp: Let_def split: prod.splits)
  have 1: "handle_ok h1 \<and> (\<exists>es. observed_events h1 = observed_events h @ es \<and>
     ws1 @ st_warnings (sh_snapshot h1) = st_warnings (sh_snapshot h) @ filter is_kept_warning es)"
  proof (cases c)
    case (CallUpdate scope ops)
    with c update_call_warnings [OF Cons.prems(1) refl, of scope ops] show ?thesis by auto
  next
    case CallTakeWarnings
    with c take_call_warnings [OF Cons.prems(1) refl] show ?thesis by (auto intro!: exI [of _ "[]"])
  qed
  then obtain es where es: "handle_ok h1" "observed_events h1 = observed_events h @ es"
    "ws1 @ st_warnings (sh_snapshot h1) = st_warnings (sh_snapshot h) @ filter is_kept_warning es" by blast
  from Cons.IH [OF es(1) cs(1)] obtain es' where es': "handle_ok h'"
    "observed_events h' = observed_events h1 @ es'"
    "ws2 @ st_warnings (sh_snapshot h') = st_warnings (sh_snapshot h1) @ filter is_kept_warning es'" by blast
  have "ws @ st_warnings (sh_snapshot h') = st_warnings (sh_snapshot h) @ filter is_kept_warning (es @ es')"
    using es(3) es'(3) cs(2) by (metis append.assoc filter_append)
  with es es' show ?case by (intro conjI exI [of _ "es @ es'"]) simp_all
qed

text \<open>C20: every warning reaches the application exactly once: on a handle with an observer,
  whatever updates are published and whenever the warnings are drained, the drained warnings
  followed by those still pending are exactly the kept warnings among the events the observer
  was shown, in order.\<close>

theorem warnings_delivered_exactly_once:
  assumes "run_calls cs (handle_with_observer observer now) = (ws, h)"
  shows "ws @ st_warnings (sh_snapshot h) =
    filter is_kept_warning (concat (map oc_events (sh_observed h)))"
proof -
  have "handle_ok (handle_with_observer observer now)"
    by (simp add: handle_ok_def handle_with_observer_def status_default_def)
  from run_calls_warnings [OF this assms] show ?thesis
    by (auto simp: observed_events_def handle_with_observer_def status_default_def)
qed

theorem warnings_delivered_exactly_once_witness:
  "\<exists>ws h. run_calls [CallUpdate Global [(1, RecordSubscriptionEvent ''FieldException'' None None Warning)],
      CallTakeWarnings, CallUpdate (Topics [1, 2]) [(2, RecordSubscriptionEvent ''DelayedStream'' None None Warning)]]
      (handle_with_observer 0 0) = (ws, h) \<and>
    length ws = 1 \<and> ws @ st_warnings (sh_snapshot h) =
      filter is_kept_warning (concat (map oc_events (sh_observed h)))"
proof -
  let ?cs = "[CallUpdate Global [(1, RecordSubscriptionEvent ''FieldException'' None None Warning)],
      CallTakeWarnings, CallUpdate (Topics [1, 2]) [(2, RecordSubscriptionEvent ''DelayedStream'' None None Warning)]]"
  obtain ws h where r: "run_calls ?cs (handle_with_observer 0 0) = (ws, h)"
    by (cases "run_calls ?cs (handle_with_observer 0 0)")
  have "length (fst (run_calls ?cs (handle_with_observer 0 0))) = 1" by code_simp
  with warnings_delivered_exactly_once [OF r] r show ?thesis by auto
qed

end
