(* ===== verification/Request_Params.thy ===== *)
theory Request_Params
  imports Errors Services
begin

text \<open>
  The parameters of a request: the public input record and its conversion
  (engine/mod.rs), the normalisation of empty values (engine/request_plan.rs), the delayed-data
  policy (engine/delayed.rs) and the field types a caller may name
  (engine/state/typed_builder.rs). A \<open>HashMap\<close> of strings is an association list, in an
  arbitrary iteration order.
\<close>

section \<open>Field types and policies\<close>

datatype arrow_type =
    Float64 | Int64 | Int32 | String | Bool | Date32 | TimestampMicros | Time64Micros

definition arrow_type_parse :: "string \<Rightarrow> (arrow_type, blp_error) result" where
  "arrow_type_parse s =
     (let t = to_ascii_lowercase (trim s) in
      if t \<in> {''float64'', ''float'', ''double'', ''f64''} then Inr Float64
      else if t \<in> {''int64'', ''int'', ''integer'', ''i64''} then Inr Int64
      else if t \<in> {''int32'', ''i32''} then Inr Int32
      else if t = ''string'' then Inr String
      else if t \<in> {''bool'', ''boolean''} then Inr Bool
      else if t \<in> {''date32'', ''date''} then Inr Date32
      else if t \<in> {''timestamp'', ''datetime'', ''timestamp_us''} then Inr TimestampMicros
      else if t \<in> {''time64'', ''time'', ''time64_us''} then Inr Time64Micros
      else Inl (InvalidArgument (''unsupported field type; expected float64, int64, int32, string, bool, '' @
             ''date32, timestamp, or time64 (or a supported alias)'')))"

datatype delayed_policy = Warn | Raise | Ignore

definition delayed_policy_from_str :: "string \<Rightarrow> (delayed_policy, blp_async_error) result" where
  "delayed_policy_from_str s =
     (let t = to_ascii_lowercase (trim s) in
      if t = ''warn'' then Inr Warn
      else if t = ''raise'' then Inr Raise
      else if t = ''ignore'' then Inr Ignore
      else Inl (ConfigError ''on_delayed must be warn, raise, or ignore''))"

section \<open>Request parameters\<close>

type_synonym override_pairs = "(string \<times> string) list"
type_synonym security_override_pairs = "(string \<times> override_pairs) list"

record request_params =
  rq_service :: string
  rq_operation :: string
  rq_request_operation :: "string option"
  rq_request_id :: "string option"
  rq_extractor :: extractor_type
  rq_extractor_set :: bool
  rq_securities :: "string list option"
  rq_security :: "string option"
  rq_fields :: "string list option"
  rq_overrides :: "override_pairs option"
  rq_security_overrides :: "security_override_pairs option"
  rq_elements :: "(string \<times> string) list option"
  rq_kwargs :: "(string \<times> string) list option"
  rq_start_date :: "string option"
  rq_end_date :: "string option"
  rq_start_datetime :: "string option"
  rq_end_datetime :: "string option"
  rq_request_tz :: "string option"
  rq_output_tz :: "string option"
  rq_event_type :: "string option"
  rq_event_types :: "string list option"
  rq_interval :: "u32 option"
  rq_options :: "(string \<times> string) list option"
  rq_field_types :: "(string \<times> string) list option"
  rq_include_security_errors :: bool
  rq_return_eids :: bool
  rq_on_delayed :: "delayed_policy option"
  rq_validate_fields :: "bool option"
  rq_search_spec :: "string option"
  rq_field_ids :: "string list option"
  rq_format :: "string option"

definition request_params_default :: request_params where
  "request_params_default =
     \<lparr>rq_service = [], rq_operation = [], rq_request_operation = None, rq_request_id = None,
      rq_extractor = extractor_default, rq_extractor_set = False, rq_securities = None,
      rq_security = None, rq_fields = None, rq_overrides = None, rq_security_overrides = None,
      rq_elements = None, rq_kwargs = None, rq_start_date = None, rq_end_date = None,
      rq_start_datetime = None, rq_end_datetime = None, rq_request_tz = None, rq_output_tz = None,
      rq_event_type = None, rq_event_types = None, rq_interval = None, rq_options = None,
      rq_field_types = None, rq_include_security_errors = False, rq_return_eids = False,
      rq_on_delayed = None, rq_validate_fields = None, rq_search_spec = None, rq_field_ids = None,
      rq_format = None\<rparr>"

definition is_raw_request :: "request_params \<Rightarrow> bool" where
  "is_raw_request p \<longleftrightarrow> operation_from_str (rq_operation p) = operation.RawRequest"

definition params_effective_operation :: "request_params \<Rightarrow> string" where
  "params_effective_operation p =
     (if is_raw_request p then (case rq_request_operation p of None \<Rightarrow> [] | Some s \<Rightarrow> s)
      else rq_operation p)"

definition is_excel_get_grid_request :: "request_params \<Rightarrow> bool" where
  "is_excel_get_grid_request p \<longleftrightarrow>
     operation_from_str (params_effective_operation p) = operation.ExcelGetGrid"

section \<open>Normalisation\<close>

text \<open>\<open>normalize_vec\<close>, \<open>normalize_pairs\<close>, \<open>normalize_map\<close> and \<open>normalize_string\<close>: an empty
  value is no value.\<close>

definition normalize_vec :: "'a list option \<Rightarrow> 'a list option" where
  "normalize_vec v = (if v = Some [] then None else v)"

definition normalize_security_override :: "string \<times> override_pairs \<Rightarrow> string \<times> override_pairs" where
  "normalize_security_override e =
     (trim (fst e), filter (\<lambda>(key, _). key \<noteq> []) (map (\<lambda>(key, v). (trim key, v)) (snd e)))"

definition normalize_security_overrides ::
  "security_override_pairs option \<Rightarrow> security_override_pairs option" where
  "normalize_security_overrides v =
     (case v of
        None \<Rightarrow> None
      | Some entries \<Rightarrow>
          normalize_vec (Some (filter (\<lambda>(security, overrides). security \<noteq> [] \<and> overrides \<noteq> [])
            (map normalize_security_override entries))))"

definition normalize_request_params :: "request_params \<Rightarrow> request_params" where
  "normalize_request_params p =
     p\<lparr>rq_securities := normalize_vec (rq_securities p), rq_fields := normalize_vec (rq_fields p),
       rq_event_types := normalize_vec (rq_event_types p), rq_field_ids := normalize_vec (rq_field_ids p),
       rq_overrides := normalize_vec (rq_overrides p),
       rq_security_overrides := normalize_security_overrides (rq_security_overrides p),
       rq_elements := normalize_vec (rq_elements p), rq_options := normalize_vec (rq_options p),
       rq_kwargs := normalize_vec (rq_kwargs p), rq_field_types := normalize_vec (rq_field_types p),
       rq_request_operation := normalize_vec (rq_request_operation p),
       rq_request_id := normalize_vec (rq_request_id p), rq_security := normalize_vec (rq_security p),
       rq_start_date := normalize_vec (rq_start_date p), rq_end_date := normalize_vec (rq_end_date p),
       rq_start_datetime := normalize_vec (rq_start_datetime p),
       rq_end_datetime := normalize_vec (rq_end_datetime p),
       rq_request_tz := normalize_vec (rq_request_tz p), rq_output_tz := normalize_vec (rq_output_tz p),
       rq_event_type := normalize_vec (rq_event_type p), rq_search_spec := normalize_vec (rq_search_spec p),
       rq_format := normalize_vec (rq_format p)\<rparr>"

section \<open>Operation and defaults\<close>

definition effective_operation :: "request_params \<Rightarrow> (operation \<times> bool, blp_async_error) result" where
  "effective_operation p =
     (let outer = operation_from_str (rq_operation p) in
      if outer = operation.RawRequest
      then (case normalize_vec (rq_request_operation p) of
              None \<Rightarrow> Inl (ConfigError ''request_operation is required for RawRequest'')
            | Some request_operation \<Rightarrow> Inr (operation_from_str request_operation, True))
      else if rq_operation p = [] then Inl (ConfigError ''operation is required'')
      else Inr (outer, False))"

definition apply_request_defaults_for_operation :: "request_params \<Rightarrow> operation \<Rightarrow> request_params" where
  "apply_request_defaults_for_operation p op =
     (if rq_extractor_set p then p
      else if rq_extractor p \<noteq> extractor_default then p\<lparr>rq_extractor_set := True\<rparr>
      else p\<lparr>rq_extractor := default_extractor op\<rparr>)"

definition apply_request_defaults :: "request_params \<Rightarrow> request_params" where
  "apply_request_defaults p =
     (case effective_operation p of
        Inr (op, _) \<Rightarrow> apply_request_defaults_for_operation p op
      | Inl _ \<Rightarrow> p)"

section \<open>The public input\<close>

record request_params_input =
  ri_service :: string
  ri_operation :: "string option"
  ri_request_operation :: "string option"
  ri_request_id :: "string option"
  ri_extractor :: "string option"
  ri_securities :: "string list option"
  ri_security :: "string option"
  ri_fields :: "string list option"
  ri_overrides :: "override_pairs option"
  ri_security_overrides :: "security_override_pairs option"
  ri_elements :: "(string \<times> string) list option"
  ri_kwargs :: "(string \<times> string) list option"
  ri_start_date :: "string option"
  ri_end_date :: "string option"
  ri_start_datetime :: "string option"
  ri_end_datetime :: "string option"
  ri_request_tz :: "string option"
  ri_output_tz :: "string option"
  ri_event_type :: "string option"
  ri_event_types :: "string list option"
  ri_interval :: "u32 option"
  ri_options :: "(string \<times> string) list option"
  ri_field_types :: "(string \<times> string) list option"
  ri_include_security_errors :: "bool option"
  ri_return_eids :: "bool option"
  ri_on_delayed :: "string option"
  ri_validate_fields :: "bool option"
  ri_search_spec :: "string option"
  ri_field_ids :: "string list option"
  ri_format :: "string option"

text \<open>The operation a missing service is derived from.\<close>

definition input_service :: "request_params_input \<Rightarrow> string \<Rightarrow> string option \<Rightarrow> string" where
  "input_service i op request_operation =
     (if ri_service i \<noteq> [] then ri_service i
      else
        (let default_operation =
               (if operation_from_str op = operation.RawRequest
                then (case request_operation of None \<Rightarrow> [] | Some s \<Rightarrow> s) else op)
         in case default_service (operation_from_str default_operation) of
              Some s \<Rightarrow> service_as_str s
            | None \<Rightarrow> ri_service i))"

definition into_request_params :: "request_params_input \<Rightarrow> (request_params, string) result" where
  "into_request_params i =
     (let request_operation = normalize_vec (ri_request_operation i) in
      and_then
        (case ri_operation i of
           Some op \<Rightarrow> Inr op
         | None \<Rightarrow>
             if request_operation \<noteq> None then Inr (operation_as_str operation.RawRequest)
             else Inl ''operation is required unless request_operation is used for RawRequest'')
        (\<lambda>op.
      and_then
        (case normalize_vec (ri_extractor i) of
           Some name \<Rightarrow>
             (case extractor_parse name of
                Some e \<Rightarrow> Inr (e, True)
              | None \<Rightarrow> Inl (''invalid extractor type: '' @ name))
         | None \<Rightarrow> Inr (extractor_default, False))
        (\<lambda>(extractor, extractor_set).
      and_then
        (case normalize_vec (ri_on_delayed i) of
           None \<Rightarrow> Inr None
         | Some policy \<Rightarrow>
             (case delayed_policy_from_str policy of
                Inr v \<Rightarrow> Inr (Some v)
              | Inl _ \<Rightarrow> Inl ''on_delayed must be warn, raise, or ignore''))
        (\<lambda>on_delayed.
      Inr (apply_request_defaults (normalize_request_params
        \<lparr>rq_service = input_service i op request_operation, rq_operation = op,
         rq_request_operation = request_operation, rq_request_id = ri_request_id i,
         rq_extractor = extractor, rq_extractor_set = extractor_set,
         rq_securities = ri_securities i, rq_security = ri_security i, rq_fields = ri_fields i,
         rq_overrides = ri_overrides i, rq_security_overrides = ri_security_overrides i,
         rq_elements = ri_elements i, rq_kwargs = ri_kwargs i, rq_start_date = ri_start_date i,
         rq_end_date = ri_end_date i, rq_start_datetime = ri_start_datetime i,
         rq_end_datetime = ri_end_datetime i, rq_request_tz = ri_request_tz i,
         rq_output_tz = ri_output_tz i, rq_event_type = ri_event_type i,
         rq_event_types = ri_event_types i, rq_interval = ri_interval i, rq_options = ri_options i,
         rq_field_types = ri_field_types i,
         rq_include_security_errors = (case ri_include_security_errors i of None \<Rightarrow> False | Some b \<Rightarrow> b),
         rq_return_eids = (case ri_return_eids i of None \<Rightarrow> False | Some b \<Rightarrow> b),
         rq_on_delayed = on_delayed, rq_validate_fields = ri_validate_fields i,
         rq_search_spec = ri_search_spec i, rq_field_ids = ri_field_ids i, rq_format = ri_format i\<rparr>))))))"

section \<open>Lemmas\<close>

lemma normalize_vec_idem [simp]: "normalize_vec (normalize_vec v) = normalize_vec v"
  by (simp add: normalize_vec_def)

lemma normalize_vec_not_empty [simp]: "normalize_vec v \<noteq> Some []"
  by (simp add: normalize_vec_def)

lemma normalize_security_override_idem [simp]:
  "normalize_security_override (normalize_security_override e) = normalize_security_override e"
proof -
  have "map (\<lambda>(key, v). (trim key, v)) (filter (\<lambda>(key, _). key \<noteq> []) (map (\<lambda>(key, v). (trim key, v)) kvs)) =
      filter (\<lambda>(key, _). key \<noteq> []) (map (\<lambda>(key, v). (trim key, v)) kvs)" for kvs :: override_pairs
    by (induction kvs) auto
  then show ?thesis by (simp add: normalize_security_override_def)
qed

lemma normalize_security_overrides_idem [simp]:
  "normalize_security_overrides (normalize_security_overrides v) = normalize_security_overrides v"
proof (cases v)
  case (Some entries)
  have "map normalize_security_override (filter P (map normalize_security_override es)) =
      filter P (map normalize_security_override es)" for P and es :: security_override_pairs
    by (induction es) auto
  then show ?thesis
    by (auto simp: normalize_security_overrides_def normalize_vec_def Some)
qed (simp add: normalize_security_overrides_def)

lemma normalize_request_params_idem [simp]:
  "normalize_request_params (normalize_request_params p) = normalize_request_params p"
  by (simp add: normalize_request_params_def)

end
