(* ===== verification/Request_Builder.thy ===== *)
theory Request_Builder
  imports Request_Params
begin

text \<open>
  Routing of keyword arguments into request elements and field overrides
  (xbbg-async/src/request_builder.rs). The in-memory schema cache is the map from services and
  operations to the element names of the request. Decoding the raw \<open>overrides\<close> argument is
  serde_json's and is an argument: it gives the pairs of a JSON object or list, or none.
\<close>

section \<open>Names\<close>

type_synonym schema_cache = "string \<Rightarrow> (string \<Rightarrow> string list option) option"

record routed_params =
  rt_elements :: "(string \<times> string) list"
  rt_overrides :: "(string \<times> string) list"
  rt_warnings :: "string list"

definition routed_default :: routed_params where
  "routed_default = \<lparr>rt_elements = [], rt_overrides = [], rt_warnings = []\<rparr>"

definition canonical_element_key :: "string \<Rightarrow> string" where
  "canonical_element_key key =
     (if key \<in> {''PeriodAdj'', ''PerAdj''} then ''periodicityAdjustment''
      else if key \<in> {''Period'', ''Per''} then ''periodicitySelection''
      else if key \<in> {''Currency'', ''Curr'', ''FX''} then ''currency''
      else if key = ''Days'' then ''nonTradingDayFillOption''
      else if key = ''Fill'' then ''nonTradingDayFillMethod''
      else if key = ''Points'' then ''maxDataPoints''
      else if key = ''Quote'' then ''overrideOption''
      else if key \<in> {''QuoteType'', ''QtTyp''} then ''pricingOption''
      else if key = ''CshAdjNormal'' then ''adjustmentNormal''
      else if key = ''CshAdjAbnormal'' then ''adjustmentAbnormal''
      else if key = ''CapChg'' then ''adjustmentSplit''
      else if key = ''UseDPDF'' then ''adjustmentFollowDPDF''
      else if key = ''Calendar'' then ''calendarCodeOverride''
      else if key \<in> {''BarSz'', ''BarSize''} then ''interval''
      else if key \<in> {''BarTp'', ''BarType''} then ''eventType''
      else if key = ''IncludeExchangeCodes'' then ''includeExchangeCodes''
      else key)"

definition normalize_element_value :: "string \<Rightarrow> string \<Rightarrow> string" where
  "normalize_element_value element v =
     (if element = ''periodicityAdjustment'' \<and> v = ''A'' then ''ACTUAL''
      else if element = ''periodicityAdjustment'' \<and> v = ''C'' then ''CALENDAR''
      else if element = ''periodicityAdjustment'' \<and> v = ''F'' then ''FISCAL''
      else if element = ''periodicitySelection'' \<and> v = ''D'' then ''DAILY''
      else if element = ''periodicitySelection'' \<and> v = ''W'' then ''WEEKLY''
      else if element = ''periodicitySelection'' \<and> v = ''M'' then ''MONTHLY''
      else if element = ''periodicitySelection'' \<and> v = ''Q'' then ''QUARTERLY''
      else if element = ''periodicitySelection'' \<and> v = ''S'' then ''SEMI_ANNUALLY''
      else if element = ''periodicitySelection'' \<and> v = ''Y'' then ''YEARLY''
      else if element = ''nonTradingDayFillOption'' \<and> v \<in> {''N'', ''W'', ''Weekdays''} then ''NON_TRADING_WEEKDAYS''
      else if element = ''nonTradingDayFillOption'' \<and> v \<in> {''C'', ''A'', ''All''} then ''ALL_CALENDAR_DAYS''
      else if element = ''nonTradingDayFillOption'' \<and> v \<in> {''T'', ''Trading''} then ''ACTIVE_DAYS_ONLY''
      else if element = ''nonTradingDayFillMethod'' \<and> v \<in> {''C'', ''P'', ''Previous''} then ''PREVIOUS_VALUE''
      else if element = ''nonTradingDayFillMethod'' \<and> v \<in> {''B'', ''Blank'', ''NA''} then ''NIL_VALUE''
      else if element = ''overrideOption'' \<and> v \<in> {''A'', ''G'', ''Average''} then ''OVERRIDE_OPTION_GPA''
      else if element = ''overrideOption'' \<and> v \<in> {''C'', ''Close''} then ''OVERRIDE_OPTION_CLOSE''
      else if element = ''pricingOption'' \<and> v \<in> {''P'', ''Price''} then ''PRICING_OPTION_PRICE''
      else if element = ''pricingOption'' \<and> v \<in> {''Y'', ''Yield''} then ''PRICING_OPTION_YIELD''
      else if element = ''eventType'' \<and> v \<in> {''B'', ''Bid''} then ''BID''
      else if element = ''eventType'' \<and> v \<in> {''A'', ''Ask''} then ''ASK''
      else if element = ''eventType'' \<and> v \<in> {''T'', ''Trade''} then ''TRADE''
      else v)"

definition is_known_canonical_element_key :: "string \<Rightarrow> bool" where
  "is_known_canonical_element_key key \<longleftrightarrow> key \<in>
     {''periodicityAdjustment'',
      ''periodicitySelection'',
      ''currency'',
      ''nonTradingDayFillOption'',
      ''nonTradingDayFillMethod'',
      ''maxDataPoints'',
      ''overrideOption'',
      ''pricingOption'',
      ''adjustmentNormal'',
      ''adjustmentAbnormal'',
      ''adjustmentSplit'',
      ''adjustmentFollowDPDF'',
      ''calendarCodeOverride'',
      ''interval'',
      ''eventType'',
      ''includeExchangeCodes''}"

definition is_presentation_alias_key :: "string \<Rightarrow> bool" where
  "is_presentation_alias_key key \<longleftrightarrow> key \<in>
     {''Dts'', ''Dates'', ''show_date'', ''DtFmt'', ''DateFormat'', ''date_format'',
      ''Sort'', ''sort'', ''Orientation'', ''Direction'', ''Dir'', ''orientation''}"

definition is_alias_element_key :: "string \<Rightarrow> string \<Rightarrow> bool" where
  "is_alias_element_key original canonical \<longleftrightarrow>
     original \<noteq> canonical \<or> is_known_canonical_element_key canonical"

definition valid_elements_from_cache :: "schema_cache \<Rightarrow> string \<Rightarrow> string \<Rightarrow> string list" where
  "valid_elements_from_cache cache service op =
     (case cache service of
        None \<Rightarrow> []
      | Some schema \<Rightarrow> (case schema op of None \<Rightarrow> [] | Some names \<Rightarrow> names))"

text \<open>\<open>char::is_uppercase\<close> and \<open>char::is_lowercase\<close> below 256: the Latin-1 letters, with the
  multiplication and division signs excepted; the two ordinal indicators and the micro sign
  are lower case.\<close>

definition is_uppercase_char :: "char \<Rightarrow> bool" where
  "is_uppercase_char c \<longleftrightarrow> (let n = (of_char c :: nat) in
     65 \<le> n \<and> n \<le> 90 \<or> 192 \<le> n \<and> n \<le> 222 \<and> n \<noteq> 215)"

definition is_lowercase_char :: "char \<Rightarrow> bool" where
  "is_lowercase_char c \<longleftrightarrow> (let n = (of_char c :: nat) in
     97 \<le> n \<and> n \<le> 122 \<or> n = 170 \<or> n = 181 \<or> n = 186 \<or> 223 \<le> n \<and> n \<noteq> 247)"

fun is_all_uppercase_from :: "bool \<Rightarrow> string \<Rightarrow> bool" where
  "is_all_uppercase_from seen [] = seen"
| "is_all_uppercase_from seen (c # s) =
     (if is_lowercase_char c then False else is_all_uppercase_from (seen \<or> is_uppercase_char c) s)"

definition is_all_uppercase :: "string \<Rightarrow> bool" where
  "is_all_uppercase s = is_all_uppercase_from False s"

definition is_field_override_name :: "string \<Rightarrow> bool" where
  "is_field_override_name key \<longleftrightarrow>
     is_all_uppercase key \<or>
     (2 < length key \<and> (case key of [] \<Rightarrow> False | c # _ \<Rightarrow> is_uppercase_char c) \<and> CHR ''_'' \<in> set key)"

section \<open>Warnings\<close>

text \<open>\<open>{:?}\<close> of a slice of strings.\<close>

definition debug_strs :: "string list \<Rightarrow> string" where
  "debug_strs ss =
     ''['' @ (case map debug_str ss of [] \<Rightarrow> [] | d # ds \<Rightarrow> d @ concat (map (\<lambda>x. '', '' @ x) ds)) @ '']''"

definition format_unknown_parameter_warning :: "string \<Rightarrow> string \<Rightarrow> string list \<Rightarrow> string" where
  "format_unknown_parameter_warning key op valid_elements =
     (let valid = sort (remdups valid_elements);
          preview = (if 10 < length valid then debug_strs (take 10 valid) @ ''...'' else debug_strs valid)
      in ''Unknown parameter '' @ [CHR 0x27] @ key @ [CHR 0x27] @ '' for '' @ op @
         '' - passing to Bloomberg. Valid elements: '' @ preview)"

definition presentation_warning :: "string \<Rightarrow> string" where
  "presentation_warning key =
     ''Presentation alias '' @ [CHR 0x27] @ key @ [CHR 0x27] @
     '' controls Excel-style output shape and is not a Bloomberg request element in xbbg 1.x; '' @
     ''use format/post-processing instead''"

section \<open>Routing\<close>

definition route_candidate ::
  "string list \<Rightarrow> string \<Rightarrow> string \<times> string \<Rightarrow> routed_params \<Rightarrow> routed_params" where
  "route_candidate valid_elements op kv routed =
     (case kv of (key, v) \<Rightarrow>
        if is_presentation_alias_key key
        then routed\<lparr>rt_warnings := rt_warnings routed @ [presentation_warning key]\<rparr>
        else
          (let canonical_key = canonical_element_key key;
               routed_value = normalize_element_value canonical_key v
           in if canonical_key \<in> set valid_elements \<or> is_alias_element_key key canonical_key
              then routed\<lparr>rt_elements := rt_elements routed @ [(canonical_key, routed_value)]\<rparr>
              else if is_field_override_name key
              then routed\<lparr>rt_overrides := rt_overrides routed @ [(key, v)]\<rparr>
              else if valid_elements \<noteq> []
              then routed\<lparr>rt_warnings :=
                       rt_warnings routed @ [format_unknown_parameter_warning key op valid_elements],
                     rt_elements := rt_elements routed @ [(canonical_key, routed_value)]\<rparr>
              else routed\<lparr>rt_elements := rt_elements routed @ [(canonical_key, routed_value)]\<rparr>))"

text \<open>The arguments in the order the code routes them: the raw and the explicit overrides, then
  the remaining keyword arguments by key.\<close>

definition sorted_kwargs :: "(string \<times> string) list \<Rightarrow> (string \<times> string) list" where
  "sorted_kwargs kwargs =
     List.map_filter (\<lambda>key. map_option (Pair key) (map_of kwargs key)) (sort (map fst kwargs))"

definition routing_candidates ::
  "(string \<Rightarrow> (string \<times> string) list) \<Rightarrow> (string \<times> string) list \<Rightarrow> (string \<times> string) list option \<Rightarrow>
     (string \<times> string) list" where
  "routing_candidates parse_raw_overrides kwargs explicit_overrides =
     (case map_of kwargs ''overrides'' of None \<Rightarrow> [] | Some raw \<Rightarrow> parse_raw_overrides raw) @
     (case explicit_overrides of None \<Rightarrow> [] | Some os \<Rightarrow> os) @
     sorted_kwargs (AList.delete ''overrides'' kwargs)"

definition route_kwargs ::
  "(string \<Rightarrow> (string \<times> string) list) \<Rightarrow> schema_cache \<Rightarrow> string \<Rightarrow> string \<Rightarrow> (string \<times> string) list \<Rightarrow>
     (string \<times> string) list option \<Rightarrow> routed_params" where
  "route_kwargs parse_raw_overrides cache service op kwargs explicit_overrides =
     fold (route_candidate (valid_elements_from_cache cache service op) op)
       (routing_candidates parse_raw_overrides kwargs explicit_overrides) routed_default"

section \<open>Lemmas\<close>

lemma canonical_cases: "canonical_element_key key = key \<or> is_known_canonical_element_key (canonical_element_key key)"
  by (simp add: canonical_element_key_def is_known_canonical_element_key_def)

lemma canonical_known: "is_known_canonical_element_key key \<Longrightarrow> canonical_element_key key = key"
  unfolding is_known_canonical_element_key_def
  by (elim insertE emptyE) (simp_all add: canonical_element_key_def)

lemma canonical_idem [simp]: "canonical_element_key (canonical_element_key key) = canonical_element_key key"
  using canonical_cases [of key] canonical_known by metis

lemma known_not_presentation: "is_known_canonical_element_key key \<Longrightarrow> \<not> is_presentation_alias_key key"
  by (auto simp: is_known_canonical_element_key_def is_presentation_alias_key_def)

text \<open>The values Bloomberg's enumerations use.\<close>

definition element_values :: "string set" where
  "element_values =
     {''ACTUAL'', ''CALENDAR'', ''FISCAL'', ''DAILY'',
      ''WEEKLY'', ''MONTHLY'', ''QUARTERLY'', ''SEMI_ANNUALLY'',
      ''YEARLY'', ''NON_TRADING_WEEKDAYS'', ''ALL_CALENDAR_DAYS'', ''ACTIVE_DAYS_ONLY'',
      ''PREVIOUS_VALUE'', ''NIL_VALUE'', ''OVERRIDE_OPTION_GPA'', ''OVERRIDE_OPTION_CLOSE'',
      ''PRICING_OPTION_PRICE'', ''PRICING_OPTION_YIELD'', ''BID'', ''ASK'',
      ''TRADE''}"

lemma normalize_element_value_cases:
  "normalize_element_value e v = v \<or> normalize_element_value e v \<in> element_values"
proof -
  have if_in: "a \<in> S \<Longrightarrow> b \<in> S \<Longrightarrow> (if P then a else b) \<in> S" for P and a b :: string and S by simp
  have "normalize_element_value e v \<in> insert v element_values"
    unfolding normalize_element_value_def by (intro if_in) (simp_all add: element_values_def)
  then show ?thesis by simp
qed

lemma element_values_fixed: "v \<in> element_values \<Longrightarrow> normalize_element_value e v = v"
  unfolding element_values_def by (elim insertE emptyE) (simp_all add: normalize_element_value_def)

lemma normalize_element_value_idem [simp]:
  "normalize_element_value e (normalize_element_value e v) = normalize_element_value e v"
  using normalize_element_value_cases [of e v] element_values_fixed [of _ e] by metis

section \<open>Where an argument goes\<close>

text \<open>The specification of the routing of one argument name.\<close>

definition to_element :: "string list \<Rightarrow> string \<Rightarrow> bool" where
  "to_element valid key \<longleftrightarrow> \<not> is_presentation_alias_key key \<and>
     (canonical_element_key key \<in> set valid \<or> canonical_element_key key \<noteq> key \<or>
      is_known_canonical_element_key key \<or> \<not> is_field_override_name key)"

definition to_override :: "string list \<Rightarrow> string \<Rightarrow> bool" where
  "to_override valid key \<longleftrightarrow> \<not> is_presentation_alias_key key \<and> \<not> to_element valid key"

definition canonical_pair :: "string \<times> string \<Rightarrow> string \<times> string" where
  "canonical_pair kv =
     (canonical_element_key (fst kv), normalize_element_value (canonical_element_key (fst kv)) (snd kv))"

lemma alias_or_known:
  "is_alias_element_key key (canonical_element_key key) \<longleftrightarrow>
     canonical_element_key key \<noteq> key \<or> is_known_canonical_element_key key"
  using canonical_cases [of key] by (auto simp: is_alias_element_key_def)

lemma route_candidate_cases:
  "route_candidate valid op (key, v) r =
     (if to_element valid key
      then r\<lparr>rt_elements := rt_elements r @ [canonical_pair (key, v)],
             rt_warnings := rt_warnings (route_candidate valid op (key, v) r)\<rparr>
      else if to_override valid key then r\<lparr>rt_overrides := rt_overrides r @ [(key, v)]\<rparr>
      else r\<lparr>rt_warnings := rt_warnings r @ [presentation_warning key]\<rparr>)"
proof (cases "is_presentation_alias_key key")
  case True
  then show ?thesis by (simp add: route_candidate_def to_element_def to_override_def)
next
  case False
  define c where "c = canonical_element_key key"
  have a: "is_alias_element_key key c \<longleftrightarrow> c \<noteq> key \<or> is_known_canonical_element_key key"
    unfolding c_def by (rule alias_or_known)
  show ?thesis
    using False a
    by (cases r) (simp add: route_candidate_def to_element_def to_override_def canonical_pair_def
        Let_def flip: c_def)
qed

lemma route_candidate_elements:
  "rt_elements (route_candidate valid op kv r) =
     rt_elements r @ (if to_element valid (fst kv) then [canonical_pair kv] else [])"
  "rt_overrides (route_candidate valid op kv r) =
     rt_overrides r @ (if to_override valid (fst kv) then [kv] else [])"
proof -
  obtain key v where kv: "kv = (key, v)" by (cases kv)
  note c = route_candidate_cases [of valid op key v r]
  show "rt_elements (route_candidate valid op kv r) =
     rt_elements r @ (if to_element valid (fst kv) then [canonical_pair kv] else [])"
    unfolding kv by (subst c) simp
  show "rt_overrides (route_candidate valid op kv r) =
     rt_overrides r @ (if to_override valid (fst kv) then [kv] else [])"
    unfolding kv by (subst c) (simp add: to_override_def)
qed

lemma fold_route_elements:
  "rt_elements (fold (route_candidate valid op) kvs r) =
     rt_elements r @ map canonical_pair (filter (\<lambda>kv. to_element valid (fst kv)) kvs)"
  "rt_overrides (fold (route_candidate valid op) kvs r) =
     rt_overrides r @ filter (\<lambda>kv. to_override valid (fst kv)) kvs"
  by (induction kvs arbitrary: r) (simp_all add: route_candidate_elements)

lemma canonical_pair_idem [simp]: "canonical_pair (canonical_pair kv) = canonical_pair kv"
  by (simp add: canonical_pair_def)

lemma to_element_canonical:
  assumes "to_element valid (fst kv)"
  shows "to_element valid (fst (canonical_pair kv))"
proof (cases "canonical_element_key (fst kv) = fst kv")
  case True
  with assms show ?thesis by (simp add: canonical_pair_def to_element_def)
next
  case False
  then have "is_known_canonical_element_key (canonical_element_key (fst kv))"
    using canonical_cases by blast
  then show ?thesis by (simp add: canonical_pair_def to_element_def known_not_presentation)
qed

lemma sorted_kwargs_cong:
  assumes "mset kw = mset kw'" "distinct (map fst kw)"
  shows "sorted_kwargs kw = sorted_kwargs kw'"
proof -
  have "mset (map fst kw) = mset (map fst kw')" using assms(1) by simp
  then have "sort (map fst kw) = sort (map fst kw')" and d: "distinct (map fst kw')"
    using assms(2) mset_eq_imp_distinct_iff by (metis sorted_list_of_multiset_mset, blast)
  moreover have "map_of kw = map_of kw'"
    using assms d by (intro map_of_inject_set [THEN iffD2]) (auto dest: mset_eq_setD)
  ultimately show ?thesis by (simp add: sorted_kwargs_def)
qed

lemma delete_mset:
  assumes "mset kw = mset kw'"
  shows "mset (AList.delete k kw) = mset (AList.delete k kw')"
  using assms by (simp add: AList.delete_eq)

section \<open>Properties\<close>


text \<open>C30: The routing does not depend on the iteration order of the keyword map: two association
  lists of the same map give the same elements, overrides and warnings, in the same order.\<close>

theorem routing_ignores_map_order:
  assumes "mset kwargs = mset kwargs'" "distinct (map fst kwargs)"
  shows "route_kwargs json cache service op kwargs explicit = route_kwargs json cache service op kwargs' explicit"
proof -
  have "distinct (map fst kwargs')" using assms mset_map mset_eq_imp_distinct_iff by metis
  then have "map_of kwargs = map_of kwargs'"
    using assms by (intro map_of_inject_set [THEN iffD2]) (auto dest: mset_eq_setD)
  moreover have "sorted_kwargs (AList.delete ''overrides'' kwargs) = sorted_kwargs (AList.delete ''overrides'' kwargs')"
    using assms by (intro sorted_kwargs_cong delete_mset distinct_delete)
  ultimately show ?thesis by (simp add: route_kwargs_def routing_candidates_def)
qed

theorem routing_ignores_map_order_witness:
  "route_kwargs (\<lambda>_. []) (\<lambda>_. None) [] [] [(''Per'', ''W''), (''CRNCY'', ''EUR'')] None =
   route_kwargs (\<lambda>_. []) (\<lambda>_. None) [] [] [(''CRNCY'', ''EUR''), (''Per'', ''W'')] None"
  by (rule routing_ignores_map_order) simp_all

text \<open>C31: Elements that were routed once are stable: routing them again gives the same elements in
  the same order and no overrides.\<close>

theorem routed_elements_stable:
  "rt_elements (route_kwargs json cache service op []
       (Some (rt_elements (route_kwargs json cache service op kwargs explicit)))) =
     rt_elements (route_kwargs json cache service op kwargs explicit) \<and>
   rt_overrides (route_kwargs json cache service op []
       (Some (rt_elements (route_kwargs json cache service op kwargs explicit)))) = []"
proof -
  let ?V = "valid_elements_from_cache cache service op"
  let ?E = "rt_elements (route_kwargs json cache service op kwargs explicit)"
  have E: "\<forall>kv \<in> set ?E. to_element ?V (fst kv) \<and> canonical_pair kv = kv"
    by (auto simp: route_kwargs_def fold_route_elements routed_default_def to_element_canonical)
  have c: "routing_candidates json [] (Some ?E) = ?E"
    by (simp add: routing_candidates_def sorted_kwargs_def List.map_filter_simps)
  have "filter (\<lambda>kv. to_element ?V (fst kv)) ?E = ?E" "map canonical_pair ?E = ?E"
    "filter (\<lambda>kv. to_override ?V (fst kv)) ?E = []"
    using E by (auto simp: filter_id_conv map_idI filter_empty_conv to_override_def)
  then show ?thesis
    by (simp add: route_kwargs_def [of json cache service op "[]"] c fold_route_elements routed_default_def)
qed

end
