(* ===== verification/Request_Plan.thy ===== *)
theory Request_Plan
  imports Request_Builder
begin

text \<open>
  Preparation of a request for the workers (engine/request_plan.rs): the effective operation,
  defaults, validation of required and unsupported parameters, routing, and the shape of the
  result. A failed validation is a \<open>ConfigError\<close> with the code's message.
\<close>

section \<open>Shapes\<close>

datatype output_format = LongOutput | WideOutput
datatype long_mode = StringMode | WithMetadata | Typed

record planned_output =
  po_format :: output_format
  po_long_mode :: long_mode

definition planned_output_parse :: "string option \<Rightarrow> (planned_output, blp_async_error) result" where
  "planned_output_parse format =
     and_then
       (case format of None \<Rightarrow> Inr format_default | Some s \<Rightarrow> map_err ConfigError (format_from_str s))
       (\<lambda>f. Inr (case f of
          Long \<Rightarrow> \<lparr>po_format = LongOutput, po_long_mode = StringMode\<rparr>
        | SemiLong \<Rightarrow> \<lparr>po_format = WideOutput, po_long_mode = StringMode\<rparr>
        | LongTyped \<Rightarrow> \<lparr>po_format = LongOutput, po_long_mode = Typed\<rparr>
        | LongWithMetadata \<Rightarrow> \<lparr>po_format = LongOutput, po_long_mode = WithMetadata\<rparr>))"

datatype planned_request_shape =
    RefDataShape planned_output
  | HistDataShape planned_output
  | BulkDataShape
  | GenericShape
  | BqlShape
  | BsrchShape
  | FieldInfoShape
  | IntradayBarShape
  | IntradayTickShape

text \<open>\<open>{:?}\<close> of an extractor.\<close>

fun extractor_debug :: "extractor_type \<Rightarrow> string" where
  "extractor_debug extractor_type.Bql = ''Bql''"
| "extractor_debug extractor_type.Bsrch = ''Bsrch''"
| "extractor_debug extractor_type.BulkData = ''BulkData''"
| "extractor_debug extractor_type.FieldInfo = ''FieldInfo''"
| "extractor_debug extractor_type.Generic = ''Generic''"
| "extractor_debug extractor_type.HistData = ''HistData''"
| "extractor_debug extractor_type.IntradayBar = ''IntradayBar''"
| "extractor_debug extractor_type.IntradayTick = ''IntradayTick''"
| "extractor_debug extractor_type.RefData = ''RefData''"

fun is_custom_operation :: "operation \<Rightarrow> bool" where
  "is_custom_operation (operation.Custom _) = True"
| "is_custom_operation _ = False"

definition validate_extractor_compatibility ::
  "operation \<Rightarrow> bool \<Rightarrow> extractor_type \<Rightarrow> (unit, blp_async_error) result" where
  "validate_extractor_compatibility op raw extractor =
     (if raw \<or> is_custom_operation op then Inr ()
      else if extractor = default_extractor op \<or> extractor = extractor_type.Generic \<or>
          (op = operation.ReferenceData \<and> extractor = extractor_type.BulkData) \<or>
          (op = operation.FieldSearch \<and> extractor = extractor_type.FieldInfo)
      then Inr ()
      else Inl (ConfigError (''extractor '' @ extractor_debug extractor @
             '' is not compatible with operation '' @ operation_as_str op)))"

definition selected_extractor ::
  "operation \<Rightarrow> bool \<Rightarrow> request_params \<Rightarrow> (extractor_type, blp_async_error) result" where
  "selected_extractor op raw p =
     (let extractor = (if rq_extractor_set p then rq_extractor p else default_extractor op)
      in and_then (validate_extractor_compatibility op raw extractor) (\<lambda>_. Inr extractor))"

definition reject_format_for_shape :: "request_params \<Rightarrow> string \<Rightarrow> (unit, blp_async_error) result" where
  "reject_format_for_shape p shape =
     (if rq_format p \<noteq> None
      then Inl (ConfigError (''format is not supported for '' @ shape @ '' output'')) else Inr ())"

definition shape_from_params ::
  "operation \<Rightarrow> bool \<Rightarrow> request_params \<Rightarrow> (planned_request_shape, blp_async_error) result" where
  "shape_from_params op raw p =
     and_then (selected_extractor op raw p) (\<lambda>extractor.
       case extractor of
         extractor_type.RefData \<Rightarrow> and_then (planned_output_parse (rq_format p)) (\<lambda>out. Inr (RefDataShape out))
       | extractor_type.HistData \<Rightarrow> and_then (planned_output_parse (rq_format p)) (\<lambda>out. Inr (HistDataShape out))
       | extractor_type.BulkData \<Rightarrow> and_then (reject_format_for_shape p ''BulkData'') (\<lambda>_. Inr BulkDataShape)
       | extractor_type.Generic \<Rightarrow> and_then (reject_format_for_shape p ''Generic'') (\<lambda>_. Inr GenericShape)
       | extractor_type.Bql \<Rightarrow> and_then (reject_format_for_shape p ''Bql'') (\<lambda>_. Inr BqlShape)
       | extractor_type.Bsrch \<Rightarrow> and_then (reject_format_for_shape p ''Bsrch'') (\<lambda>_. Inr BsrchShape)
       | extractor_type.FieldInfo \<Rightarrow> and_then (reject_format_for_shape p ''FieldInfo'') (\<lambda>_. Inr FieldInfoShape)
       | extractor_type.IntradayBar \<Rightarrow>
           and_then (reject_format_for_shape p ''IntradayBar'') (\<lambda>_. Inr IntradayBarShape)
       | extractor_type.IntradayTick \<Rightarrow>
           and_then (reject_format_for_shape p ''IntradayTick'') (\<lambda>_. Inr IntradayTickShape))"

definition has_key_column :: "planned_request_shape \<Rightarrow> bool" where
  "has_key_column shape \<longleftrightarrow>
     (case shape of
        RefDataShape _ \<Rightarrow> True | HistDataShape _ \<Rightarrow> True | BulkDataShape \<Rightarrow> True | BqlShape \<Rightarrow> True
      | IntradayBarShape \<Rightarrow> True | IntradayTickShape \<Rightarrow> True | _ \<Rightarrow> False)"

section \<open>Validation\<close>

text \<open>\<open>has_securities\<close>, \<open>has_fields\<close> and the tests on optional strings.\<close>

definition given :: "'a list option \<Rightarrow> bool" where
  "given v \<longleftrightarrow> (case v of None \<Rightarrow> False | Some xs \<Rightarrow> xs \<noteq> [])"

definition require :: "bool \<Rightarrow> string \<Rightarrow> (unit, blp_async_error) result" where
  "require b detail = (if \<not> b then Inl (ConfigError detail) else Inr ())"

definition validate_reference_data :: "request_params \<Rightarrow> (unit, blp_async_error) result" where
  "validate_reference_data p =
     and_then (require (given (rq_securities p)) ''securities is required for ReferenceDataRequest'') (\<lambda>_.
       require (given (rq_fields p)) ''fields is required for ReferenceDataRequest'')"

definition validate_historical_data :: "request_params \<Rightarrow> (unit, blp_async_error) result" where
  "validate_historical_data p =
     and_then (require (given (rq_securities p)) ''securities is required for HistoricalDataRequest'') (\<lambda>_.
     and_then (require (given (rq_fields p)) ''fields is required for HistoricalDataRequest'') (\<lambda>_.
     and_then (require (given (rq_start_date p)) ''start_date is required for HistoricalDataRequest'') (\<lambda>_.
       require (given (rq_end_date p)) ''end_date is required for HistoricalDataRequest'')))"

definition validate_intraday_bar :: "request_params \<Rightarrow> (unit, blp_async_error) result" where
  "validate_intraday_bar p =
     and_then (require (given (rq_security p)) ''security is required for IntradayBarRequest'') (\<lambda>_.
     and_then (require (given (rq_event_type p)) ''event_type is required for IntradayBarRequest'') (\<lambda>_.
     and_then (require (rq_interval p \<noteq> None) ''interval is required for IntradayBarRequest'') (\<lambda>_.
     and_then (require (given (rq_start_datetime p)) ''start_datetime is required for IntradayBarRequest'') (\<lambda>_.
       require (given (rq_end_datetime p)) ''end_datetime is required for IntradayBarRequest''))))"

definition validate_intraday_tick :: "request_params \<Rightarrow> (unit, blp_async_error) result" where
  "validate_intraday_tick p =
     and_then (require (given (rq_security p)) ''security is required for IntradayTickRequest'') (\<lambda>_.
     and_then (require (given (rq_start_datetime p)) ''start_datetime is required for IntradayTickRequest'') (\<lambda>_.
       require (given (rq_end_datetime p)) ''end_datetime is required for IntradayTickRequest''))"

definition validate_field_request :: "request_params \<Rightarrow> operation \<Rightarrow> (unit, blp_async_error) result" where
  "validate_field_request p op =
     (case op of
        operation.FieldInfo \<Rightarrow>
          require (given (rq_fields p) \<or> given (rq_field_ids p)) ''fields is required for field metadata requests''
      | operation.FieldSearch \<Rightarrow>
          require (given (rq_fields p) \<or> given (rq_search_spec p)) ''fields is required for field metadata requests''
      | _ \<Rightarrow> Inr ())"

definition validate_field_metadata_aliases ::
  "request_params \<Rightarrow> operation \<Rightarrow> (unit, blp_async_error) result" where
  "validate_field_metadata_aliases p op =
     (case op of
        operation.FieldInfo \<Rightarrow>
          require (\<not> (given (rq_fields p) \<and> given (rq_field_ids p)))
            ''FieldInfoRequest accepts either fields or field_ids, not both''
      | operation.FieldSearch \<Rightarrow>
          and_then (require (\<not> (given (rq_fields p) \<and> given (rq_search_spec p)))
            ''FieldSearchRequest accepts either fields or search_spec, not both'') (\<lambda>_.
          require (\<not> (\<not> given (rq_search_spec p) \<and>
              (case rq_fields p of None \<Rightarrow> False | Some fs \<Rightarrow> fs \<noteq> [] \<and> length fs \<noteq> 1)))
            (''FieldSearchRequest requires exactly one field value when fields is used as '' @
             ''a search alias''))
      | _ \<Rightarrow> Inr ())"

text \<open>The loop over the per-security overrides; \<open>seen\<close> are the securities before.\<close>

fun check_security_overrides ::
  "string list \<Rightarrow> string list \<Rightarrow> security_override_pairs \<Rightarrow> (unit, blp_async_error) result" where
  "check_security_overrides requested seen [] = Inr ()"
| "check_security_overrides requested seen ((security, overrides) # es) =
     (if overrides = []
      then Inl (ConfigError (''security_overrides entry for '' @ security @ '' has no overrides''))
      else if security \<notin> set requested
      then Inl (ConfigError (''security_overrides contains security not in request: '' @ security))
      else if security \<in> set seen
      then Inl (ConfigError (''security_overrides contains duplicate security: '' @ security))
      else check_security_overrides requested (security # seen) es)"

definition validate_security_overrides ::
  "request_params \<Rightarrow> operation \<Rightarrow> bool \<Rightarrow> (unit, blp_async_error) result" where
  "validate_security_overrides p op raw =
     (case normalize_vec (rq_security_overrides p) of
        None \<Rightarrow> Inr ()
      | Some entries \<Rightarrow>
          if raw then Inl (ConfigError ''security_overrides are not supported for RawRequest'')
          else if op \<noteq> operation.ReferenceData \<and> op \<noteq> operation.HistoricalData
          then Inl (ConfigError (''security_overrides are supported only for ReferenceDataRequest '' @
                 ''and HistoricalDataRequest''))
          else case rq_securities p of
                 None \<Rightarrow> Inl (ConfigError ''securities are required when security_overrides are provided'')
               | Some securities \<Rightarrow> check_security_overrides securities [] entries)"

definition validate_return_eids :: "request_params \<Rightarrow> operation \<Rightarrow> (unit, blp_async_error) result" where
  "validate_return_eids p op =
     (if \<not> rq_return_eids p \<or> op \<in> {operation.ReferenceData, operation.HistoricalData,
           operation.IntradayBar, operation.IntradayTick}
      then Inr ()
      else Inl (ConfigError
        (''return_eids is only supported for ReferenceData, HistoricalData, IntradayBar, '' @
         ''and IntradayTick requests (got '' @ operation_as_str op @
         ''); generic requests may pass the returnEids element explicitly'')))"

definition validate_on_delayed :: "request_params \<Rightarrow> operation \<Rightarrow> bool \<Rightarrow> (unit, blp_async_error) result" where
  "validate_on_delayed p op raw =
     (if rq_on_delayed p = None then Inr ()
      else if op \<in> {operation.HistoricalData, operation.IntradayBar, operation.IntradayTick} then Inr ()
      else if op = operation.ReferenceData
      then and_then (shape_from_params op raw p) (\<lambda>shape.
             case shape of
               RefDataShape _ \<Rightarrow> Inr ()
             | _ \<Rightarrow> Inl (ConfigError
                 ''on_delayed is not supported for bulk (BDS) or generic reference data requests''))
      else Inl (ConfigError
        (''on_delayed is only supported for ReferenceData (bdp), HistoricalData, IntradayBar, '' @
         ''and IntradayTick requests (got '' @ operation_as_str op @ '')'')))"

fun parse_type_list ::
  "(string \<times> string) list \<Rightarrow> ((string \<times> arrow_type) list, blp_error) result" where
  "parse_type_list [] = Inr []"
| "parse_type_list ((field, name) # ts) =
     and_then (arrow_type_parse name) (\<lambda>kind.
     and_then (parse_type_list ts) (\<lambda>rest. Inr ((field, kind) # rest)))"

definition parse_field_types ::
  "(string \<times> string) list option \<Rightarrow> ((string \<times> arrow_type) list, blp_async_error) result" where
  "parse_field_types types = map_err Blp (parse_type_list (case types of None \<Rightarrow> [] | Some ts \<Rightarrow> ts))"

definition validate_operation :: "request_params \<Rightarrow> operation \<Rightarrow> (unit, blp_async_error) result" where
  "validate_operation p op =
     (case op of
        operation.ReferenceData \<Rightarrow> validate_reference_data p
      | operation.HistoricalData \<Rightarrow> validate_historical_data p
      | operation.IntradayBar \<Rightarrow> validate_intraday_bar p
      | operation.IntradayTick \<Rightarrow> validate_intraday_tick p
      | operation.FieldInfo \<Rightarrow> validate_field_request p op
      | operation.FieldSearch \<Rightarrow> validate_field_request p op
      | _ \<Rightarrow> Inr ())"

definition validate_request_params_with_operation ::
  "request_params \<Rightarrow> operation \<Rightarrow> bool \<Rightarrow> ((string \<times> arrow_type) list, blp_async_error) result" where
  "validate_request_params_with_operation p op raw =
     (if rq_service p = [] then Inl (ConfigError ''service is required'')
      else
        and_then (validate_field_metadata_aliases p op) (\<lambda>_.
        and_then (validate_security_overrides p op raw) (\<lambda>_.
        and_then (validate_return_eids p op) (\<lambda>_.
        and_then (validate_on_delayed p op raw) (\<lambda>_.
        and_then (shape_from_params op raw p) (\<lambda>_.
        and_then (parse_field_types (rq_field_types p)) (\<lambda>field_types.
          if raw then Inr field_types
          else and_then (validate_operation p op) (\<lambda>_. Inr field_types))))))))"

definition validate_request_params :: "request_params \<Rightarrow> (operation \<times> bool, blp_async_error) result" where
  "validate_request_params p =
     and_then (effective_operation p) (\<lambda>(op, raw).
       and_then (validate_request_params_with_operation p op raw) (\<lambda>_. Inr (op, raw)))"

section \<open>Routing\<close>

text \<open>\<open>fields.pop()\<close> takes the last of the values; validation has left exactly one.\<close>

definition normalize_field_metadata_aliases :: "request_params \<Rightarrow> operation \<Rightarrow> request_params" where
  "normalize_field_metadata_aliases p op =
     (if op = operation.FieldInfo \<and> rq_field_ids p = None
      then p\<lparr>rq_field_ids := rq_fields p, rq_fields := None\<rparr>
      else if op = operation.FieldSearch \<and> rq_search_spec p = None
      then (case rq_fields p of
              None \<Rightarrow> p
            | Some fs \<Rightarrow> p\<lparr>rq_fields := None, rq_search_spec := (if fs = [] then None else Some (last fs))\<rparr>)
      else p)"

definition route_grid_pair ::
  "string \<times> string \<Rightarrow> string option \<times> override_pairs \<Rightarrow> string option \<times> override_pairs" where
  "route_grid_pair kv acc =
     (case (kv, acc) of ((key, v), (domain, overrides)) \<Rightarrow>
        if eq_ignore_ascii_case key ''Domain'' then (Some v, overrides)
        else if key \<noteq> [] \<and> \<not> eq_ignore_ascii_case key ''Overrides'' then (domain, overrides @ [(key, v)])
        else (domain, overrides))"

definition opt_list :: "'a list option \<Rightarrow> 'a list" where
  "opt_list v = (case v of None \<Rightarrow> [] | Some xs \<Rightarrow> xs)"

definition normalize_excel_grid_params :: "request_params \<Rightarrow> (string \<times> string) list \<Rightarrow> request_params" where
  "normalize_excel_grid_params p kwargs =
     (let (domain, grid_overrides) =
            fold route_grid_pair (opt_list (rq_elements p) @ opt_list (rq_overrides p) @ sorted_kwargs kwargs)
              (None, [])
      in p\<lparr>rq_elements := map_option (\<lambda>v. [(''Domain'', v)]) domain,
           rq_overrides := normalize_vec (Some grid_overrides)\<rparr>)"

definition merge_raw_kwargs_into_elements :: "request_params \<Rightarrow> (string \<times> string) list \<Rightarrow> request_params" where
  "merge_raw_kwargs_into_elements p kwargs =
     (if kwargs = [] then p
      else p\<lparr>rq_elements := Some (opt_list (rq_elements p) @ sorted_kwargs kwargs)\<rparr>)"

text \<open>The second component are the warnings that are logged.\<close>

definition route_request_params ::
  "(string \<Rightarrow> (string \<times> string) list) \<Rightarrow> request_params \<Rightarrow> schema_cache \<Rightarrow> operation \<Rightarrow>
     request_params \<times> string list" where
  "route_request_params json p0 cache op =
     (let p1 = normalize_field_metadata_aliases p0 op;
          kwargs = opt_list (rq_kwargs p1);
          p = p1\<lparr>rq_kwargs := None\<rparr>
      in if is_excel_get_grid_request p then (normalize_excel_grid_params p kwargs, [])
         else if is_raw_request p then (merge_raw_kwargs_into_elements p kwargs, [])
         else
           (let routed = route_kwargs json cache (rq_service p) (rq_operation p) kwargs (rq_overrides p)
            in (p\<lparr>rq_elements := (if rt_elements routed = [] then rq_elements p
                                  else Some (opt_list (rq_elements p) @ rt_elements routed)),
                  rq_overrides := normalize_vec (Some (rt_overrides routed))\<rparr>,
                rt_warnings routed)))"

section \<open>Prepared requests\<close>

record prepared_request_builder =
  pb_params :: request_params
  pb_field_types :: "(string \<times> arrow_type) list"
  pb_operation :: operation
  pb_raw :: bool

record prepared_request =
  pr_params :: request_params
  pr_shape :: planned_request_shape
  pr_operation :: operation
  pr_field_types :: "(string \<times> arrow_type) list"
  pr_raw :: bool

definition builder_prepare ::
  "(string \<Rightarrow> (string \<times> string) list) \<Rightarrow> request_params \<Rightarrow> schema_cache \<Rightarrow>
     (prepared_request_builder, blp_async_error) result" where
  "builder_prepare json p0 cache =
     (let p1 = normalize_request_params p0 in
      and_then (effective_operation p1) (\<lambda>(op, raw).
        (let p2 = apply_request_defaults_for_operation p1 op in
         and_then (validate_request_params_with_operation p2 op raw) (\<lambda>field_types.
           Inr \<lparr>pb_params = fst (route_request_params json p2 cache op), pb_field_types = field_types,
                pb_operation = op, pb_raw = raw\<rparr>))))"

definition builder_shape :: "prepared_request_builder \<Rightarrow> (planned_request_shape, blp_async_error) result" where
  "builder_shape b = shape_from_params (pb_operation b) (pb_raw b) (pb_params b)"

definition apply_bql_app_name :: "string option \<Rightarrow> prepared_request_builder \<Rightarrow> prepared_request_builder" where
  "apply_bql_app_name app_name b =
     (case app_name of
        None \<Rightarrow> b
      | Some name \<Rightarrow>
          if pb_operation b \<noteq> operation.BqlSendQuery \<or>
             rq_service (pb_params b) \<noteq> service_as_str service.BqlSvc \<or>
             ''clientContext.appName'' \<in> fst ` set (opt_list (rq_elements (pb_params b)))
          then b
          else b\<lparr>pb_params := (pb_params b)\<lparr>rq_elements :=
                   Some (opt_list (rq_elements (pb_params b)) @ [(''clientContext.appName'', name)])\<rparr>\<rparr>)"

definition set_field_types ::
  "(string \<times> string) list \<Rightarrow> prepared_request_builder \<Rightarrow> (prepared_request_builder, blp_async_error) result" where
  "set_field_types types b =
     and_then (parse_field_types (Some types)) (\<lambda>parsed.
       Inr (b\<lparr>pb_field_types := parsed, pb_params := (pb_params b)\<lparr>rq_field_types := Some types\<rparr>\<rparr>))"

definition set_intraday_datetimes :: "string \<Rightarrow> string \<Rightarrow> prepared_request_builder \<Rightarrow> prepared_request_builder" where
  "set_intraday_datetimes start_datetime end_datetime b =
     b\<lparr>pb_params := (pb_params b)\<lparr>rq_start_datetime := Some start_datetime,
       rq_end_datetime := Some end_datetime\<rparr>\<rparr>"

definition builder_finalize :: "prepared_request_builder \<Rightarrow> (prepared_request, blp_async_error) result" where
  "builder_finalize b =
     and_then (builder_shape b) (\<lambda>shape.
       Inr \<lparr>pr_params = pb_params b, pr_shape = shape, pr_operation = pb_operation b,
            pr_field_types = pb_field_types b, pr_raw = pb_raw b\<rparr>)"

definition for_security_shard ::
  "string list \<Rightarrow> override_pairs option \<Rightarrow> prepared_request \<Rightarrow> prepared_request" where
  "for_security_shard securities overrides r =
     r\<lparr>pr_params := (pr_params r)\<lparr>rq_securities := Some securities, rq_overrides := overrides,
       rq_security_overrides := None\<rparr>\<rparr>"

definition uses_intraday_security_element :: "prepared_request \<Rightarrow> bool" where
  "uses_intraday_security_element r \<longleftrightarrow> pr_operation r \<in> {operation.IntradayBar, operation.IntradayTick}"

definition prepared_is_excel_get_grid :: "prepared_request \<Rightarrow> bool" where
  "prepared_is_excel_get_grid r \<longleftrightarrow> pr_operation r = operation.ExcelGetGrid"

end
