(* ===== verification/Request_Plan_Props.thy ===== *)
theory Request_Plan_Props
  imports Request_Plan
begin

text \<open>
  What a successful preparation guarantees: the required parameters are there, the shape can be
  computed, and preparing again changes nothing.
\<close>

section \<open>Lemmas on validation\<close>

lemma require_Inr [simp]: "require b d = Inr () \<longleftrightarrow> b"
  by (simp add: require_def)

lemma require_Inl [simp]: "require b d = Inl e \<longleftrightarrow> \<not> b \<and> e = ConfigError d"
  by (auto simp: require_def)

lemma given_Some [simp]: "given (Some xs) \<longleftrightarrow> xs \<noteq> []" "\<not> given None"
  by (simp_all add: given_def)

lemma given_iff: "given v \<longleftrightarrow> (\<exists>x xs. v = Some (x # xs))"
  by (cases v) (auto simp: given_def neq_Nil_conv)

lemma check_security_overrides_ok:
  "check_security_overrides requested seen es = Inr () \<longleftrightarrow>
     (\<forall>e \<in> set es. snd e \<noteq> []) \<and> fst ` set es \<subseteq> set requested \<and> fst ` set es \<inter> set seen = {} \<and>
     distinct (map fst es)"
proof (induction requested seen es rule: check_security_overrides.induct)
  case (2 requested seen security overrides es)
  have "fst ` set es \<inter> set (security # seen) = {} \<longleftrightarrow> fst ` set es \<inter> set seen = {} \<and> security \<notin> fst ` set es"
    by auto
  with 2 show ?case by (cases "overrides = []") auto
qed simp

lemma effective_operation_cases:
  "effective_operation p = Inr (op, raw) \<Longrightarrow>
     op = operation_from_str (params_effective_operation p) \<and> raw = is_raw_request p"
  by (auto simp: effective_operation_def params_effective_operation_def is_raw_request_def Let_def
      normalize_vec_def split: if_splits option.splits)

section \<open>What routing leaves alone\<close>

definition plan_view where
  "plan_view p = (rq_service p, rq_operation p, rq_request_operation p, rq_extractor p, rq_extractor_set p,
     rq_securities p, rq_security p, rq_security_overrides p, rq_start_date p, rq_end_date p,
     rq_start_datetime p, rq_end_datetime p, rq_event_type p, rq_interval p, rq_field_types p,
     rq_return_eids p, rq_on_delayed p, rq_format p, rq_request_id p, rq_request_tz p, rq_output_tz p,
     rq_event_types p, rq_options p, rq_include_security_errors p, rq_validate_fields p)"

lemma plan_view_aliases [simp]: "plan_view (normalize_field_metadata_aliases p op) = plan_view p"
  by (simp add: normalize_field_metadata_aliases_def plan_view_def split: option.split)

lemma plan_view_grid [simp]: "plan_view (normalize_excel_grid_params p kw) = plan_view p"
  by (simp add: normalize_excel_grid_params_def plan_view_def split: prod.split)

lemma plan_view_raw [simp]: "plan_view (merge_raw_kwargs_into_elements p kw) = plan_view p"
  by (simp add: merge_raw_kwargs_into_elements_def plan_view_def)

lemma plan_view_updates [simp]:
  "plan_view (p\<lparr>rq_kwargs := x\<rparr>) = plan_view p" "plan_view (p\<lparr>rq_elements := x2\<rparr>) = plan_view p"
  "plan_view (p\<lparr>rq_overrides := x3\<rparr>) = plan_view p"
  by (simp_all add: plan_view_def)

lemma plan_view_route [simp]: "plan_view (fst (route_request_params json p cache op)) = plan_view p"
  by (simp add: route_request_params_def Let_def)

lemma shape_cong:
  assumes "selected_extractor op raw p = selected_extractor op raw q" "rq_format p = rq_format q"
  shows "shape_from_params op raw p = shape_from_params op raw q"
proof -
  have r: "reject_format_for_shape p = reject_format_for_shape q"
    using assms(2) by (simp add: reject_format_for_shape_def fun_eq_iff)
  show ?thesis unfolding shape_from_params_def assms r by (rule refl)
qed

lemma plan_view_effective:
  assumes "plan_view p = plan_view q"
  shows "effective_operation p = effective_operation q" "is_raw_request p = is_raw_request q"
    "params_effective_operation p = params_effective_operation q"
    "shape_from_params op raw p = shape_from_params op raw q"
proof -
  have v: "rq_operation p = rq_operation q" "rq_request_operation p = rq_request_operation q"
    "rq_extractor p = rq_extractor q" "rq_extractor_set p = rq_extractor_set q" "rq_format p = rq_format q"
    using assms by (simp_all add: plan_view_def)
  show "effective_operation p = effective_operation q" "is_raw_request p = is_raw_request q"
    "params_effective_operation p = params_effective_operation q"
    using v by (simp_all add: effective_operation_def is_raw_request_def params_effective_operation_def Let_def)
  show "shape_from_params op raw p = shape_from_params op raw q"
    using v by (intro shape_cong) (simp_all add: selected_extractor_def)
qed

text \<open>Defaulting twice selects the extractor that defaulting once does.\<close>

lemma defaults_shape:
  assumes "plan_view q = plan_view (apply_request_defaults_for_operation p op)"
  shows "shape_from_params op raw (apply_request_defaults_for_operation q op) = shape_from_params op raw q"
proof -
  have "rq_extractor q = rq_extractor (apply_request_defaults_for_operation p op)"
    "rq_extractor_set q = rq_extractor_set (apply_request_defaults_for_operation p op)"
    using assms by (simp_all add: plan_view_def)
  then have "rq_extractor_set q \<or> rq_extractor q = default_extractor op"
    by (simp add: apply_request_defaults_for_operation_def)
  then show ?thesis
    by (intro shape_cong) (auto simp: apply_request_defaults_for_operation_def selected_extractor_def)
qed

section \<open>Well-formed prepared requests\<close>

text \<open>The parameters each operation needs, as the workers find them.\<close>

definition required_params :: "operation \<Rightarrow> request_params \<Rightarrow> bool" where
  "required_params op p \<longleftrightarrow>
     (case op of
        operation.ReferenceData \<Rightarrow> given (rq_securities p) \<and> given (rq_fields p)
      | operation.HistoricalData \<Rightarrow> given (rq_securities p) \<and> given (rq_fields p) \<and>
          given (rq_start_date p) \<and> given (rq_end_date p)
      | operation.IntradayBar \<Rightarrow> given (rq_security p) \<and> given (rq_event_type p) \<and> rq_interval p \<noteq> None \<and>
          given (rq_start_datetime p) \<and> given (rq_end_datetime p)
      | operation.IntradayTick \<Rightarrow> given (rq_security p) \<and> given (rq_start_datetime p) \<and> given (rq_end_datetime p)
      | operation.FieldInfo \<Rightarrow> given (rq_field_ids p) \<and> rq_fields p = None
      | operation.FieldSearch \<Rightarrow> rq_search_spec p \<noteq> None \<and> rq_fields p = None
      | _ \<Rightarrow> True)"

definition overrides_ok :: "operation \<Rightarrow> bool \<Rightarrow> request_params \<Rightarrow> bool" where
  "overrides_ok op raw p \<longleftrightarrow>
     (\<forall>es. rq_security_overrides p = Some es \<longrightarrow>
        \<not> raw \<and> op \<in> {operation.ReferenceData, operation.HistoricalData} \<and> distinct (map fst es) \<and>
        (\<exists>ss. rq_securities p = Some ss \<and> fst ` set es \<subseteq> set ss) \<and> (\<forall>e \<in> set es. snd e \<noteq> []))"

definition prepared_wf :: "prepared_request_builder \<Rightarrow> bool" where
  "prepared_wf b \<longleftrightarrow> rq_service (pb_params b) \<noteq> [] \<and> rq_kwargs (pb_params b) = None \<and>
     effective_operation (pb_params b) = Inr (pb_operation b, pb_raw b) \<and>
     (\<not> pb_raw b \<longrightarrow> required_params (pb_operation b) (pb_params b)) \<and>
     overrides_ok (pb_operation b) (pb_raw b) (pb_params b)"

lemma normalized_fields:
  assumes "q = normalize_request_params p"
  shows "rq_fields q \<noteq> Some []" "rq_field_ids q \<noteq> Some []" "rq_search_spec q \<noteq> Some []"
    "rq_security_overrides q \<noteq> Some []" "rq_elements q \<noteq> Some []" "rq_overrides q \<noteq> Some []"
  by (simp_all add: assms normalize_request_params_def normalize_security_overrides_def split: option.split)

text \<open>What the validation has established before routing.\<close>

lemma validated:
  assumes "validate_request_params_with_operation p op raw = Inr types"
  shows "rq_service p \<noteq> []" "validate_field_metadata_aliases p op = Inr ()"
    "validate_security_overrides p op raw = Inr ()" "validate_return_eids p op = Inr ()"
    "validate_on_delayed p op raw = Inr ()" "\<exists>shape. shape_from_params op raw p = Inr shape"
    "parse_field_types (rq_field_types p) = Inr types" "\<not> raw \<Longrightarrow> validate_operation p op = Inr ()"
  using assms
  by (auto simp: validate_request_params_with_operation_def and_then_Inr split: if_splits)

lemma validatedI:
  assumes "rq_service p \<noteq> []" "validate_field_metadata_aliases p op = Inr ()"
    "validate_security_overrides p op raw = Inr ()" "validate_return_eids p op = Inr ()"
    "validate_on_delayed p op raw = Inr ()" "shape_from_params op raw p = Inr shape"
    "parse_field_types (rq_field_types p) = Inr types" "\<not> raw \<Longrightarrow> validate_operation p op = Inr ()"
  shows "validate_request_params_with_operation p op raw = Inr types"
  using assms by (simp add: validate_request_params_with_operation_def)

lemma defaults_simps [simp]:
  "effective_operation (apply_request_defaults_for_operation p op) = effective_operation p"
  "rq_fields (apply_request_defaults_for_operation p op) = rq_fields p"
  "rq_field_ids (apply_request_defaults_for_operation p op) = rq_field_ids p"
  "rq_search_spec (apply_request_defaults_for_operation p op) = rq_search_spec p"
  "rq_elements (apply_request_defaults_for_operation p op) = rq_elements p"
  "rq_overrides (apply_request_defaults_for_operation p op) = rq_overrides p"
  "rq_security_overrides (apply_request_defaults_for_operation p op) = rq_security_overrides p"
proof -
  have "rq_operation (apply_request_defaults_for_operation p op) = rq_operation p"
    "rq_request_operation (apply_request_defaults_for_operation p op) = rq_request_operation p"
    by (simp_all add: apply_request_defaults_for_operation_def)
  then show "effective_operation (apply_request_defaults_for_operation p op) = effective_operation p"
    by (simp add: effective_operation_def Let_def)
qed (simp_all add: apply_request_defaults_for_operation_def)

lemma route_aliases [simp]:
  "rq_fields (fst (route_request_params json p cache op)) = rq_fields (normalize_field_metadata_aliases p op)"
  "rq_field_ids (fst (route_request_params json p cache op)) = rq_field_ids (normalize_field_metadata_aliases p op)"
  "rq_search_spec (fst (route_request_params json p cache op)) = rq_search_spec (normalize_field_metadata_aliases p op)"
  "rq_kwargs (fst (route_request_params json p cache op)) = None"
  by (simp_all add: route_request_params_def Let_def normalize_excel_grid_params_def
      merge_raw_kwargs_into_elements_def split: prod.split)

lemma builder_prepareE:
  assumes "builder_prepare json p0 cache = Inr b"
  obtains p op raw types where
    "p = apply_request_defaults_for_operation (normalize_request_params p0) op"
    "effective_operation p = Inr (op, raw)"
    "validate_request_params_with_operation p op raw = Inr types"
    "b = \<lparr>pb_params = fst (route_request_params json p cache op), pb_field_types = types,
          pb_operation = op, pb_raw = raw\<rparr>"
  using assms by (auto simp: builder_prepare_def Let_def and_then_Inr split: prod.splits intro: that)

lemma required_after_routing:
  assumes "validate_operation p op = Inr ()" "validate_field_metadata_aliases p op = Inr ()"
    "rq_fields p \<noteq> Some []" "rq_field_ids p \<noteq> Some []" "rq_search_spec p \<noteq> Some []"
    "plan_view q = plan_view p" "rq_fields q = rq_fields (normalize_field_metadata_aliases p op)"
    "rq_field_ids q = rq_field_ids (normalize_field_metadata_aliases p op)"
    "rq_search_spec q = rq_search_spec (normalize_field_metadata_aliases p op)"
  shows "required_params op q"
proof -
  have v: "rq_securities q = rq_securities p" "rq_security q = rq_security p"
    "rq_start_date q = rq_start_date p" "rq_end_date q = rq_end_date p"
    "rq_start_datetime q = rq_start_datetime p" "rq_end_datetime q = rq_end_datetime p"
    "rq_event_type q = rq_event_type p" "rq_interval q = rq_interval p"
    using assms(6) by (simp_all add: plan_view_def)
  show ?thesis
  proof (cases op)
    case FieldInfo
    with assms(1-5,7-9) show ?thesis
      by (cases "rq_fields p"; cases "rq_field_ids p")
        (auto simp: validate_operation_def validate_field_request_def validate_field_metadata_aliases_def
          normalize_field_metadata_aliases_def required_params_def)
  next
    case FieldSearch
    with assms(1-5,7-9) show ?thesis
      by (cases "rq_fields p"; cases "rq_search_spec p")
        (auto simp: validate_operation_def validate_field_request_def validate_field_metadata_aliases_def
          normalize_field_metadata_aliases_def required_params_def and_then_Inr length_Suc_conv)
  qed (use assms(1,7) v in \<open>simp_all add: validate_operation_def required_params_def and_then_Inr
      validate_reference_data_def validate_historical_data_def validate_intraday_bar_def
      validate_intraday_tick_def normalize_field_metadata_aliases_def\<close>)
qed

lemma overrides_after_validation:
  assumes "validate_security_overrides p op raw = Inr ()" "rq_security_overrides p \<noteq> Some []"
    "plan_view q = plan_view p"
  shows "overrides_ok op raw q"
proof -
  have v: "rq_security_overrides q = rq_security_overrides p" "rq_securities q = rq_securities p"
    using assms(3) by (simp_all add: plan_view_def)
  show ?thesis
    unfolding overrides_ok_def v
  proof (intro allI impI)
    fix es assume "rq_security_overrides p = Some es"
    with assms(1,2) show "\<not> raw \<and> op \<in> {operation.ReferenceData, operation.HistoricalData} \<and>
        distinct (map fst es) \<and> (\<exists>ss. rq_securities p = Some ss \<and> fst ` set es \<subseteq> set ss) \<and>
        (\<forall>e \<in> set es. snd e \<noteq> [])"
      by (auto simp: validate_security_overrides_def normalize_vec_def check_security_overrides_ok
          split: if_splits option.splits)
  qed
qed

section \<open>Preparing twice\<close>

lemma normalizedI:
  assumes "rq_securities p \<noteq> Some []" "rq_fields p \<noteq> Some []" "rq_event_types p \<noteq> Some []"
    "rq_field_ids p \<noteq> Some []" "rq_overrides p \<noteq> Some []"
    "normalize_security_overrides (rq_security_overrides p) = rq_security_overrides p"
    "rq_elements p \<noteq> Some []" "rq_options p \<noteq> Some []" "rq_kwargs p \<noteq> Some []" "rq_field_types p \<noteq> Some []"
    "rq_request_operation p \<noteq> Some []" "rq_request_id p \<noteq> Some []" "rq_security p \<noteq> Some []"
    "rq_start_date p \<noteq> Some []" "rq_end_date p \<noteq> Some []" "rq_start_datetime p \<noteq> Some []"
    "rq_end_datetime p \<noteq> Some []" "rq_request_tz p \<noteq> Some []" "rq_output_tz p \<noteq> Some []"
    "rq_event_type p \<noteq> Some []" "rq_search_spec p \<noteq> Some []" "rq_format p \<noteq> Some []"
  shows "normalize_request_params p = p"
proof -
  have n: "v \<noteq> Some [] \<Longrightarrow> normalize_vec v = v" for v :: "'z list option" by (simp add: normalize_vec_def)
  show ?thesis unfolding normalize_request_params_def using assms by (simp add: n)
qed

lemma grid_fold:
  assumes "fold route_grid_pair kvs (d, os) = (d', os')"
    "\<forall>(k, v) \<in> set os. k \<noteq> [] \<and> \<not> eq_ignore_ascii_case k ''Domain'' \<and> \<not> eq_ignore_ascii_case k ''Overrides''"
  shows "\<forall>(k, v) \<in> set os'. k \<noteq> [] \<and> \<not> eq_ignore_ascii_case k ''Domain'' \<and> \<not> eq_ignore_ascii_case k ''Overrides''"
  using assms
proof (induction kvs arbitrary: d os)
  case (Cons kv kvs)
  obtain k v where kv: "kv = (k, v)" by (cases kv)
  obtain d1 os1 where 1: "route_grid_pair kv (d, os) = (d1, os1)" by fastforce
  show ?case
  proof (rule Cons.IH)
    show "fold route_grid_pair kvs (d1, os1) = (d', os')" using Cons.prems(1) 1 by simp
    show "\<forall>(k, v) \<in> set os1. k \<noteq> [] \<and> \<not> eq_ignore_ascii_case k ''Domain'' \<and> \<not> eq_ignore_ascii_case k ''Overrides''"
      using Cons.prems(2) 1 by (auto simp: kv route_grid_pair_def split: if_splits)
  qed
qed simp

lemma grid_fold_stable:
  assumes "\<forall>(k, v) \<in> set os. k \<noteq> [] \<and> \<not> eq_ignore_ascii_case k ''Domain'' \<and> \<not> eq_ignore_ascii_case k ''Overrides''"
  shows "fold route_grid_pair os (d, acc) = (d, acc @ os)"
  using assms by (induction os arbitrary: acc) (auto simp: route_grid_pair_def)

lemma normalize_excel_grid_again:
  assumes "q = normalize_excel_grid_params p kw" "r = q\<lparr>rq_extractor_set := b\<rparr> \<or> r = q"
  shows "normalize_excel_grid_params r [] = r"
proof -
  obtain d os where f: "fold route_grid_pair
      (opt_list (rq_elements p) @ opt_list (rq_overrides p) @ sorted_kwargs kw) (None, []) = (d, os)"
    by fastforce
  then have ok: "\<forall>(k, v) \<in> set os. k \<noteq> [] \<and> \<not> eq_ignore_ascii_case k ''Domain'' \<and> \<not> eq_ignore_ascii_case k ''Overrides''"
    by (rule grid_fold) simp
  have e: "rq_elements r = map_option (\<lambda>v. [(''Domain'', v)]) d" "rq_overrides r = normalize_vec (Some os)"
    using assms f by (auto simp: normalize_excel_grid_params_def)
  have dom: "fold route_grid_pair (opt_list (map_option (\<lambda>v. [(''Domain'', v)]) d)) (None, []) = (d, [])"
    by (cases d) (simp_all add: opt_list_def route_grid_pair_def eq_ignore_ascii_case_def)
  have ol: "opt_list (normalize_vec (Some os)) = os" by (simp add: opt_list_def normalize_vec_def)
  have "fold route_grid_pair (opt_list (rq_elements r) @ opt_list (rq_overrides r) @ sorted_kwargs []) (None, []) = (d, os)"
    unfolding e ol using dom grid_fold_stable [OF ok, of d "[]"]
    by (simp add: sorted_kwargs_def List.map_filter_simps)
  then show ?thesis by (simp add: normalize_excel_grid_params_def flip: e)
qed

lemma reroute_overrides:
  assumes "r = route_kwargs json cache service op kw ex"
  shows "rt_elements (route_kwargs json cache service op [] (normalize_vec (Some (rt_overrides r)))) = []"
    "rt_overrides (route_kwargs json cache service op [] (normalize_vec (Some (rt_overrides r)))) = rt_overrides r"
proof -
  let ?V = "valid_elements_from_cache cache service op"
  have o: "\<forall>kv \<in> set (rt_overrides r). to_override ?V (fst kv)"
    by (auto simp: assms route_kwargs_def fold_route_elements routed_default_def)
  have c: "routing_candidates json [] (normalize_vec (Some (rt_overrides r))) = rt_overrides r"
    by (simp add: routing_candidates_def sorted_kwargs_def List.map_filter_simps normalize_vec_def)
  show "rt_elements (route_kwargs json cache service op [] (normalize_vec (Some (rt_overrides r)))) = []"
    "rt_overrides (route_kwargs json cache service op [] (normalize_vec (Some (rt_overrides r)))) = rt_overrides r"
    using o by (auto simp: route_kwargs_def [of json cache service op "[]"] c fold_route_elements routed_default_def
        filter_empty_conv filter_id_conv to_override_def)
qed

lemma aliases_again:
  assumes "validate_field_metadata_aliases p op = Inr ()" "rq_field_ids p \<noteq> Some []"
    "rq_fields p \<noteq> Some []"
    "rq_fields r = rq_fields (normalize_field_metadata_aliases p op)"
    "rq_field_ids r = rq_field_ids (normalize_field_metadata_aliases p op)"
    "rq_search_spec r = rq_search_spec (normalize_field_metadata_aliases p op)"
  shows "normalize_field_metadata_aliases r op = r" "validate_field_metadata_aliases r op = Inr ()"
proof -
  have i: "op = operation.FieldInfo \<Longrightarrow> rq_field_ids r = None \<Longrightarrow> rq_fields r = None"
    and s: "op = operation.FieldSearch \<Longrightarrow> rq_search_spec r = None \<Longrightarrow> rq_fields r = None"
    using assms(2-) by (auto simp: normalize_field_metadata_aliases_def split: if_splits option.splits)
  show "normalize_field_metadata_aliases r op = r"
    using i s by (auto simp: normalize_field_metadata_aliases_def split: option.split)
  show "validate_field_metadata_aliases r op = Inr ()"
    using assms(1,4-)
    by (cases op) (auto simp: validate_field_metadata_aliases_def normalize_field_metadata_aliases_def
        and_then_Inr split: if_splits option.splits)
qed

lemma plan_view_grid_test:
  assumes "plan_view p = plan_view q"
  shows "is_excel_get_grid_request p = is_excel_get_grid_request q"
  using plan_view_effective(3) [OF assms] by (simp add: is_excel_get_grid_request_def)

lemma extractor_set_view:
  "effective_operation (q\<lparr>rq_extractor_set := b\<rparr>) = effective_operation q"
  "is_raw_request (q\<lparr>rq_extractor_set := b\<rparr>) = is_raw_request q"
  "is_excel_get_grid_request (q\<lparr>rq_extractor_set := b\<rparr>) = is_excel_get_grid_request q"
  by (simp_all add: effective_operation_def is_raw_request_def is_excel_get_grid_request_def
      params_effective_operation_def Let_def)

lemma route_again:
  assumes ok: "validate_field_metadata_aliases p op = Inr ()" "rq_field_ids p \<noteq> Some []" "rq_fields p \<noteq> Some []"
    and q: "q = fst (route_request_params json p cache op)"
    and r: "r = q\<lparr>rq_extractor_set := b\<rparr> \<or> r = q"
  shows "fst (route_request_params json r cache op) = r"
proof -
  let ?p = "(normalize_field_metadata_aliases p op)\<lparr>rq_kwargs := None\<rparr>"
  let ?kw = "opt_list (rq_kwargs (normalize_field_metadata_aliases p op))"
  have a: "normalize_field_metadata_aliases r op = r"
    by (rule aliases_again [OF ok]) (use q r in auto)
  have k: "rq_kwargs r = None" "r\<lparr>rq_kwargs := None\<rparr> = r" using q r by auto
  have v: "plan_view q = plan_view ?p" using q by simp
  have t: "is_excel_get_grid_request r = is_excel_get_grid_request ?p" "is_raw_request r = is_raw_request ?p"
    "rq_service r = rq_service ?p" "rq_operation r = rq_operation ?p"
    using plan_view_grid_test [OF v] plan_view_effective(2) [OF v] v r
    by (auto simp: extractor_set_view plan_view_def simp del: plan_view_updates)
  consider (grid) "is_excel_get_grid_request ?p" | (raw) "\<not> is_excel_get_grid_request ?p" "is_raw_request ?p"
    | (routed) "\<not> is_excel_get_grid_request ?p" "\<not> is_raw_request ?p" by blast
  then show ?thesis
  proof cases
    case grid
    then have "q = normalize_excel_grid_params ?p ?kw" by (simp add: q route_request_params_def Let_def)
    then have "normalize_excel_grid_params r [] = r" using r by (rule normalize_excel_grid_again)
    with grid t show ?thesis by (simp add: route_request_params_def Let_def a k opt_list_def)
  next
    case raw
    with t show ?thesis
      by (simp add: route_request_params_def Let_def a k opt_list_def merge_raw_kwargs_into_elements_def)
  next
    case routed
    let ?r = "route_kwargs json cache (rq_service ?p) (rq_operation ?p) ?kw (rq_overrides ?p)"
    have o: "rq_overrides r = normalize_vec (Some (rt_overrides ?r))"
      using routed r by (auto simp: q route_request_params_def Let_def)
    have "fst (route_request_params json r cache op) = r\<lparr>rq_overrides := normalize_vec (Some (rt_overrides ?r))\<rparr>"
      using routed t reroute_overrides [OF refl, of json cache "rq_service ?p" "rq_operation ?p" ?kw "rq_overrides ?p"]
      by (simp add: route_request_params_def Let_def a k opt_list_def o)
    then show ?thesis using o by simp
  qed
qed

lemma defaults_again:
  assumes "plan_view q = plan_view (apply_request_defaults_for_operation p op)"
  shows "apply_request_defaults_for_operation q op = q\<lparr>rq_extractor_set := True\<rparr> \<or>
    apply_request_defaults_for_operation q op = q"
proof -
  have "rq_extractor q = rq_extractor (apply_request_defaults_for_operation p op)"
    "rq_extractor_set q = rq_extractor_set (apply_request_defaults_for_operation p op)"
    using assms by (simp_all add: plan_view_def)
  then show ?thesis by (auto simp: apply_request_defaults_for_operation_def)
qed

lemma sorted_kwargs_Nil [simp]: "sorted_kwargs kw = [] \<longleftrightarrow> kw = []"
proof -
  have "map_of kw k \<noteq> None" if "k \<in> fst ` set kw" for k
    using that by (simp add: map_of_eq_None_iff)
  then have "filter (\<lambda>k. map_of kw k \<noteq> None) (sort (map fst kw)) = sort (map fst kw)"
    by (intro filter_True) auto
  then show ?thesis
    by (cases kw) (auto simp: sorted_kwargs_def List.map_filter_def comp_def insort_not_Nil)
qed

lemma route_element_lists:
  assumes "rq_elements p \<noteq> Some []"
  shows "rq_elements (fst (route_request_params json p cache op)) \<noteq> Some []"
    "rq_overrides p \<noteq> Some [] \<Longrightarrow> rq_overrides (fst (route_request_params json p cache op)) \<noteq> Some []"
proof -
  have e: "rq_elements (normalize_field_metadata_aliases p op) = rq_elements p"
    "rq_overrides (normalize_field_metadata_aliases p op) = rq_overrides p"
    by (simp_all add: normalize_field_metadata_aliases_def split: option.split)
  show "rq_elements (fst (route_request_params json p cache op)) \<noteq> Some []"
    using assms by (auto simp: route_request_params_def Let_def normalize_excel_grid_params_def e
        merge_raw_kwargs_into_elements_def split: prod.split)
  show "rq_overrides p \<noteq> Some [] \<Longrightarrow> rq_overrides (fst (route_request_params json p cache op)) \<noteq> Some []"
    by (auto simp: route_request_params_def Let_def normalize_excel_grid_params_def e
        merge_raw_kwargs_into_elements_def normalize_vec_def split: prod.split)
qed

lemma normalized_view:
  assumes "q = normalize_request_params p" "plan_view r = plan_view q \<or> plan_view r = plan_view (q\<lparr>rq_extractor_set := b\<rparr>)
      \<or> plan_view r = plan_view (q\<lparr>rq_extractor := x\<rparr>)"
  shows "rq_securities r \<noteq> Some []" "rq_event_types r \<noteq> Some []"
    "normalize_security_overrides (rq_security_overrides r) = rq_security_overrides r"
    "rq_options r \<noteq> Some []" "rq_field_types r \<noteq> Some []"
    "rq_request_operation r \<noteq> Some []" "rq_request_id r \<noteq> Some []" "rq_security r \<noteq> Some []"
    "rq_start_date r \<noteq> Some []" "rq_end_date r \<noteq> Some []" "rq_start_datetime r \<noteq> Some []"
    "rq_end_datetime r \<noteq> Some []" "rq_request_tz r \<noteq> Some []" "rq_output_tz r \<noteq> Some []"
    "rq_event_type r \<noteq> Some []" "rq_format r \<noteq> Some []"
proof -
  have "rq_securities r = rq_securities q" "rq_event_types r = rq_event_types q"
    "rq_security_overrides r = rq_security_overrides q"
    "rq_options r = rq_options q" "rq_field_types r = rq_field_types q"
    "rq_request_operation r = rq_request_operation q" "rq_request_id r = rq_request_id q" "rq_security r = rq_security q"
    "rq_start_date r = rq_start_date q" "rq_end_date r = rq_end_date q" "rq_start_datetime r = rq_start_datetime q"
    "rq_end_datetime r = rq_end_datetime q" "rq_request_tz r = rq_request_tz q" "rq_output_tz r = rq_output_tz q"
    "rq_event_type r = rq_event_type q" "rq_format r = rq_format q"
    using assms(2) by (auto simp: plan_view_def)
  note this [simp]
  show "rq_securities r \<noteq> Some []" "rq_event_types r \<noteq> Some []"
    "normalize_security_overrides (rq_security_overrides r) = rq_security_overrides r"
    "rq_options r \<noteq> Some []" "rq_field_types r \<noteq> Some []"
    "rq_request_operation r \<noteq> Some []" "rq_request_id r \<noteq> Some []" "rq_security r \<noteq> Some []"
    "rq_start_date r \<noteq> Some []" "rq_end_date r \<noteq> Some []" "rq_start_datetime r \<noteq> Some []"
    "rq_end_datetime r \<noteq> Some []" "rq_request_tz r \<noteq> Some []" "rq_output_tz r \<noteq> Some []"
    "rq_event_type r \<noteq> Some []" "rq_format r \<noteq> Some []"
    by (simp_all add: assms(1) normalize_request_params_def normalize_security_overrides_idem)
qed

lemma normalize_after_routing:
  assumes p: "p = apply_request_defaults_for_operation (normalize_request_params p0) op"
    and q: "q = fst (route_request_params json p cache op)" and s: "rq_search_spec q \<noteq> Some []"
  shows "normalize_request_params q = q"
proof -
  note n = normalized_fields [of "normalize_request_params p0" p0, OF refl]
  have v: "plan_view q = plan_view p" by (simp add: q)
  have d: "plan_view q = plan_view (normalize_request_params p0) \<or>
      plan_view q = plan_view ((normalize_request_params p0)\<lparr>rq_extractor_set := True\<rparr>) \<or>
      plan_view q = plan_view ((normalize_request_params p0)\<lparr>rq_extractor := default_extractor op\<rparr>)"
    unfolding v by (auto simp: p apply_request_defaults_for_operation_def)
  have f: "rq_fields q \<noteq> Some []" "rq_field_ids q \<noteq> Some []"
    using n(1,2) by (auto simp: q p normalize_field_metadata_aliases_def split: option.split)
  have e: "rq_elements q \<noteq> Some []" "rq_overrides q \<noteq> Some []"
    unfolding q by (rule route_element_lists; use n(5,6) in \<open>simp add: p\<close>)+
  show ?thesis
    by (rule normalizedI) (use f e s normalized_view [OF refl d] in \<open>simp_all add: q\<close>)
qed

lemma validate_operation_again:
  assumes "validate_operation p op = Inr ()" "rq_field_ids p \<noteq> Some []" "rq_fields p \<noteq> Some []"
    "rq_search_spec p \<noteq> Some []" "rq_search_spec r \<noteq> Some []"
    "plan_view q = plan_view p" "r = q\<lparr>rq_extractor_set := b\<rparr> \<or> r = q"
    "rq_fields q = rq_fields (normalize_field_metadata_aliases p op)"
    "rq_field_ids q = rq_field_ids (normalize_field_metadata_aliases p op)"
    "rq_search_spec q = rq_search_spec (normalize_field_metadata_aliases p op)"
    "validate_field_metadata_aliases p op = Inr ()"
  shows "validate_operation r op = Inr ()"
proof -
  have req: "required_params op q"
    by (rule required_after_routing [OF assms(1,11,3,2,4,6,8,9,10)])
  have s: "rq_search_spec q \<noteq> Some []" using assms(5,7) by auto
  have "validate_operation q op = Inr ()"
    using req s
    by (cases op) (auto simp: required_params_def validate_operation_def validate_reference_data_def
        validate_historical_data_def validate_intraday_bar_def validate_intraday_tick_def
        validate_field_request_def and_then_Inr given_def split: option.splits)
  moreover have "validate_operation (q\<lparr>rq_extractor_set := b\<rparr>) op = validate_operation q op"
    by (cases op) (simp_all add: validate_operation_def validate_reference_data_def
        validate_historical_data_def validate_intraday_bar_def validate_intraday_tick_def
        validate_field_request_def)
  ultimately show ?thesis using assms(7) by auto
qed

lemma validate_after_routing:
  assumes ok: "validate_request_params_with_operation p op raw = Inr types"
    and al: "validate_field_metadata_aliases p op = Inr ()" "rq_field_ids p \<noteq> Some []" "rq_fields p \<noteq> Some []"
    and s: "rq_search_spec p \<noteq> Some []"
    and q: "q = fst (route_request_params json p cache op)"
    and r: "r = q\<lparr>rq_extractor_set := True\<rparr> \<or> r = q"
    and shape: "shape_from_params op raw r = shape_from_params op raw q"
    and sr: "rq_search_spec r \<noteq> Some []"
  shows "validate_request_params_with_operation r op raw = Inr types"
proof -
  note V = validated [OF ok]
  have v: "plan_view q = plan_view p" by (simp add: q)
  then have f: "rq_service r = rq_service p" "rq_security_overrides r = rq_security_overrides p"
    "rq_securities r = rq_securities p" "rq_return_eids r = rq_return_eids p"
    "rq_on_delayed r = rq_on_delayed p" "rq_field_types r = rq_field_types p"
    using r by (auto simp: plan_view_def)
  have sh: "shape_from_params op raw r = shape_from_params op raw p"
    using shape plan_view_effective(4) [OF v] by simp
  obtain shp where shp: "shape_from_params op raw r = Inr shp" using V(6) sh by auto
  have a: "validate_field_metadata_aliases r op = Inr ()"
    by (rule aliases_again [OF al]) (use r in \<open>auto simp: q\<close>)
  show ?thesis
  proof (rule validatedI [OF _ a _ _ _ shp])
    show "validate_security_overrides r op raw = Inr ()"
      using V(3) unfolding validate_security_overrides_def f .
    show "validate_return_eids r op = Inr ()" using V(4) by (simp add: validate_return_eids_def f)
    show "validate_on_delayed r op raw = Inr ()" using V(5) unfolding validate_on_delayed_def f sh .
    show "validate_operation r op = Inr ()" if "\<not> raw"
      by (rule validate_operation_again [OF V(8) [OF that] al(2,3) s sr v r _ _ _ al(1)]) (simp_all add: q)
  qed (use V f in simp_all)
qed

section \<open>The order of the checks\<close>

text \<open>The parameters a request must name, in the order the code asks for them.\<close>

definition requirements :: "operation \<Rightarrow> request_params \<Rightarrow> (bool \<times> string) list" where
  "requirements op p =
     (case op of
        operation.ReferenceData \<Rightarrow> [(given (rq_securities p), ''securities''), (given (rq_fields p), ''fields'')]
      | operation.HistoricalData \<Rightarrow> [(given (rq_securities p), ''securities''), (given (rq_fields p), ''fields''),
          (given (rq_start_date p), ''start_date''), (given (rq_end_date p), ''end_date'')]
      | operation.IntradayBar \<Rightarrow> [(given (rq_security p), ''security''), (given (rq_event_type p), ''event_type''),
          (rq_interval p \<noteq> None, ''interval''), (given (rq_start_datetime p), ''start_datetime''),
          (given (rq_end_datetime p), ''end_datetime'')]
      | operation.IntradayTick \<Rightarrow> [(given (rq_security p), ''security''),
          (given (rq_start_datetime p), ''start_datetime''), (given (rq_end_datetime p), ''end_datetime'')]
      | _ \<Rightarrow> [])"

definition plain_request :: "request_params \<Rightarrow> bool" where
  "plain_request p \<longleftrightarrow> rq_security_overrides p = None \<and> \<not> rq_return_eids p \<and> rq_on_delayed p = None \<and>
     \<not> rq_extractor_set p \<and> rq_extractor p = extractor_default \<and> rq_format p = None"

lemma given_normalized [simp]: "given (normalize_vec v) = given v"
  by (simp add: given_def normalize_vec_def split: option.split)

lemma first_missing:
  assumes "op \<in> {operation.ReferenceData, operation.HistoricalData, operation.IntradayBar, operation.IntradayTick}"
  shows "validate_operation p op = Inl e \<longleftrightarrow>
    (\<exists>name. find (\<lambda>(present, _). \<not> present) (requirements op p) = Some (False, name) \<and>
       e = ConfigError (name @ '' is required for '' @ operation_as_str op))"
  using assms by (auto simp: validate_operation_def requirements_def validate_reference_data_def
      validate_historical_data_def validate_intraday_bar_def validate_intraday_tick_def require_def)

lemma requirements_normalized:
  "requirements op (apply_request_defaults_for_operation (normalize_request_params p) op) = requirements op p"
  by (cases op) (simp_all add: requirements_def apply_request_defaults_for_operation_def normalize_request_params_def)

lemma effective_normalized:
  assumes "effective_operation p = Inr (op, raw)"
  shows "effective_operation (normalize_request_params p) = Inr (op, raw)"
  using assms
  by (auto simp: effective_operation_def normalize_request_params_def Let_def split: if_splits option.splits)

lemma plain_normalized:
  assumes "plain_request p" and q_def: "q = apply_request_defaults_for_operation (normalize_request_params p) op"
  shows "rq_security_overrides q = None" "\<not> rq_return_eids q" "rq_on_delayed q = None" "\<not> rq_extractor_set q"
    "rq_extractor q = default_extractor op" "rq_format q = None" "rq_service q = rq_service p"
    "rq_field_types q = normalize_vec (rq_field_types p)"
  using assms(1) by (simp_all add: q_def plain_request_def apply_request_defaults_for_operation_def
      normalize_request_params_def normalize_security_overrides_def normalize_vec_def)

lemma plain_validation:
  assumes "plain_request p"
    "op \<in> {operation.ReferenceData, operation.HistoricalData, operation.IntradayBar, operation.IntradayTick}"
    and q_def: "q = apply_request_defaults_for_operation (normalize_request_params p) op"
  shows "validate_request_params_with_operation q op False =
    (if rq_service p = [] then Inl (ConfigError ''service is required'')
     else and_then (parse_field_types (rq_field_types p)) (\<lambda>types.
       and_then (validate_operation q op) (\<lambda>_. Inr types)))"
proof -
  note c = plain_normalized [OF assms(1,3)]
  have t: "parse_field_types (normalize_vec ts) = parse_field_types ts" for ts
    by (simp add: parse_field_types_def normalize_vec_def split: option.split)
  have "validate_field_metadata_aliases q op = Inr ()"
    using assms(2) by (auto simp: validate_field_metadata_aliases_def)
  moreover have "validate_security_overrides q op False = Inr ()"
    by (simp add: validate_security_overrides_def c normalize_vec_def)
  moreover have "validate_return_eids q op = Inr ()" "validate_on_delayed q op False = Inr ()"
    by (simp_all add: validate_return_eids_def validate_on_delayed_def c)
  moreover have "\<exists>shape. shape_from_params op False q = Inr shape"
    using assms(2) by (auto simp: shape_from_params_def selected_extractor_def c
        validate_extractor_compatibility_def reject_format_for_shape_def planned_output_parse_def)
  ultimately show ?thesis
    by (auto simp: validate_request_params_with_operation_def c t)
qed

section \<open>Properties\<close>

text \<open>C32: A request that was prepared is well formed: its service is set, the operation is the one the
  workers will read back, every parameter the operation requires is present, field-metadata
  aliases are resolved, the keyword arguments are consumed, and per-security overrides name distinct requested securities with at least one override each, on an
  operation that supports them. Its shape can then always be computed.\<close>

theorem prepared_request_wellformed:
  assumes "builder_prepare json p0 cache = Inr b"
  shows "prepared_wf b \<and> (\<exists>r. builder_finalize b = Inr r \<and> pr_params r = pb_params b)"
proof -
  obtain p op raw types where p: "p = apply_request_defaults_for_operation (normalize_request_params p0) op"
    and eff: "effective_operation p = Inr (op, raw)"
    and ok: "validate_request_params_with_operation p op raw = Inr types"
    and b: "b = \<lparr>pb_params = fst (route_request_params json p cache op), pb_field_types = types,
          pb_operation = op, pb_raw = raw\<rparr>"
    using assms by (rule builder_prepareE)
  note V = validated [OF ok]
  note n = normalized_fields [of "normalize_request_params p0" p0, OF refl]
  let ?q = "fst (route_request_params json p cache op)"
  have v: "plan_view ?q = plan_view p" by simp
  have "required_params op ?q" if "\<not> raw"
    by (rule required_after_routing [OF V(8) [OF that] V(2)]) (use n in \<open>simp_all add: p\<close>)
  moreover have "overrides_ok op raw ?q"
    by (rule overrides_after_validation [OF V(3) _ v]) (use n(4) in \<open>simp add: p\<close>)
  moreover have "rq_service ?q \<noteq> []" using V(1) v by (simp add: plan_view_def)
  moreover have "effective_operation ?q = Inr (op, raw)" using plan_view_effective(1) [OF v] eff by simp
  ultimately have "prepared_wf b" by (simp add: prepared_wf_def b)
  moreover obtain shape where "shape_from_params op raw ?q = Inr shape"
    using V(6) plan_view_effective(4) [OF v, of op raw] by auto
  then have "\<exists>r. builder_finalize b = Inr r \<and> pr_params r = pb_params b"
    by (simp add: builder_finalize_def builder_shape_def b)
  ultimately show ?thesis by blast
qed

definition sample_params :: request_params where
  "sample_params = request_params_default\<lparr>rq_service := ''//blp/apiflds'', rq_operation := ''FieldSearchRequest'',
     rq_fields := Some [''last price'']\<rparr>"

lemma sample_prepared:
  "\<exists>b. builder_prepare (\<lambda>_. []) sample_params (\<lambda>_. None) = Inr b \<and> rq_search_spec (pb_params b) = Some ''last price''"
  by (simp add: sample_params_def request_params_default_def builder_prepare_def normalize_request_params_def
      normalize_vec_def normalize_security_overrides_def effective_operation_def operation_from_str_def
      apply_request_defaults_for_operation_def extractor_default_def validate_request_params_with_operation_def
      validate_field_metadata_aliases_def validate_security_overrides_def validate_return_eids_def
      validate_on_delayed_def shape_from_params_def selected_extractor_def validate_extractor_compatibility_def
      reject_format_for_shape_def parse_field_types_def validate_operation_def validate_field_request_def
      require_def route_request_params_def normalize_field_metadata_aliases_def is_excel_get_grid_request_def
      params_effective_operation_def is_raw_request_def opt_list_def Let_def)

theorem prepared_request_wellformed_witness:
  "\<exists>b. builder_prepare (\<lambda>_. []) sample_params (\<lambda>_. None) = Inr b \<and> prepared_wf b \<and>
     (\<exists>r. builder_finalize b = Inr r)"
  using sample_prepared prepared_request_wellformed [of "\<lambda>_. []" sample_params "\<lambda>_. None"] by blast

text \<open>C33: Preparing is idempotent: submitting the parameters of a prepared request again yields the
  same request (with the selected extractor marked as chosen), unless the caller asked a field
  search for the empty text. So a shard or a retry that goes through the planner again is not
  routed differently.\<close>

theorem prepare_idempotent:
  assumes prep: "builder_prepare json p0 cache = Inr b" and spec: "rq_search_spec (pb_params b) \<noteq> Some []"
  shows "builder_prepare json (pb_params b) cache =
    Inr (b\<lparr>pb_params := apply_request_defaults_for_operation (pb_params b) (pb_operation b)\<rparr>)"
proof -
  obtain p op raw types where p: "p = apply_request_defaults_for_operation (normalize_request_params p0) op"
    and eff: "effective_operation p = Inr (op, raw)"
    and ok: "validate_request_params_with_operation p op raw = Inr types"
    and b: "b = \<lparr>pb_params = fst (route_request_params json p cache op), pb_field_types = types,
          pb_operation = op, pb_raw = raw\<rparr>"
    using prep by (rule builder_prepareE)
  define q where "q = fst (route_request_params json p cache op)"
  define r where "r = apply_request_defaults_for_operation q op"
  note n = normalized_fields [of "normalize_request_params p0" p0, OF refl]
  have v: "plan_view q = plan_view p" by (simp add: q_def)
  have al: "validate_field_metadata_aliases p op = Inr ()" "rq_field_ids p \<noteq> Some []" "rq_fields p \<noteq> Some []"
    using validated(2) [OF ok] n(1,2) by (simp_all add: p)
  have rq: "r = q\<lparr>rq_extractor_set := True\<rparr> \<or> r = q"
    unfolding r_def by (rule defaults_again) (simp add: v p)
  have norm: "normalize_request_params q = q"
    by (rule normalize_after_routing [OF p q_def]) (use spec in \<open>simp add: b q_def\<close>)
  have effq: "effective_operation q = Inr (op, raw)" using plan_view_effective(1) [OF v] eff by simp
  have valid: "validate_request_params_with_operation r op raw = Inr types"
  proof (rule validate_after_routing [OF ok al _ q_def rq])
    show "shape_from_params op raw r = shape_from_params op raw q"
      unfolding r_def by (rule defaults_shape) (simp add: v p)
  qed (use n(3) spec in \<open>simp_all add: p b q_def r_def\<close>)
  have route: "fst (route_request_params json r cache op) = r"
    by (rule route_again [OF al q_def rq])
  show ?thesis
    using norm effq valid route
    by (simp add: builder_prepare_def Let_def b flip: q_def r_def)
qed

theorem prepare_idempotent_witness:
  "\<exists>b. builder_prepare (\<lambda>_. []) sample_params (\<lambda>_. None) = Inr b \<and>
     builder_prepare (\<lambda>_. []) (pb_params b) (\<lambda>_. None) =
       Inr (b\<lparr>pb_params := apply_request_defaults_for_operation (pb_params b) (pb_operation b)\<rparr>)"
  using sample_prepared prepare_idempotent [of "\<lambda>_. []" sample_params "\<lambda>_. None"] by fastforce

text \<open>C34: A data request without optional features is rejected exactly for the first problem in a
  fixed order: no service, an unknown column type, then the first required parameter that is
  absent or empty, in the order of the operation's list. Neither the schema cache nor the
  keyword arguments play a role.\<close>

theorem prepare_reports_first_problem:
  assumes "plain_request p" "effective_operation p = Inr (op, False)"
    "op \<in> {operation.ReferenceData, operation.HistoricalData, operation.IntradayBar, operation.IntradayTick}"
  shows "builder_prepare json p cache = Inl e \<longleftrightarrow>
    (if rq_service p = [] then e = ConfigError ''service is required''
     else case parse_field_types (rq_field_types p) of
            Inl e' \<Rightarrow> e = e'
          | Inr _ \<Rightarrow> (\<exists>name. find (\<lambda>(present, _). \<not> present) (requirements op p) = Some (False, name) \<and>
              e = ConfigError (name @ '' is required for '' @ operation_as_str op)))"
proof -
  let ?p = "apply_request_defaults_for_operation (normalize_request_params p) op"
  have "builder_prepare json p cache = Inl e \<longleftrightarrow> validate_request_params_with_operation ?p op False = Inl e"
    using effective_normalized [OF assms(2)] by (simp add: builder_prepare_def Let_def and_then_Inl)
  also have "\<dots> \<longleftrightarrow> (if rq_service p = [] then e = ConfigError ''service is required''
     else case parse_field_types (rq_field_types p) of
            Inl e' \<Rightarrow> e = e' | Inr _ \<Rightarrow> validate_operation ?p op = Inl e)"
    unfolding plain_validation [OF assms(1,3) refl] by (auto split: sum.split simp: and_then_Inl)
  also have "\<dots> \<longleftrightarrow> (if rq_service p = [] then e = ConfigError ''service is required''
     else case parse_field_types (rq_field_types p) of
            Inl e' \<Rightarrow> e = e'
          | Inr _ \<Rightarrow> (\<exists>name. find (\<lambda>(present, _). \<not> present) (requirements op p) = Some (False, name) \<and>
              e = ConfigError (name @ '' is required for '' @ operation_as_str op)))"
    unfolding first_missing [OF assms(3)] requirements_normalized by (rule refl)
  finally show ?thesis .
qed

definition sample_history :: request_params where
  "sample_history = request_params_default\<lparr>rq_service := ''//blp/refdata'', rq_operation := ''HistoricalDataRequest'',
     rq_securities := Some [''IBM US Equity''], rq_fields := Some []\<rparr>"

theorem prepare_reports_first_problem_witness:
  "plain_request sample_history \<and>
   builder_prepare (\<lambda>_. []) sample_history (\<lambda>_. None) =
     Inl (ConfigError ''fields is required for HistoricalDataRequest'')"
proof -
  have plain: "plain_request sample_history"
    by (simp add: plain_request_def sample_history_def request_params_default_def)
  have eff: "effective_operation sample_history = Inr (operation.HistoricalData, False)"
    by (simp add: sample_history_def request_params_default_def effective_operation_def operation_from_str_def
        normalize_vec_def)
  show ?thesis
    using plain prepare_reports_first_problem [OF plain eff, of "\<lambda>_. []" "\<lambda>_. None"
        "ConfigError ''fields is required for HistoricalDataRequest''"]
    by (simp add: sample_history_def request_params_default_def parse_field_types_def requirements_def)
qed

section \<open>Two corners of the validation\<close>

text \<open>The branch \<open>operation is required\<close> is never taken: the empty name parses as a raw request, and
  the error is about \<open>request_operation\<close>.\<close>

lemma empty_operation_message:
  assumes "rq_operation p = []" "normalize_vec (rq_request_operation p) = None"
  shows "effective_operation p = Inl (ConfigError ''request_operation is required for RawRequest'')"
  using assms by (simp add: effective_operation_def operation_from_str_def)

text \<open>An empty search text is rejected when given as \<open>search_spec\<close> and accepted when given as the
  single field.\<close>

lemma empty_search_alias:
  "\<exists>b. builder_prepare (\<lambda>_. []) (sample_params\<lparr>rq_fields := Some [[]]\<rparr>) (\<lambda>_. None) = Inr b \<and>
     rq_search_spec (pb_params b) = Some []"
  "builder_prepare (\<lambda>_. []) (sample_params\<lparr>rq_fields := None, rq_search_spec := Some []\<rparr>) (\<lambda>_. None) =
     Inl (ConfigError ''fields is required for field metadata requests'')"
  by (simp_all add: sample_params_def request_params_default_def builder_prepare_def normalize_request_params_def
      normalize_vec_def normalize_security_overrides_def effective_operation_def operation_from_str_def
      apply_request_defaults_for_operation_def extractor_default_def validate_request_params_with_operation_def
      validate_field_metadata_aliases_def validate_security_overrides_def validate_return_eids_def
      validate_on_delayed_def shape_from_params_def selected_extractor_def validate_extractor_compatibility_def
      reject_format_for_shape_def parse_field_types_def validate_operation_def validate_field_request_def
      require_def route_request_params_def normalize_field_metadata_aliases_def is_excel_get_grid_request_def
      params_effective_operation_def is_raw_request_def opt_list_def Let_def)

end
