(* ===== verification/Btree_Map.thy ===== *)
theory Btree_Map
  imports Xbbg_Prelude
begin

text \<open>
  Rust's \<open>BTreeMap\<close>, whose iteration order is the order of its keys: an association list with
  strictly increasing keys. Two such lists with the same lookups are equal, so a map that is
  serialised by iterating over it has one serialised form.
\<close>

type_synonym ('k, 'v) btree = "('k \<times> 'v) list"

definition bt_wf :: "('k :: linorder, 'v) btree \<Rightarrow> bool" where
  "bt_wf t \<longleftrightarrow> sorted (map fst t) \<and> distinct (map fst t)"

fun bt_insert :: "'k :: linorder \<Rightarrow> 'v \<Rightarrow> ('k, 'v) btree \<Rightarrow> ('k, 'v) btree" where
  "bt_insert k v [] = [(k, v)]"
| "bt_insert k v ((k', v') # t) =
     (if k < k' then (k, v) # (k', v') # t
      else if k = k' then (k, v) # t
      else (k', v') # bt_insert k v t)"

text \<open>\<open>BTreeMap::extend\<close>: the entries of the argument replace those of the receiver.\<close>

definition bt_extend :: "('k :: linorder, 'v) btree \<Rightarrow> ('k, 'v) btree \<Rightarrow> ('k, 'v) btree" where
  "bt_extend t u = fold (\<lambda>(k, v). bt_insert k v) u t"

text \<open>\<open>entry(k).or_default()\<close> updated in place.\<close>

definition bt_update :: "'k :: linorder \<Rightarrow> 'v \<Rightarrow> ('v \<Rightarrow> 'v) \<Rightarrow> ('k, 'v) btree \<Rightarrow> ('k, 'v) btree" where
  "bt_update k d f t = bt_insert k (f (case map_of t k of None \<Rightarrow> d | Some v \<Rightarrow> v)) t"

lemma bt_wf_Nil [simp]: "bt_wf []"
  by (simp add: bt_wf_def)

lemma bt_wf_Cons: "bt_wf ((k, v) # t) \<longleftrightarrow> bt_wf t \<and> (\<forall>k' \<in> fst ` set t. k < k')"
  by (auto simp: bt_wf_def less_le)

lemma keys_bt_insert [simp]: "fst ` set (bt_insert k v t) = insert k (fst ` set t)"
  by (induction t rule: bt_insert.induct [of "\<lambda>k v t. fst ` set (bt_insert k v t) = insert k (fst ` set t)"]) auto

lemma bt_wf_insert [simp]: "bt_wf t \<Longrightarrow> bt_wf (bt_insert k v t)"
  by (induction k v t rule: bt_insert.induct) (auto simp: bt_wf_Cons)

lemma map_of_bt_insert [simp]: "bt_wf t \<Longrightarrow> map_of (bt_insert k v t) = (map_of t)(k \<mapsto> v)"
proof (induction k v t rule: bt_insert.induct)
  case (2 k v k' v' t)
  then show ?case by (auto simp: bt_wf_Cons fun_upd_twist)
qed simp

lemma map_of_bt_update [simp]:
  "bt_wf t \<Longrightarrow> map_of (bt_update k d f t) = (map_of t)(k \<mapsto> f (case map_of t k of None \<Rightarrow> d | Some v \<Rightarrow> v))"
  by (simp add: bt_update_def)

lemma bt_wf_update [simp]: "bt_wf t \<Longrightarrow> bt_wf (bt_update k d f t)"
  by (simp add: bt_update_def)

lemma bt_insert_not_Nil [simp]: "bt_insert k v t \<noteq> []"
  by (cases t) (auto split: if_splits)

lemma bt_extend_not_Nil: "bt_extend t u = [] \<longleftrightarrow> t = [] \<and> u = []"
proof -
  have "fold (\<lambda>(k, v). bt_insert k v) u t \<noteq> []" if "t \<noteq> [] \<or> u \<noteq> []" for t u
    using that by (induction u arbitrary: t) auto
  then show ?thesis by (auto simp: bt_extend_def)
qed

lemma bt_wf_extend [simp]: "bt_wf t \<Longrightarrow> bt_wf (bt_extend t u)"
  by (induction u arbitrary: t) (auto simp: bt_extend_def)

lemma map_of_bt_extend:
  assumes "bt_wf t" "bt_wf u"
  shows "map_of (bt_extend t u) = map_of t ++ map_of u"
  using assms
proof (induction u arbitrary: t)
  case (Cons kv u)
  obtain k v where kv: "kv = (k, v)" by (cases kv)
  have u: "bt_wf u" "map_of u k = None" using Cons.prems(2) by (auto simp: kv bt_wf_Cons map_of_eq_None_iff)
  have "map_of (bt_extend t (kv # u)) = map_of (bt_insert k v t) ++ map_of u"
    using Cons.IH [of "bt_insert k v t"] Cons.prems(1) u(1) by (simp add: bt_extend_def kv fun_upd_def)
  also have "\<dots> = map_of t ++ map_of (kv # u)"
    using Cons.prems(1) u(2) by (auto simp: kv fun_eq_iff map_add_def split: option.split)
  finally show ?case .
qed (simp add: bt_extend_def)

lemma bt_ext:
  assumes "bt_wf t" "bt_wf u" "map_of t = map_of u"
  shows "t = u"
proof -
  have "set t = set u"
    using assms map_of_inject_set [of t u] by (simp add: bt_wf_def)
  moreover have "distinct (map fst t)" "distinct (map fst u)" "sorted (map fst t)" "sorted (map fst u)"
    using assms(1,2) by (simp_all add: bt_wf_def)
  ultimately show ?thesis by (intro map_sorted_distinct_set_unique) (auto simp: distinct_map)
qed

lemma bt_wf_map_snd [simp]: "bt_wf (map (\<lambda>(k, v). (k, f k v)) t) = bt_wf t"
  by (simp add: bt_wf_def split_def comp_def)

lemma map_of_map_snd: "map_of (map (\<lambda>(k, v). (k, f v)) t) k = map_option f (map_of t k)"
  by (induction t) auto

end
