(* ===== verification/Diagnostics.thy ===== *)
theory Diagnostics
  imports Btree_Map "HOL-Library.Product_Lexorder"
begin

text \<open>
  The response diagnostics of \<open>diagnostics.rs\<close>: field exceptions stored once in a dictionary, with
  the ordered occurrences of each security as indices into it. The JSON text is read and written
  by serde; the model starts at the decoded envelope. An index that is out of range panics in
  the code and is the value \<open>None\<close> here.
\<close>

section \<open>Field exceptions\<close>

text \<open>The derived order compares the members in the order of their declaration.\<close>

record field_exception_meta =
  fx_field :: string
  fx_category :: string
  fx_code :: int
  fx_subcategory :: string
  fx_message :: string

definition fx_key where
  "fx_key e = (fx_field e, fx_category e, fx_code e, fx_subcategory e, fx_message e, field_exception_meta.more e)"

lemma fx_key_inject: "fx_key e = fx_key e' \<longleftrightarrow> e = e'"
  by (cases e; cases e') (simp add: fx_key_def)

instantiation field_exception_meta_ext :: (linorder) linorder
begin

definition less_eq_field_exception_meta_ext ::
  "'a field_exception_meta_scheme \<Rightarrow> 'a field_exception_meta_scheme \<Rightarrow> bool" where
  "less_eq_field_exception_meta_ext e e' \<longleftrightarrow> fx_key e \<le> fx_key e'"

definition less_field_exception_meta_ext ::
  "'a field_exception_meta_scheme \<Rightarrow> 'a field_exception_meta_scheme \<Rightarrow> bool" where
  "less_field_exception_meta_ext e e' \<longleftrightarrow> fx_key e < fx_key e'"

instance
  by standard
    (auto simp: less_eq_field_exception_meta_ext_def less_field_exception_meta_ext_def less_le_not_le
      fx_key_inject [symmetric])

end

section \<open>The dictionary\<close>

text \<open>\<open>IndexSet\<close>: insertion order, no duplicates; \<open>insert_full\<close> returns the index of the entry.\<close>

definition index_of :: "'a list \<Rightarrow> 'a \<Rightarrow> nat option" where
  "index_of es e = (if e \<in> set es then Some (length (takeWhile (\<lambda>x. x \<noteq> e) es)) else None)"

definition insert_full :: "'a list \<Rightarrow> 'a \<Rightarrow> 'a list \<times> nat" where
  "insert_full es e = (case index_of es e of Some i \<Rightarrow> (es, i) | None \<Rightarrow> (es @ [e], length es))"

fun intern_all :: "'a list \<Rightarrow> 'a list \<Rightarrow> 'a list \<times> nat list" where
  "intern_all es [] = (es, [])"
| "intern_all es (x # xs) =
     (case insert_full es x of (es1, i) \<Rightarrow> case intern_all es1 xs of (es2, is) \<Rightarrow> (es2, i # is))"

definition index_all :: "'a list \<Rightarrow> nat list \<Rightarrow> 'a list option" where
  "index_all xs is = (if \<forall>i \<in> set is. i < length xs then Some (map (\<lambda>i. xs ! i) is) else None)"

record field_exceptions =
  fe_entries :: "field_exception_meta list"
  fe_securities :: "(string, nat list) btree"

definition fe_default :: field_exceptions where
  "fe_default = \<lparr>fe_entries = [], fe_securities = []\<rparr>"

definition fe_is_empty :: "field_exceptions \<Rightarrow> bool" where
  "fe_is_empty fe \<longleftrightarrow> fe_securities fe = []"

definition record_index :: "field_exceptions \<Rightarrow> string \<Rightarrow> nat \<Rightarrow> field_exceptions" where
  "record_index fe ticker i = fe\<lparr>fe_securities := bt_update ticker [] (\<lambda>is. is @ [i]) (fe_securities fe)\<rparr>"

definition fe_record :: "field_exceptions \<Rightarrow> string \<Rightarrow> field_exception_meta \<Rightarrow> field_exceptions" where
  "fe_record fe ticker e =
     (case insert_full (fe_entries fe) e of (es, i) \<Rightarrow> record_index (fe\<lparr>fe_entries := es\<rparr>) ticker i)"

text \<open>The borrowed exception is looked up first and owned only when it is new.\<close>

definition fe_record_ref :: "field_exceptions \<Rightarrow> string \<Rightarrow> field_exception_meta \<Rightarrow> field_exceptions" where
  "fe_record_ref fe ticker e =
     (case index_of (fe_entries fe) e of
        Some i \<Rightarrow> record_index fe ticker i
      | None \<Rightarrow> (case insert_full (fe_entries fe) e of (es, i) \<Rightarrow> record_index (fe\<lparr>fe_entries := es\<rparr>) ticker i))"

fun extend_securities ::
  "nat list \<Rightarrow> (string \<times> nat list) list \<Rightarrow> (string, nat list) btree \<Rightarrow> (string, nat list) btree option" where
  "extend_securities remap [] acc = Some acc"
| "extend_securities remap ((security, is) # rest) acc =
     (case index_all remap is of
        None \<Rightarrow> None
      | Some js \<Rightarrow> extend_securities remap rest (bt_update security [] (\<lambda>old. old @ js) acc))"

definition fe_extend :: "field_exceptions \<Rightarrow> field_exceptions \<Rightarrow> field_exceptions option" where
  "fe_extend fe other =
     (if fe_is_empty fe then Some other
      else case intern_all (fe_entries fe) (fe_entries other) of (es, remap) \<Rightarrow>
        map_option (\<lambda>ss. fe\<lparr>fe_entries := es, fe_securities := ss\<rparr>)
          (extend_securities remap (fe_securities other) (fe_securities fe)))"

definition for_security :: "field_exceptions \<Rightarrow> string \<Rightarrow> field_exception_meta list option" where
  "for_security fe ticker =
     (case map_of (fe_securities fe) ticker of
        None \<Rightarrow> Some []
      | Some is \<Rightarrow> index_all (fe_entries fe) is)"

text \<open>\<open>expanded\<close> and the map \<open>expanded_json\<close> serialises.\<close>

fun expand_all :: "field_exception_meta list \<Rightarrow> (string \<times> nat list) list \<Rightarrow>
    (string \<times> field_exception_meta list) list option" where
  "expand_all es [] = Some []"
| "expand_all es ((security, is) # rest) =
     (case index_all es is of
        None \<Rightarrow> None
      | Some xs \<Rightarrow> map_option (\<lambda>r. (security, xs) # r) (expand_all es rest))"

definition expanded :: "field_exceptions \<Rightarrow> (string, field_exception_meta list) btree option" where
  "expanded fe = expand_all (fe_entries fe) (fe_securities fe)"

section \<open>The serialised form\<close>

record envelope =
  en_version :: u32
  en_entries :: "field_exception_meta list"
  en_securities :: "(string, nat list) btree"

datatype encoded =
    Compact envelope
  | Legacy "(string, field_exception_meta list) btree"

fun legacy_securities ::
  "(string \<times> field_exception_meta list) list \<Rightarrow> field_exceptions \<Rightarrow> field_exceptions" where
  "legacy_securities [] fe = fe"
| "legacy_securities ((security, xs) # rest) fe =
     (case intern_all (fe_entries fe) xs of (es, is) \<Rightarrow>
        legacy_securities rest (fe\<lparr>fe_entries := es, fe_securities := bt_insert security is (fe_securities fe)\<rparr>))"

definition from_encoded :: "encoded \<Rightarrow> (field_exceptions, string) result" where
  "from_encoded encoded =
     (case encoded of
        Compact env \<Rightarrow>
          if en_version env \<noteq> 1 then Inl (''unsupported field-exception metadata version '' @ show_nat (unat (en_version env)))
          else if \<exists>(_, is) \<in> set (en_securities env). \<exists>i \<in> set is. i \<ge> length (en_entries env)
          then Inl ''field-exception dictionary index out of range''
          else (case intern_all [] (en_entries env) of (es, remap) \<Rightarrow>
            Inr \<lparr>fe_entries = es, fe_securities = map (\<lambda>(s, is). (s, map (\<lambda>i. remap ! i) is)) (en_securities env)\<rparr>)
      | Legacy securities \<Rightarrow>
          if map_of securities ''entries'' \<noteq> None \<and> map_of securities ''securities'' \<noteq> None
          then Inl ''malformed field-exception dictionary envelope: missing field `version`''
          else Inr (legacy_securities securities fe_default))"

text \<open>\<open>to_json\<close>: \<open>order\<close> are the entries by their derived order, \<open>remap\<close> its inverse.\<close>

definition canonical_order :: "field_exception_meta list \<Rightarrow> nat list" where
  "canonical_order es = sort_key (\<lambda>i. es ! i) [0..<length es]"

definition canonical_remap :: "nat list \<Rightarrow> nat list" where
  "canonical_remap order =
     fold (\<lambda>(canonical, original) remap. remap[original := canonical]) (enumerate 0 order)
       (replicate (length order) 0)"

fun remap_securities :: "nat list \<Rightarrow> (string \<times> nat list) list \<Rightarrow> (string \<times> nat list) list option" where
  "remap_securities remap [] = Some []"
| "remap_securities remap ((security, is) # rest) =
     (case index_all remap is of
        None \<Rightarrow> None
      | Some js \<Rightarrow> map_option (\<lambda>r. (security, js) # r) (remap_securities remap rest))"

definition to_envelope :: "field_exceptions \<Rightarrow> envelope option" where
  "to_envelope fe =
     (let order = canonical_order (fe_entries fe); remap = canonical_remap order in
      map_option (\<lambda>ss. \<lparr>en_version = 1, en_entries = map (\<lambda>i. fe_entries fe ! i) order, en_securities = ss\<rparr>)
        (remap_securities remap (fe_securities fe)))"

section \<open>Lemmas on the dictionary\<close>

lemma takeWhile_index:
  assumes "e \<in> set es"
  shows "length (takeWhile (\<lambda>x. x \<noteq> e) es) < length es" "es ! length (takeWhile (\<lambda>x. x \<noteq> e) es) = e"
proof -
  show l: "length (takeWhile (\<lambda>x. x \<noteq> e) es) < length es"
    using assms by (induction es) auto
  show "es ! length (takeWhile (\<lambda>x. x \<noteq> e) es) = e"
    using nth_length_takeWhile [OF l] by simp
qed

lemma insert_full_props:
  assumes "insert_full es e = (es', i)"
  shows "i < length es'" "es' ! i = e" "\<exists>new. es' = es @ new" "set es' = insert e (set es)"
    "distinct es \<Longrightarrow> distinct es'"
  using assms takeWhile_index [of e es]
  by (auto simp: insert_full_def index_of_def split: if_splits)

lemma intern_all_conj:
  assumes "intern_all es xs = (es', is)"
  shows "length is = length xs \<and> (\<forall>i \<in> set is. i < length es') \<and> map (\<lambda>i. es' ! i) is = xs \<and>
    (\<exists>new. es' = es @ new) \<and> set es' = set es \<union> set xs \<and> (distinct es \<longrightarrow> distinct es')"
  using assms
proof (induction xs arbitrary: es "is")
  case (Cons x xs)
  obtain es1 i where 1: "insert_full es x = (es1, i)" by fastforce
  obtain js where js: "intern_all es1 xs = (es', js)" "is = i # js" using Cons.prems 1 by (auto split: prod.splits)
  note I = insert_full_props [OF 1] and IH = Cons.IH [OF js(1)]
  obtain a b where ab: "es1 = es @ a" "es' = es1 @ b" using I(3) IH by blast
  moreover have "distinct es \<longrightarrow> distinct es'" using I(5) IH by blast
  moreover have "set es' = set es \<union> set (x # xs)" using I(4) IH by auto
  moreover have "\<forall>i \<in> set is. i < length es'" using IH I(1) ab(2) js(2) by auto
  moreover have "es' ! i = x" using I(1,2) ab(2) by (simp add: nth_append)
  then have "map (\<lambda>i. es' ! i) is = x # xs" using IH js(2) by simp
  ultimately show ?case using IH js(2) by simp
qed auto

lemma intern_all_props:
  assumes "intern_all es xs = (es', is)"
  shows "length is = length xs" "\<forall>i \<in> set is. i < length es'" "map (\<lambda>i. es' ! i) is = xs"
    "\<exists>new. es' = es @ new" "set es' = set es \<union> set xs" "distinct es \<Longrightarrow> distinct es'"
  using intern_all_conj [OF assms] by blast+

lemma index_all_Some: "index_all xs is = Some ys \<longleftrightarrow> (\<forall>i \<in> set is. i < length xs) \<and> ys = map (\<lambda>i. xs ! i) is"
  by (auto simp: index_all_def)

lemma index_all_mono:
  "index_all xs is = Some ys \<Longrightarrow> index_all (xs @ new) is = Some ys"
  by (auto simp: index_all_Some nth_append)

lemma index_all_append:
  "index_all xs (is @ js) =
     (case index_all xs is of None \<Rightarrow> None | Some a \<Rightarrow> map_option (\<lambda>b. a @ b) (index_all xs js))"
  by (auto simp: index_all_def split: option.split)

lemma index_all_remap:
  assumes "index_all xs is = Some ys" "length r = length xs" "map (\<lambda>i. zs ! i) r = xs" "\<forall>i \<in> set r. i < length zs"
  shows "\<exists>js. index_all r is = Some js \<and> index_all zs js = Some ys"
proof -
  have i: "\<forall>i \<in> set is. i < length r" and ys: "ys = map (\<lambda>i. xs ! i) is"
    using assms(1,2) by (simp_all add: index_all_Some)
  have "zs ! (r ! i) = xs ! i" if "i < length r" for i using assms(3) nth_map [OF that, of "\<lambda>i. zs ! i"] by simp
  then have "index_all zs (map (\<lambda>i. r ! i) is) = Some ys"
    using i ys assms(4) by (simp add: index_all_Some)
  then show ?thesis using i by (auto simp: index_all_Some)
qed

section \<open>Well-formed dictionaries\<close>

text \<open>The occurrences of a security, as a client reads them.\<close>

definition fe_view :: "field_exceptions \<Rightarrow> string \<Rightarrow> field_exception_meta list" where
  "fe_view fe ticker = (case for_security fe ticker of None \<Rightarrow> [] | Some xs \<Rightarrow> xs)"

definition fe_wf :: "field_exceptions \<Rightarrow> bool" where
  "fe_wf fe \<longleftrightarrow> distinct (fe_entries fe) \<and> bt_wf (fe_securities fe) \<and>
     (\<forall>(_, is) \<in> set (fe_securities fe). \<forall>i \<in> set is. i < length (fe_entries fe))"

lemma fe_wf_default [simp]: "fe_wf fe_default"
  by (simp add: fe_wf_def fe_default_def)

lemma map_of_bt: "bt_wf t \<Longrightarrow> map_of t k = Some v \<longleftrightarrow> (k, v) \<in> set t"
  by (simp add: bt_wf_def)

lemma fe_wf_alt:
  "fe_wf fe \<longleftrightarrow> distinct (fe_entries fe) \<and> bt_wf (fe_securities fe) \<and>
     (\<forall>s is. map_of (fe_securities fe) s = Some is \<longrightarrow> (\<forall>i \<in> set is. i < length (fe_entries fe)))"
  by (fastforce simp: fe_wf_def map_of_bt)

lemma for_security_wf:
  assumes "fe_wf fe"
  shows "for_security fe ticker = Some (fe_view fe ticker)"
  using assms by (auto simp: fe_wf_alt for_security_def fe_view_def index_all_def split: option.split)

text \<open>Adding occurrences to one security.\<close>

lemma fe_append:
  assumes wf: "fe_wf fe" and es: "es = fe_entries fe @ new" "distinct es" and js: "index_all es js = Some xs"
    and fe'_def: "fe' = fe\<lparr>fe_entries := es, fe_securities := bt_update ticker [] (\<lambda>old. old @ js) (fe_securities fe)\<rparr>"
  shows "fe_wf fe'" "fe_view fe' s = (if s = ticker then fe_view fe s @ xs else fe_view fe s)"
proof -
  have b: "bt_wf (fe_securities fe)" using wf by (simp add: fe_wf_def)
  have m: "map_of (fe_securities fe') = (map_of (fe_securities fe))(ticker \<mapsto>
      (case map_of (fe_securities fe) ticker of None \<Rightarrow> [] | Some v \<Rightarrow> v) @ js)"
    using b by (simp add: fe'_def)
  show w: "fe_wf fe'"
    unfolding fe_wf_alt
  proof (intro conjI allI impI)
    show "distinct (fe_entries fe')" "bt_wf (fe_securities fe')" using es b by (simp_all add: fe'_def)
    have old: "map_of (fe_securities fe) s = Some is \<Longrightarrow> \<forall>i \<in> set is. i < length es" for s "is"
      using wf es by (fastforce simp: fe_wf_alt)
    have new: "\<forall>i \<in> set js. i < length es" using js by (simp add: index_all_Some)
    show "\<forall>i \<in> set is. i < length (fe_entries fe')" if "map_of (fe_securities fe') s = Some is" for s "is"
      using that old new unfolding m by (auto simp: fe'_def split: if_splits option.splits)
  qed
  have o: "index_all es (case map_of (fe_securities fe) s of None \<Rightarrow> [] | Some is \<Rightarrow> is) = Some (fe_view fe s)" for s
    using for_security_wf [OF wf, of s] es(1)
    by (auto simp: for_security_def index_all_Some nth_append split: option.split_asm)
  have e: "fe_entries fe' = es" by (simp add: fe'_def)
  have "for_security fe' s = Some (if s = ticker then fe_view fe s @ xs else fe_view fe s)"
  proof (cases "s = ticker")
    case True
    then show ?thesis using o [of ticker] js by (simp add: for_security_def m e index_all_append)
  next
    case False
    then show ?thesis using o [of s] by (auto simp: for_security_def m e index_all_Some split: option.splits)
  qed
  then show "fe_view fe' s = (if s = ticker then fe_view fe s @ xs else fe_view fe s)"
    by (simp add: fe_view_def)
qed

lemma fe_record_props:
  assumes "fe_wf fe"
  shows "fe_wf (fe_record fe ticker e)"
    "fe_view (fe_record fe ticker e) s = (if s = ticker then fe_view fe s @ [e] else fe_view fe s)"
proof -
  obtain es i where 1: "insert_full (fe_entries fe) e = (es, i)" by fastforce
  note I = insert_full_props [OF 1]
  obtain new where new: "es = fe_entries fe @ new" using I(3) by blast
  have r: "fe_record fe ticker e =
      fe\<lparr>fe_entries := es, fe_securities := bt_update ticker [] (\<lambda>old. old @ [i]) (fe_securities fe)\<rparr>"
    by (simp add: fe_record_def 1 record_index_def)
  have d: "distinct es" using assms I(5) by (simp add: fe_wf_def)
  have x: "index_all es [i] = Some [e]" using I(1,2) by (simp add: index_all_Some)
  show "fe_wf (fe_record fe ticker e)"
    "fe_view (fe_record fe ticker e) s = (if s = ticker then fe_view fe s @ [e] else fe_view fe s)"
    using fe_append [OF assms new d x r] by blast+
qed

lemma fe_record_ref_eq: "fe_record_ref fe ticker e = fe_record fe ticker e"
  by (simp add: fe_record_ref_def fe_record_def insert_full_def record_index_def split: option.split)

lemma extend_securities_props:
  assumes "fe_wf fe" "index_all zs ` snd ` set rest \<subseteq> range Some" "length r = length zs"
    "map (\<lambda>i. fe_entries fe ! i) r = zs" "\<forall>i \<in> set r. i < length (fe_entries fe)" "distinct (map fst rest)"
  shows "\<exists>ss. extend_securities r rest (fe_securities fe) = Some ss \<and> fe_wf (fe\<lparr>fe_securities := ss\<rparr>) \<and>
    (\<forall>s. fe_view (fe\<lparr>fe_securities := ss\<rparr>) s =
       fe_view fe s @ (case map_of rest s of None \<Rightarrow> [] | Some is \<Rightarrow> map (\<lambda>i. zs ! i) is)) \<and>
    (fe_securities fe \<noteq> [] \<longrightarrow> ss \<noteq> [])"
  using assms
proof (induction rest arbitrary: fe)
  case Nil
  then show ?case by simp
next
  case (Cons e rest)
  obtain security "is" where e: "e = (security, is)" by (cases e)
  obtain ys where ys: "index_all zs is = Some ys" using Cons.prems(2) e by auto
  then obtain js where js: "index_all r is = Some js" "index_all (fe_entries fe) js = Some ys"
    using index_all_remap [OF ys Cons.prems(3-5)] by blast
  let ?fe = "fe\<lparr>fe_securities := bt_update security [] (\<lambda>old. old @ js) (fe_securities fe)\<rparr>"
  have d: "distinct (fe_entries fe)" using Cons.prems(1) by (simp add: fe_wf_def)
  have A: "fe_wf ?fe" "fe_view ?fe s = (if s = security then fe_view fe s @ ys else fe_view fe s)" for s
    using fe_append [OF Cons.prems(1) _ d js(2), of "[]" ?fe security] by simp_all
  have "\<exists>ss. extend_securities r rest (fe_securities ?fe) = Some ss \<and> fe_wf (?fe\<lparr>fe_securities := ss\<rparr>) \<and>
    (\<forall>s. fe_view (?fe\<lparr>fe_securities := ss\<rparr>) s =
       fe_view ?fe s @ (case map_of rest s of None \<Rightarrow> [] | Some is \<Rightarrow> map (\<lambda>i. zs ! i) is)) \<and>
    (fe_securities ?fe \<noteq> [] \<longrightarrow> ss \<noteq> [])"
    by (rule Cons.IH [OF A(1)]) (use Cons.prems e in auto)
  then obtain ss where ss: "extend_securities r rest (fe_securities ?fe) = Some ss"
    "fe_wf (fe\<lparr>fe_securities := ss\<rparr>)" "ss \<noteq> []"
    "\<And>s. fe_view (fe\<lparr>fe_securities := ss\<rparr>) s =
       fe_view ?fe s @ (case map_of rest s of None \<Rightarrow> [] | Some is \<Rightarrow> map (\<lambda>i. zs ! i) is)"
    by (auto simp: bt_update_def)
  have n: "map_of rest security = None" using Cons.prems(6) e by (simp add: map_of_eq_None_iff)
  have "extend_securities r (e # rest) (fe_securities fe) = Some ss"
    using ss(1) js(1) by (simp add: e)
  moreover have "fe_view (fe\<lparr>fe_securities := ss\<rparr>) s =
       fe_view fe s @ (case map_of (e # rest) s of None \<Rightarrow> [] | Some is \<Rightarrow> map (\<lambda>i. zs ! i) is)" for s
    using ss(4) [of s] A(2) [of s] ys n by (auto simp: e index_all_Some)
  ultimately show ?case using ss(2,3) by blast
qed

lemma fe_view_map_of:
  assumes "fe_wf fe"
  shows "fe_view fe s = (case map_of (fe_securities fe) s of None \<Rightarrow> [] | Some is \<Rightarrow> map (\<lambda>i. fe_entries fe ! i) is)"
  using for_security_wf [OF assms, of s] by (auto simp: for_security_def index_all_Some split: option.splits)

lemma fe_extend_props:
  assumes "fe_wf fe" "fe_wf other"
  shows "\<exists>fe'. fe_extend fe other = Some fe' \<and> fe_wf fe' \<and> (\<forall>s. fe_view fe' s = fe_view fe s @ fe_view other s)"
proof (cases "fe_is_empty fe")
  case True
  then have "fe_view fe s = []" for s by (simp add: fe_is_empty_def fe_view_def for_security_def)
  then show ?thesis using True assms(2) by (simp add: fe_extend_def)
next
  case False
  obtain es r where 1: "intern_all (fe_entries fe) (fe_entries other) = (es, r)" by fastforce
  note I = intern_all_props [OF 1]
  obtain new where new: "es = fe_entries fe @ new" using I(4) by blast
  let ?fe = "fe\<lparr>fe_entries := es\<rparr>"
  have d: "distinct es" using I(6) assms(1) by (simp add: fe_wf_def)
  have w: "fe_wf ?fe" using assms(1) d by (fastforce simp: fe_wf_def new)
  have v: "fe_view ?fe s = fe_view fe s" for s
    using assms(1) unfolding fe_view_map_of [OF w] fe_view_map_of [OF assms(1)]
    by (auto simp: new nth_append fe_wf_alt split: option.split)
  have "\<exists>ss. extend_securities r (fe_securities other) (fe_securities ?fe) = Some ss \<and>
    fe_wf (?fe\<lparr>fe_securities := ss\<rparr>) \<and>
    (\<forall>s. fe_view (?fe\<lparr>fe_securities := ss\<rparr>) s = fe_view ?fe s @
      (case map_of (fe_securities other) s of None \<Rightarrow> [] | Some is \<Rightarrow> map (\<lambda>i. fe_entries other ! i) is)) \<and>
    (fe_securities ?fe \<noteq> [] \<longrightarrow> ss \<noteq> [])"
    by (rule extend_securities_props [OF w])
      (use assms(2) I in \<open>auto simp: fe_wf_def bt_wf_def index_all_def image_iff\<close>)
  then show ?thesis
    using False 1 v by (auto simp: fe_extend_def fe_view_map_of [OF assms(2)])
qed

section \<open>The canonical envelope\<close>

lemma expanded_wf:
  assumes "fe_wf fe"
  shows "expanded fe = Some (map (\<lambda>(s, is). (s, map (\<lambda>i. fe_entries fe ! i) is)) (fe_securities fe))"
proof -
  have "expand_all es ss = Some (map (\<lambda>(s, is). (s, map (\<lambda>i. es ! i) is)) ss)"
    if "\<forall>(_, is) \<in> set ss. \<forall>i \<in> set is. i < length es" for es ss
    using that by (induction es ss rule: expand_all.induct) (auto simp: index_all_def)
  then show ?thesis using assms by (simp add: expanded_def fe_wf_def)
qed

lemma remap_securities_wf:
  assumes "\<forall>(_, is) \<in> set ss. \<forall>i \<in> set is. i < length r"
  shows "remap_securities r ss = Some (map (\<lambda>(s, is). (s, map (\<lambda>i. r ! i) is)) ss)"
  using assms by (induction r ss rule: remap_securities.induct) (auto simp: index_all_def)

lemma canonical_order_props:
  shows "set (canonical_order es) = {..<length es}" "distinct (canonical_order es)"
    "length (canonical_order es) = length es" "map (\<lambda>i. es ! i) (canonical_order es) = sort es"
proof -
  show "map (\<lambda>i. es ! i) (canonical_order es) = sort es"
    unfolding canonical_order_def
  proof (rule properties_for_sort [symmetric])
    show "mset (map (\<lambda>i. es ! i) (sort_key (\<lambda>i. es ! i) [0..<length es])) = mset es"
      by (metis map_nth mset_map mset_sort)
  qed simp
qed (auto simp: canonical_order_def atLeast0LessThan)

lemma remap_fold:
  assumes "distinct order" "set order \<subseteq> {..<length acc}"
  shows "fold (\<lambda>(c, original) r. r[original := c]) (enumerate k order) acc =
    map (\<lambda>i. case index_of order i of None \<Rightarrow> acc ! i | Some j \<Rightarrow> k + j) [0..<length acc]"
  using assms
proof (induction order arbitrary: k acc)
  case Nil
  then show ?case by (simp add: index_of_def map_nth)
next
  case (Cons x order)
  have "fold (\<lambda>(c, original) r. r[original := c]) (enumerate k (x # order)) acc =
    map (\<lambda>i. case index_of order i of None \<Rightarrow> acc[x := k] ! i | Some j \<Rightarrow> Suc k + j) [0..<length acc]"
    using Cons.IH [of "acc[x := k]" "Suc k"] Cons.prems by simp
  also have "\<dots> = map (\<lambda>i. case index_of (x # order) i of None \<Rightarrow> acc ! i | Some j \<Rightarrow> k + j) [0..<length acc]"
    using Cons.prems by (auto simp: index_of_def nth_list_update)
  finally show ?case .
qed

lemma canonical_remap_props:
  assumes "order = canonical_order es" "r = canonical_remap order"
  shows "length r = length es" "i < length es \<Longrightarrow> r ! i < length es \<and> order ! (r ! i) = i"
proof -
  note c = canonical_order_props [of es, folded assms(1)]
  have r: "r = map (\<lambda>i. case index_of order i of None \<Rightarrow> replicate (length order) 0 ! i | Some j \<Rightarrow> 0 + j) [0..<length es]"
    unfolding assms(2) canonical_remap_def using remap_fold [of order "replicate (length order) 0" 0] c by simp
  then show "length r = length es" by simp
  show "r ! i < length es \<and> order ! (r ! i) = i" if "i < length es"
    using that takeWhile_index [of i order] c(1,3) by (simp add: r index_of_def)
qed

lemma to_envelope_wf:
  assumes "fe_wf fe"
  shows "\<exists>r. to_envelope fe = Some \<lparr>en_version = 1, en_entries = sort (fe_entries fe),
      en_securities = map (\<lambda>(s, is). (s, map (\<lambda>i. r ! i) is)) (fe_securities fe)\<rparr> \<and>
    (\<forall>i < length (fe_entries fe). r ! i < length (fe_entries fe) \<and> sort (fe_entries fe) ! (r ! i) = fe_entries fe ! i)"
proof -
  let ?es = "fe_entries fe"
  let ?order = "canonical_order ?es" let ?r = "canonical_remap ?order"
  note c = canonical_order_props [of ?es] and r = canonical_remap_props [of ?order ?es ?r, OF refl refl]
  have "remap_securities ?r (fe_securities fe) = Some (map (\<lambda>(s, is). (s, map (\<lambda>i. ?r ! i) is)) (fe_securities fe))"
    by (rule remap_securities_wf) (use assms r(1) in \<open>simp add: fe_wf_def\<close>)
  moreover have "sort ?es ! (?r ! i) = ?es ! i" if "i < length ?es" for i
    using r(2) [OF that] c(3) by (simp flip: c(4))
  ultimately show ?thesis using c(4) r(2) by (auto simp: to_envelope_def Let_def intro!: exI [of _ ?r])
qed

lemma intern_all_distinct:
  assumes "distinct (es @ xs)"
  shows "intern_all es xs = (es @ xs, [length es..<length es + length xs])"
  using assms
proof (induction xs arbitrary: es)
  case (Cons x xs)
  then have "insert_full es x = (es @ [x], length es)" by (simp add: insert_full_def index_of_def)
  with Cons.IH [of "es @ [x]"] Cons.prems show ?case by (simp add: upt_rec)
qed simp

lemma from_envelope_wf:
  assumes "distinct es" "bt_wf ss" "\<forall>(_, is) \<in> set ss. \<forall>i \<in> set is. i < length es"
  shows "from_encoded (Compact \<lparr>en_version = 1, en_entries = es, en_securities = ss\<rparr>) =
    Inr \<lparr>fe_entries = es, fe_securities = ss\<rparr>"
proof -
  have "map (\<lambda>(s, is). (s, map (\<lambda>i. [0..<length es] ! i) is)) ss = ss"
    using assms(3) by (intro map_idI) (fastforce intro!: map_idI)
  moreover have "\<not> (\<exists>(_, is) \<in> set ss. \<exists>i \<in> set is. i \<ge> length es)" using assms(3) by fastforce
  ultimately show ?thesis
    using intern_all_distinct [of "[]" es] assms(1) by (simp add: from_encoded_def)
qed

text \<open>The remapped occurrences are determined by the expanded form: indices into a list without
  duplicates.\<close>

lemma securities_determined:
  assumes "distinct es"
    "map (\<lambda>(s, is). (s, map (\<lambda>i. es2 ! i) is)) ss2 = map (\<lambda>(s, is). (s, map (\<lambda>i. es1 ! i) is)) ss1"
    "\<forall>(_, is) \<in> set ss1. \<forall>i \<in> set is. i < length es1" "\<forall>(_, is) \<in> set ss2. \<forall>i \<in> set is. i < length es2"
    "\<And>i. i < length es1 \<Longrightarrow> r1 ! i < length es \<and> es ! (r1 ! i) = es1 ! i"
    "\<And>i. i < length es2 \<Longrightarrow> r2 ! i < length es \<and> es ! (r2 ! i) = es2 ! i"
  shows "map (\<lambda>(s, is). (s, map (\<lambda>i. r2 ! i) is)) ss2 = map (\<lambda>(s, is). (s, map (\<lambda>i. r1 ! i) is)) ss1"
proof -
  have one: "map (\<lambda>i. r2 ! i) is2 = map (\<lambda>i. r1 ! i) is1"
    if "map (\<lambda>i. es2 ! i) is2 = map (\<lambda>i. es1 ! i) is1" "\<forall>i \<in> set is1. i < length es1" "\<forall>i \<in> set is2. i < length es2"
    for is1 is2
    using that
  proof (induction is2 is1 rule: list_induct2')
    case (4 x xs y ys)
    then have "r2 ! x = r1 ! y"
      using assms(5) [of y] assms(6) [of x] nth_eq_iff_index_eq [OF assms(1), of "r2 ! x" "r1 ! y"] by simp
    with 4 show ?case by simp
  qed simp_all
  show ?thesis
    using assms(2-4)
  proof (induction ss2 ss1 rule: list_induct2')
    case (4 x xs y ys)
    then show ?case using one [of "snd x" "snd y"] by (cases x; cases y) simp
  qed simp_all
qed

section \<open>Properties\<close>

text \<open>C35: The dictionary of field exceptions implements a map from securities to their exceptions in
  order of occurrence. Recording (by value or by reference) appends one occurrence to its
  security, merging appends the other map's occurrences security by security, and no operation
  on a well-formed dictionary indexes out of range.\<close>

theorem field_exceptions_refine:
  assumes "fe_wf fe" "fe_wf other"
  shows "fe_wf (fe_record fe ticker e) \<and> fe_record_ref fe ticker e = fe_record fe ticker e \<and>
    for_security (fe_record fe ticker e) s = Some (fe_view fe s @ (if s = ticker then [e] else [])) \<and>
    (\<exists>fe'. fe_extend fe other = Some fe' \<and> fe_wf fe' \<and> for_security fe' s = Some (fe_view fe s @ fe_view other s))"
proof -
  obtain fe' where "fe_extend fe other = Some fe'" "fe_wf fe'" "fe_view fe' s = fe_view fe s @ fe_view other s"
    using fe_extend_props [OF assms] by blast
  then show ?thesis
    using fe_record_props [OF assms(1), of ticker e] for_security_wf [of "fe_record fe ticker e" s]
      for_security_wf [of fe' s]
    by (simp add: fe_record_ref_eq)
qed

definition sample_exception :: "string \<Rightarrow> field_exception_meta" where
  "sample_exception f = \<lparr>fx_field = f, fx_category = ''BAD_FLD'', fx_code = 9, fx_subcategory = [], fx_message = []\<rparr>"

definition sample_exceptions :: field_exceptions where
  "sample_exceptions = \<lparr>fe_entries = [sample_exception ''B'', sample_exception ''A''],
     fe_securities = [(''IBM'', [0, 1, 0])]\<rparr>"

lemma sample_exceptions_wf: "fe_wf sample_exceptions"
  by (simp add: fe_wf_def sample_exceptions_def sample_exception_def bt_wf_def)

theorem field_exceptions_refine_witness:
  "fe_wf (fe_record sample_exceptions ''IBM'' (sample_exception ''C'')) \<and>
   (\<exists>fe'. fe_extend sample_exceptions sample_exceptions = Some fe' \<and> fe_wf fe')"
  using field_exceptions_refine [OF sample_exceptions_wf sample_exceptions_wf] by blast

text \<open>C36: Serialising the diagnostics never fails, decoding the envelope gives back every
  security's exceptions in order and with duplicates, and the envelope does not depend on the
  order in which the dictionary was filled.\<close>

theorem field_exceptions_roundtrip:
  assumes "fe_wf fe" "fe_wf fe2" "expanded fe2 = expanded fe" "set (fe_entries fe2) = set (fe_entries fe)"
  shows "\<exists>env fe'. to_envelope fe = Some env \<and> to_envelope fe2 = Some env \<and>
    from_encoded (Compact env) = Inr fe' \<and> fe_wf fe' \<and> expanded fe' = expanded fe"
proof -
  let ?es = "sort (fe_entries fe)"
  have es2: "sort (fe_entries fe2) = ?es"
    using assms(1,2,4) by (intro sorted_distinct_set_unique) (simp_all add: fe_wf_def)
  have d: "distinct ?es" using assms(1) by (simp add: fe_wf_def)
  obtain r where r: "to_envelope fe = Some \<lparr>en_version = 1, en_entries = ?es,
        en_securities = map (\<lambda>(s, is). (s, map (\<lambda>i. r ! i) is)) (fe_securities fe)\<rparr>"
      "\<And>i. i < length (fe_entries fe) \<Longrightarrow> r ! i < length ?es \<and> ?es ! (r ! i) = fe_entries fe ! i"
    using to_envelope_wf [OF assms(1)] by auto
  obtain r2 where r2: "to_envelope fe2 = Some \<lparr>en_version = 1, en_entries = ?es,
        en_securities = map (\<lambda>(s, is). (s, map (\<lambda>i. r2 ! i) is)) (fe_securities fe2)\<rparr>"
      "\<And>i. i < length (fe_entries fe2) \<Longrightarrow> r2 ! i < length ?es \<and> ?es ! (r2 ! i) = fe_entries fe2 ! i"
    using to_envelope_wf [OF assms(2)] es2 by auto (metis length_sort)
  let ?ss = "map (\<lambda>(s, is). (s, map (\<lambda>i. r ! i) is)) (fe_securities fe)"
  let ?ss2 = "map (\<lambda>(s, is). (s, map (\<lambda>i. r2 ! i) is)) (fe_securities fe2)"
  have b: "\<forall>(_, is) \<in> set (fe_securities fe). \<forall>i \<in> set is. i < length (fe_entries fe)"
    "\<forall>(_, is) \<in> set (fe_securities fe2). \<forall>i \<in> set is. i < length (fe_entries fe2)"
    using assms(1,2) unfolding fe_wf_def by blast+
  have same: "?ss2 = ?ss"
  proof (rule securities_determined [OF d _ b(1,2) r(2) r2(2)])
    show "map (\<lambda>(s, is). (s, map (\<lambda>i. fe_entries fe2 ! i) is)) (fe_securities fe2) =
        map (\<lambda>(s, is). (s, map (\<lambda>i. fe_entries fe ! i) is)) (fe_securities fe)"
      using assms(3) unfolding expanded_wf [OF assms(1)] expanded_wf [OF assms(2)] by simp
  qed
  have f: "from_encoded (Compact \<lparr>en_version = 1, en_entries = ?es, en_securities = ?ss\<rparr>) =
      Inr \<lparr>fe_entries = ?es, fe_securities = ?ss\<rparr>"
    by (rule from_envelope_wf [OF d]) (use assms(1) r(2) in \<open>fastforce simp: fe_wf_def\<close>)+
  have w: "fe_wf \<lparr>fe_entries = ?es, fe_securities = ?ss\<rparr>"
    using assms(1) d r(2) by (fastforce simp: fe_wf_def)
  have "expanded \<lparr>fe_entries = ?es, fe_securities = ?ss\<rparr> = expanded fe"
    using assms(1) r(2) unfolding expanded_wf [OF w] expanded_wf [OF assms(1)]
    by (fastforce simp: fe_wf_def)
  then show ?thesis using r(1) r2(1) same f w by metis
qed

theorem field_exceptions_roundtrip_witness:
  "\<exists>env fe'. to_envelope sample_exceptions = Some env \<and> from_encoded (Compact env) = Inr fe' \<and>
     expanded fe' = expanded sample_exceptions"
  using field_exceptions_roundtrip [OF sample_exceptions_wf sample_exceptions_wf] by blast

end
