(* ===== verification/Response_Metadata.thy ===== *)
theory Response_Metadata
  imports Diagnostics Errors
begin

text \<open>
  The diagnostics a response carries in the schema metadata of its record batch
  (\<open>engine/state/value_utils.rs\<close>): the SDK request identifiers, entitlement ids, security errors,
  field exceptions, delay status and conversion misses, their union over several batches and
  how they are attached.

  A record batch is Arrow's: its fields, its columns with their nullable values, and the string
  map of metadata. JSON is written and read by serde_json, which is a parameter: \<open>'j\<close> is the type
  of metadata texts and a \<open>codec\<close> holds the encoders and decoders of the values that are stored.
\<close>

section \<open>Record batches\<close>

datatype time_unit = Second | Millisecond | Microsecond | Nanosecond

text \<open>The Arrow types the engine distinguishes; any other one is named by its \<open>Debug\<close> text.\<close>

datatype data_type =
    Utf8 | Float64Type | Int64Type | Int32Type | BooleanType | Date32Type
  | TimestampType time_unit "string option" | Time64Type time_unit | OtherType string

record field =
  fd_name :: string
  fd_type :: data_type
  fd_nullable :: bool

record 'v column =
  col_type :: data_type
  col_values :: "'v option list"

record ('v, 'j) record_batch =
  rb_fields :: "field list"
  rb_metadata :: "string \<Rightarrow> 'j option"
  rb_columns :: "'v column list"
  rb_rows :: nat

section \<open>Values and codecs\<close>

record delayed_meta =
  dm_delayed :: bool
  dm_minutes :: "u32 option"

record security_error_meta =
  se_category :: string
  se_code :: int
  se_subcategory :: string
  se_message :: string

record ('a, 'j) json =
  enc :: "'a \<Rightarrow> 'j option" \<comment> \<open>\<open>serde_json::to_string\<close>\<close>
  dec :: "'j \<Rightarrow> 'a option" \<comment> \<open>\<open>serde_json::from_str\<close>\<close>

text \<open>A JSON object is decoded member by member into a \<open>BTreeMap\<close>.\<close>

record 'j codec =
  cd_text :: "string \<Rightarrow> 'j"
  cd_string :: "'j \<Rightarrow> string"
  cd_ids :: "(string list, 'j) json"
  cd_eids :: "((string \<times> int list) list, 'j) json"
  cd_errors :: "((string \<times> security_error_meta) list, 'j) json"
  cd_delayed :: "((string \<times> delayed_meta) list, 'j) json"
  cd_misses :: "((string \<times> u64) list, 'j) json"
  cd_envelope :: "envelope \<Rightarrow> 'j"
  cd_encoded :: "'j \<Rightarrow> (encoded, string) result"

definition key_eid_data :: string where "key_eid_data = ''xbbg.eid_data''"
definition key_security_errors :: string where "key_security_errors = ''xbbg.security_errors''"
definition key_delayed :: string where "key_delayed = ''xbbg.delayed''"
definition key_type_misses :: string where "key_type_misses = ''xbbg.type_misses''"
definition key_request_id :: string where "key_request_id = ''xbbg.bloomberg_request_id''"
definition key_request_ids :: string where "key_request_ids = ''xbbg.bloomberg_request_ids''"
definition key_field_exceptions :: string where "key_field_exceptions = ''xbbg.field_exceptions''"

lemmas metadata_keys = key_eid_data_def key_security_errors_def key_delayed_def key_type_misses_def
  key_request_id_def key_request_ids_def key_field_exceptions_def

definition parse_json :: "('a, 'j) json \<Rightarrow> 'j option \<Rightarrow> 'a option" where
  "parse_json c v = Option.bind v (dec c)"

definition parse_map :: "((string \<times> 'a) list, 'j) json \<Rightarrow> 'j option \<Rightarrow> (string, 'a) btree option" where
  "parse_map c v = map_option (bt_extend []) (parse_json c v)"

section \<open>SDK request identifiers\<close>

text \<open>The identifiers are kept sorted and unique; \<open>binary_search\<close> on such a list finds the
  identifier or the place where it is inserted.\<close>

definition ids_extend :: "string list \<Rightarrow> string list \<Rightarrow> string list" where
  "ids_extend ids new = fold insort_insert new ids"

definition ids_collect :: "'j codec \<Rightarrow> ('v, 'j) record_batch \<Rightarrow> string list \<Rightarrow> string list" where
  "ids_collect c batch ids =
     (let ids1 = (case rb_metadata batch key_request_id of
                    None \<Rightarrow> ids | Some t \<Rightarrow> insort_insert (cd_string c t) ids)
      in case parse_json (cd_ids c) (rb_metadata batch key_request_ids) of
           None \<Rightarrow> ids1
         | Some vs \<Rightarrow> ids_extend ids1 vs)"

text \<open>A list of strings always serialises (\<open>expect\<close>); \<open>None\<close> is that panic.\<close>

definition ids_attach_metadata ::
  "'j codec \<Rightarrow> string list \<Rightarrow> (string \<Rightarrow> 'j option) \<Rightarrow> (string \<Rightarrow> 'j option) option" where
  "ids_attach_metadata c ids m =
     (if ids = [] then Some m
      else
        (let m1 = m(key_request_id := None, key_request_ids := None) in
         case ids of
           [i] \<Rightarrow> Some (m1(key_request_id := Some (cd_text c i)))
         | _ \<Rightarrow> map_option (\<lambda>j. m1(key_request_ids := Some j)) (enc (cd_ids c) ids)))"

definition ids_attach :: "'j codec \<Rightarrow> string list \<Rightarrow> ('v, 'j) record_batch \<Rightarrow> ('v, 'j) record_batch option" where
  "ids_attach c ids batch =
     (if ids = [] then Some batch
      else map_option (\<lambda>m. batch\<lparr>rb_metadata := m\<rparr>)
             (ids_attach_metadata c (ids_collect c batch ids) (rb_metadata batch)))"

section \<open>Response metadata\<close>

record response_metadata =
  rm_eid_data :: "(string, int list) btree"
  rm_security_errors :: "(string, security_error_meta) btree"
  rm_field_exceptions :: field_exceptions
  rm_delayed :: "(string, delayed_meta) btree"
  rm_type_misses :: "(string, u64) btree"
  rm_ids :: "string list"
  rm_capture_delayed :: bool
  rm_hidden_fields :: "string list"

definition rm_default :: response_metadata where
  "rm_default = \<lparr>rm_eid_data = [], rm_security_errors = [], rm_field_exceptions = fe_default, rm_delayed = [],
     rm_type_misses = [], rm_ids = [], rm_capture_delayed = False, rm_hidden_fields = []\<rparr>"

definition attach_bloomberg_request_id ::
  "'j codec \<Rightarrow> string \<Rightarrow> ('v, 'j) record_batch \<Rightarrow> ('v, 'j) record_batch" where
  "attach_bloomberg_request_id c i batch =
     batch\<lparr>rb_metadata := (rb_metadata batch)(key_request_id := Some (cd_text c i))\<rparr>"

definition with_bloomberg_request_ids :: "string list \<Rightarrow> response_metadata" where
  "with_bloomberg_request_ids ids = rm_default\<lparr>rm_ids := ids_extend [] ids\<rparr>"

definition batch_request_ids :: "'j codec \<Rightarrow> ('v, 'j) record_batch \<Rightarrow> string list" where
  "batch_request_ids c batch = ids_collect c batch []"

definition with_delayed :: "(string, delayed_meta) btree \<Rightarrow> response_metadata" where
  "with_delayed d = rm_default\<lparr>rm_delayed := d\<rparr>"

definition record_type_miss :: "string \<Rightarrow> response_metadata \<Rightarrow> response_metadata" where
  "record_type_miss f rm = rm\<lparr>rm_type_misses := bt_update f 0 (\<lambda>n. n + 1) (rm_type_misses rm)\<rparr>"

definition collect_type_misses ::
  "'j codec \<Rightarrow> ('v, 'j) record_batch \<Rightarrow> (string, u64) btree \<Rightarrow> (string, u64) btree" where
  "collect_type_misses c batch misses =
     (case parse_map (cd_misses c) (rb_metadata batch key_type_misses) of
        None \<Rightarrow> misses
      | Some counts \<Rightarrow> fold (\<lambda>(f, n). bt_update f 0 (\<lambda>m. m + n)) counts misses)"

definition record_eid_data :: "string \<Rightarrow> int option list \<Rightarrow> response_metadata \<Rightarrow> response_metadata" where
  "record_eid_data ticker eids rm =
     rm\<lparr>rm_eid_data := bt_update ticker [] (\<lambda>old. old @ List.map_filter id eids) (rm_eid_data rm)\<rparr>"

definition record_security_error :: "string \<Rightarrow> security_error_meta \<Rightarrow> response_metadata \<Rightarrow> response_metadata" where
  "record_security_error ticker e rm = rm\<lparr>rm_security_errors := bt_insert ticker e (rm_security_errors rm)\<rparr>"

definition rm_is_empty :: "response_metadata \<Rightarrow> bool" where
  "rm_is_empty rm \<longleftrightarrow> rm_eid_data rm = [] \<and> rm_security_errors rm = [] \<and> fe_is_empty (rm_field_exceptions rm) \<and>
     rm_delayed rm = [] \<and> rm_type_misses rm = [] \<and> rm_ids rm = []"

text \<open>A map that fails to serialise is logged and left out.\<close>

definition insert_json ::
  "((string \<times> 'a) list, 'j) json \<Rightarrow> string \<Rightarrow> (string, 'a) btree \<Rightarrow> (string \<Rightarrow> 'j option) \<Rightarrow> string \<Rightarrow> 'j option" where
  "insert_json c key v m =
     (if v = [] then m else case enc c v of Some j \<Rightarrow> m(key := Some j) | None \<Rightarrow> m)"

definition insert_exceptions ::
  "'j codec \<Rightarrow> field_exceptions \<Rightarrow> (string \<Rightarrow> 'j option) \<Rightarrow> (string \<Rightarrow> 'j option) option" where
  "insert_exceptions c fe m =
     (if fe_is_empty fe then Some m
      else map_option (\<lambda>env. m(key_field_exceptions := Some (cd_envelope c env))) (to_envelope fe))"

definition rm_attach :: "'j codec \<Rightarrow> response_metadata \<Rightarrow> ('v, 'j) record_batch \<Rightarrow> ('v, 'j) record_batch option" where
  "rm_attach c rm batch =
     (if rm_is_empty rm then Some batch
      else
        (let m1 = insert_json (cd_eids c) key_eid_data (rm_eid_data rm) (rb_metadata batch);
             m2 = insert_json (cd_errors c) key_security_errors (rm_security_errors rm) m1
         in Option.bind (insert_exceptions c (rm_field_exceptions rm) m2) (\<lambda>m3.
           (let m4 = insert_json (cd_delayed c) key_delayed (rm_delayed rm) m3;
                m5 = insert_json (cd_misses c) key_type_misses (rm_type_misses rm) m4
            in map_option (\<lambda>m. batch\<lparr>rb_metadata := m\<rparr>) (ids_attach_metadata c (rm_ids rm) m5)))))"

definition extend_map ::
  "((string \<times> 'a) list, 'j) json \<Rightarrow> string \<Rightarrow> ('v, 'j) record_batch \<Rightarrow> (string, 'a) btree \<Rightarrow> (string, 'a) btree" where
  "extend_map c key batch t =
     (case parse_map c (rb_metadata batch key) of None \<Rightarrow> t | Some u \<Rightarrow> bt_extend t u)"

definition normal_encoded :: "encoded \<Rightarrow> encoded" where
  "normal_encoded e =
     (case e of
        Compact env \<Rightarrow> Compact (env\<lparr>en_securities := bt_extend [] (en_securities env)\<rparr>)
      | Legacy ss \<Rightarrow> Legacy (bt_extend [] ss))"

definition from_json :: "'j codec \<Rightarrow> 'j \<Rightarrow> (field_exceptions, string) result" where
  "from_json c raw = and_then (cd_encoded c raw) (\<lambda>e. from_encoded (normal_encoded e))"

text \<open>The outer \<open>None\<close> is a panic.\<close>

definition extend_exceptions ::
  "'j codec \<Rightarrow> ('v, 'j) record_batch \<Rightarrow> field_exceptions \<Rightarrow> (field_exceptions, blp_error) result option" where
  "extend_exceptions c batch fe =
     (case rb_metadata batch key_field_exceptions of
        None \<Rightarrow> Some (Inr fe)
      | Some raw \<Rightarrow>
          (case from_json c raw of
             Inl error \<Rightarrow> Some (Inl (Internal (''invalid '' @ key_field_exceptions @ '' metadata: '' @ error)))
           | Inr other \<Rightarrow> map_option Inr (fe_extend fe other)))"

definition union_batch ::
  "'j codec \<Rightarrow> ('v, 'j) record_batch \<Rightarrow> response_metadata \<Rightarrow> (response_metadata, blp_error) result option" where
  "union_batch c batch rm =
     (let misses = collect_type_misses c batch (rm_type_misses rm);
          ids = ids_collect c batch (rm_ids rm);
          eids = extend_map (cd_eids c) key_eid_data batch (rm_eid_data rm);
          errors = extend_map (cd_errors c) key_security_errors batch (rm_security_errors rm)
      in map_option (\<lambda>r. and_then r (\<lambda>fe.
           Inr (rm\<lparr>rm_type_misses := misses, rm_ids := ids, rm_eid_data := eids, rm_security_errors := errors,
             rm_field_exceptions := fe,
             rm_delayed := extend_map (cd_delayed c) key_delayed batch (rm_delayed rm)\<rparr>)))
           (extend_exceptions c batch (rm_field_exceptions rm)))"

fun union_from ::
  "'j codec \<Rightarrow> ('v, 'j) record_batch list \<Rightarrow> response_metadata \<Rightarrow> (response_metadata, blp_error) result option" where
  "union_from c [] rm = Some (Inr rm)"
| "union_from c (b # bs) rm =
     (case union_batch c b rm of
        None \<Rightarrow> None
      | Some (Inl e) \<Rightarrow> Some (Inl e)
      | Some (Inr rm') \<Rightarrow> union_from c bs rm')"

definition union_of :: "'j codec \<Rightarrow> ('v, 'j) record_batch list \<Rightarrow> (response_metadata, blp_error) result option" where
  "union_of c batches = union_from c batches rm_default"

text \<open>\<open>delayed_metadata\<close> and \<open>parse_flag_text\<close>.\<close>

definition delayed_metadata :: "'j codec \<Rightarrow> ('v, 'j) record_batch \<Rightarrow> (string, delayed_meta) btree option" where
  "delayed_metadata c batch = parse_map (cd_delayed c) (rb_metadata batch key_delayed)"

definition parse_flag_text :: "string \<Rightarrow> bool option" where
  "parse_flag_text text =
     (let t = to_ascii_lowercase (trim text) in
      if t \<in> {''true'', ''y'', ''yes'', ''1''} then Some True
      else if t \<in> {''false'', ''n'', ''no'', ''0''} then Some False
      else None)"

section \<open>Collecting over several batches\<close>

text \<open>Each kind of diagnostics is collected batch by batch into a state whose contents are a sum of
  what the batches carry. The kinds differ in the sum.\<close>

locale diagnostics_collector =
  fixes wf :: "'s \<Rightarrow> bool" and contents :: "'s \<Rightarrow> 'm" and collect :: "'b \<Rightarrow> 's \<Rightarrow> 's"
    and carried :: "'b \<Rightarrow> 'm" and add :: "'m \<Rightarrow> 'm \<Rightarrow> 'm"
  assumes wf_collect: "wf s \<Longrightarrow> wf (collect b s)"
    and contents_collect: "wf s \<Longrightarrow> contents (collect b s) = add (contents s) (carried b)"
begin

lemma wf_collect_all: "wf s \<Longrightarrow> wf (fold collect bs s)"
  by (induction bs arbitrary: s) (simp_all add: wf_collect)

lemma contents_collect_all: "wf s \<Longrightarrow> contents (fold collect bs s) = foldl add (contents s) (map carried bs)"
  by (induction bs arbitrary: s) (simp_all add: wf_collect contents_collect)

end

definition ids_wf :: "string list \<Rightarrow> bool" where
  "ids_wf ids \<longleftrightarrow> sorted ids \<and> distinct ids"

lemma insort_insert_wf: "ids_wf ids \<Longrightarrow> ids_wf (insort_insert i ids)"
  by (simp add: ids_wf_def sorted_insort_insert distinct_insort_insert)

lemma ids_extend_wf: "ids_wf ids \<Longrightarrow> ids_wf (ids_extend ids new)"
  by (induction new arbitrary: ids) (auto simp: ids_extend_def insort_insert_wf)

lemma set_ids_extend [simp]: "set (ids_extend ids new) = set ids \<union> set new"
  by (induction new arbitrary: ids) (auto simp: ids_extend_def set_insort_insert)

lemma ids_extend_union_ids:
  assumes "ids_wf ids"
  shows "ids_extend ids new = union_ids ids new"
  using ids_extend_wf [OF assms, of new] by (intro sorted_distinct_set_unique) (simp_all add: ids_wf_def)

lemma ids_collect_wf: "ids_wf ids \<Longrightarrow> ids_wf (ids_collect c batch ids)"
  by (simp add: ids_collect_def Let_def insort_insert_wf ids_extend_wf split: option.split)

lemma set_ids_collect: "set (ids_collect c batch ids) = set ids \<union> set (batch_request_ids c batch)"
  by (auto simp: ids_collect_def batch_request_ids_def Let_def set_insort_insert split: option.split)

interpretation request_ids: diagnostics_collector ids_wf set "ids_collect c" "\<lambda>b. set (batch_request_ids c b)" "(\<union>)"
  for c :: "'j codec"
  by unfold_locales (simp_all add: ids_collect_wf set_ids_collect)

text \<open>Conversion misses add up.\<close>

definition misses_of :: "(string, u64) btree \<Rightarrow> string \<Rightarrow> u64" where
  "misses_of t f = (case map_of t f of None \<Rightarrow> 0 | Some n \<Rightarrow> n)"

definition batch_misses :: "'j codec \<Rightarrow> ('v, 'j) record_batch \<Rightarrow> string \<Rightarrow> u64" where
  "batch_misses c batch =
     (case parse_map (cd_misses c) (rb_metadata batch key_type_misses) of None \<Rightarrow> (\<lambda>_. 0) | Some u \<Rightarrow> misses_of u)"

lemma misses_fold:
  assumes "bt_wf t" "bt_wf u"
  shows "bt_wf (fold (\<lambda>(f, n). bt_update f 0 (\<lambda>m. m + n)) u t) \<and>
    misses_of (fold (\<lambda>(f, n). bt_update f 0 (\<lambda>m. m + n)) u t) = (\<lambda>f. misses_of t f + misses_of u f)"
  using assms
proof (induction u arbitrary: t)
  case (Cons e u)
  obtain f n where e: "e = (f, n)" by (cases e)
  have u: "bt_wf u" "map_of u f = None" using Cons.prems(2) by (auto simp: e bt_wf_Cons map_of_eq_None_iff)
  have "misses_of (bt_update f 0 (\<lambda>m. m + n) t) = (misses_of t)(f := misses_of t f + n)"
    using Cons.prems(1) by (simp add: misses_of_def fun_eq_iff)
  then show ?case
    using Cons.IH [of "bt_update f 0 (\<lambda>m. m + n) t"] Cons.prems(1) u
    by (simp add: e fun_eq_iff misses_of_def)
qed (simp add: misses_of_def fun_eq_iff)

lemma parse_map_wf: "parse_map c v = Some u \<Longrightarrow> bt_wf u"
  by (auto simp: parse_map_def)

interpretation type_misses: diagnostics_collector bt_wf misses_of "collect_type_misses c" "batch_misses c"
    "\<lambda>m n f. m f + n f"
  for c :: "'j codec"
proof unfold_locales
  fix s :: "(string, u64) btree" and b :: "('v, 'j) record_batch"
  assume s: "bt_wf s"
  show "bt_wf (collect_type_misses c b s)"
    using misses_fold [OF s parse_map_wf] s by (auto simp: collect_type_misses_def split: option.split)
  show "misses_of (collect_type_misses c b s) = (\<lambda>f. misses_of s f + batch_misses c b f)"
    using misses_fold [OF s parse_map_wf] s
    by (auto simp: collect_type_misses_def batch_misses_def split: option.split)
qed

text \<open>The maps by security are unions in which later batches win.\<close>

definition batch_map :: "((string \<times> 'a) list, 'j) json \<Rightarrow> string \<Rightarrow> ('v, 'j) record_batch \<Rightarrow> string \<Rightarrow> 'a option" where
  "batch_map c key batch =
     (case parse_map c (rb_metadata batch key) of None \<Rightarrow> Map.empty | Some u \<Rightarrow> map_of u)"

interpretation by_security: diagnostics_collector bt_wf map_of "extend_map c key" "batch_map c key" "(++)"
  for c :: "((string \<times> 'a) list, 'j) json" and key :: string
  by unfold_locales
    (auto simp: extend_map_def batch_map_def map_of_bt_extend parse_map_wf split: option.split)

text \<open>Field exceptions: what a batch carries is what its metadata decodes to.\<close>

lemma legacy_securities_wf: "fe_wf fe \<Longrightarrow> fe_wf (legacy_securities ss fe)"
proof (induction ss fe rule: legacy_securities.induct)
  case (2 security xs rest fe)
  obtain es "is" where 1: "intern_all (fe_entries fe) xs = (es, is)" by fastforce
  note I = intern_all_props [OF 1]
  obtain new where new: "es = fe_entries fe @ new" using I(4) by blast
  have b: "bt_wf (fe_securities fe)" using "2.prems" by (simp add: fe_wf_def)
  have "\<forall>i \<in> set js. i < length es"
    if "map_of (bt_insert security is (fe_securities fe)) s = Some js" for s js
    using that I(2) "2.prems" b by (auto simp: fe_wf_alt new split: if_splits) fastforce
  then have "fe_wf (fe\<lparr>fe_entries := es, fe_securities := bt_insert security is (fe_securities fe)\<rparr>)"
    using I(6) "2.prems" b by (simp add: fe_wf_alt)
  with "2.IH" [OF 1 [symmetric]] show ?case by (simp add: 1)
qed simp

lemma from_json_wf:
  assumes "from_json c raw = Inr fe"
  shows "fe_wf fe"
proof -
  obtain e where e: "from_encoded (normal_encoded e) = Inr fe"
    using assms by (auto simp: from_json_def and_then_Inr)
  show ?thesis
  proof (cases e)
    case (Compact env)
    obtain es r where 1: "intern_all [] (en_entries env) = (es, r)" by fastforce
    note I = intern_all_props [OF 1]
    let ?ss = "bt_extend [] (en_securities env)"
    have fe: "fe = \<lparr>fe_entries = es, fe_securities = map (\<lambda>(s, is). (s, map (\<lambda>i. r ! i) is)) ?ss\<rparr>"
      and ok: "\<forall>(_, is) \<in> set ?ss. \<forall>i \<in> set is. i < length r"
      using e I(1) by (fastforce simp: Compact normal_encoded_def from_encoded_def 1 split: if_splits)+
    have "\<forall>(_, is) \<in> set ?ss. \<forall>i \<in> set is. r ! i < length es" using ok I(2) by fastforce
    then show ?thesis using I(6) by (fastforce simp: fe fe_wf_def)
  next
    case (Legacy ss)
    then show ?thesis using e legacy_securities_wf [OF fe_wf_default]
      by (auto simp: normal_encoded_def from_encoded_def split: if_splits)
  qed
qed

definition batch_exceptions :: "'j codec \<Rightarrow> ('v, 'j) record_batch \<Rightarrow> string \<Rightarrow> field_exception_meta list" where
  "batch_exceptions c batch =
     (case rb_metadata batch key_field_exceptions of
        None \<Rightarrow> (\<lambda>_. [])
      | Some raw \<Rightarrow> (case from_json c raw of Inl _ \<Rightarrow> (\<lambda>_. []) | Inr fe \<Rightarrow> fe_view fe))"

definition collect_exceptions :: "'j codec \<Rightarrow> ('v, 'j) record_batch \<Rightarrow> field_exceptions \<Rightarrow> field_exceptions" where
  "collect_exceptions c batch fe =
     (case extend_exceptions c batch fe of Some (Inr fe') \<Rightarrow> fe' | _ \<Rightarrow> fe)"

lemma extend_exceptions_total:
  assumes "fe_wf fe"
  shows "\<exists>r. extend_exceptions c batch fe = Some r \<and>
    (\<forall>fe'. r = Inr fe' \<longrightarrow> fe' = collect_exceptions c batch fe)"
  using fe_extend_props [OF assms from_json_wf]
  by (fastforce simp: extend_exceptions_def collect_exceptions_def split: option.split sum.split)

interpretation exceptions: diagnostics_collector fe_wf fe_view "collect_exceptions c" "batch_exceptions c"
    "\<lambda>a b s. a s @ b s"
  for c :: "'j codec"
proof unfold_locales
  fix s :: field_exceptions and b :: "('v, 'j) record_batch"
  assume s: "fe_wf s"
  show "fe_wf (collect_exceptions c b s)"
    "fe_view (collect_exceptions c b s) = (\<lambda>t. fe_view s t @ batch_exceptions c b t)"
    using s fe_extend_props [OF s from_json_wf]
    by (fastforce simp: collect_exceptions_def extend_exceptions_def batch_exceptions_def fun_eq_iff
        split: option.split sum.split)+
qed

section \<open>The union of the diagnostics\<close>

definition rm_wf :: "response_metadata \<Rightarrow> bool" where
  "rm_wf rm \<longleftrightarrow> ids_wf (rm_ids rm) \<and> bt_wf (rm_type_misses rm) \<and> bt_wf (rm_eid_data rm) \<and>
     bt_wf (rm_security_errors rm) \<and> bt_wf (rm_delayed rm) \<and> fe_wf (rm_field_exceptions rm)"

lemma rm_wf_default [simp]: "rm_wf rm_default"
  by (simp add: rm_wf_def rm_default_def ids_wf_def)

definition union_step :: "'j codec \<Rightarrow> ('v, 'j) record_batch \<Rightarrow> response_metadata \<Rightarrow> response_metadata" where
  "union_step c b rm = rm\<lparr>rm_type_misses := collect_type_misses c b (rm_type_misses rm),
     rm_ids := ids_collect c b (rm_ids rm), rm_eid_data := extend_map (cd_eids c) key_eid_data b (rm_eid_data rm),
     rm_security_errors := extend_map (cd_errors c) key_security_errors b (rm_security_errors rm),
     rm_field_exceptions := collect_exceptions c b (rm_field_exceptions rm),
     rm_delayed := extend_map (cd_delayed c) key_delayed b (rm_delayed rm)\<rparr>"

lemma union_step_wf: "rm_wf rm \<Longrightarrow> rm_wf (union_step c b rm)"
  by (simp add: rm_wf_def union_step_def request_ids.wf_collect type_misses.wf_collect by_security.wf_collect
      exceptions.wf_collect)

lemma union_batch_total:
  assumes "rm_wf rm"
  shows "\<exists>r. union_batch c b rm = Some r \<and> (\<forall>rm'. r = Inr rm' \<longrightarrow> rm' = union_step c b rm)"
proof -
  obtain r where r: "extend_exceptions c b (rm_field_exceptions rm) = Some r"
    "\<And>fe'. r = Inr fe' \<Longrightarrow> fe' = collect_exceptions c b (rm_field_exceptions rm)"
    using extend_exceptions_total [of "rm_field_exceptions rm" c b] assms by (auto simp: rm_wf_def)
  show ?thesis
    by (cases r) (use r in \<open>auto simp: union_batch_def union_step_def Let_def\<close>)
qed

lemma union_from_total:
  assumes "rm_wf rm"
  shows "\<exists>r. union_from c bs rm = Some r \<and> (\<forall>rm'. r = Inr rm' \<longrightarrow> rm' = fold (union_step c) bs rm)"
  using assms
proof (induction bs arbitrary: rm)
  case (Cons b bs)
  obtain r where r: "union_batch c b rm = Some r" "\<And>rm'. r = Inr rm' \<Longrightarrow> rm' = union_step c b rm"
    using union_batch_total [OF Cons.prems] by blast
  show ?case
    using r Cons.IH [OF union_step_wf [OF Cons.prems, of c b]] by (cases r) auto
qed simp

lemma fold_union_step:
  "rm_ids (fold (union_step c) bs rm) = fold (ids_collect c) bs (rm_ids rm)"
  "rm_type_misses (fold (union_step c) bs rm) = fold (collect_type_misses c) bs (rm_type_misses rm)"
  "rm_eid_data (fold (union_step c) bs rm) = fold (extend_map (cd_eids c) key_eid_data) bs (rm_eid_data rm)"
  "rm_security_errors (fold (union_step c) bs rm) =
     fold (extend_map (cd_errors c) key_security_errors) bs (rm_security_errors rm)"
  "rm_delayed (fold (union_step c) bs rm) = fold (extend_map (cd_delayed c) key_delayed) bs (rm_delayed rm)"
  "rm_field_exceptions (fold (union_step c) bs rm) = fold (collect_exceptions c) bs (rm_field_exceptions rm)"
  by (induction bs arbitrary: rm) (simp_all add: union_step_def)

lemma fold_union_wf: "rm_wf rm \<Longrightarrow> rm_wf (fold (union_step c) bs rm)"
  by (induction bs arbitrary: rm) (simp_all add: union_step_wf)

section \<open>Reading back what was attached\<close>

text \<open>What the engine relies on of serde_json: a value it wrote is read back.\<close>

definition json_ok :: "('a, 'j) json \<Rightarrow> bool" where
  "json_ok k \<longleftrightarrow> (\<forall>x. \<exists>j. enc k x = Some j \<and> dec k j = Some x)"

definition codec_ok :: "'j codec \<Rightarrow> bool" where
  "codec_ok c \<longleftrightarrow> (\<forall>s. cd_string c (cd_text c s) = s) \<and> json_ok (cd_ids c) \<and> json_ok (cd_eids c) \<and>
     json_ok (cd_errors c) \<and> json_ok (cd_delayed c) \<and> json_ok (cd_misses c) \<and>
     (\<forall>env. cd_encoded c (cd_envelope c env) = Inr (Compact env))"

lemma insert_json_at:
  assumes "json_ok k"
  shows "insert_json k key v m key' = (if key' = key \<and> v \<noteq> [] then enc k v else m key')"
proof -
  obtain j where "enc k v = Some j" using assms by (auto simp: json_ok_def)
  then show ?thesis by (simp add: insert_json_def)
qed

lemma bt_extend_Nil: "bt_wf u \<Longrightarrow> bt_extend [] u = u"
  by (rule bt_ext) (simp_all add: map_of_bt_extend)

lemma parse_map_enc:
  assumes "json_ok k" "bt_wf v"
  shows "parse_map k (enc k v) = Some v"
  using assms by (auto simp: json_ok_def parse_map_def parse_json_def bt_extend_Nil dest!: spec [of _ v])

lemma from_json_envelope:
  assumes "codec_ok c" "fe_wf fe" "to_envelope fe = Some env"
  shows "\<exists>fe'. from_json c (cd_envelope c env) = Inr fe' \<and> fe_view fe' = fe_view fe"
proof -
  let ?es = "sort (fe_entries fe)"
  obtain r where r: "env = \<lparr>en_version = 1, en_entries = ?es,
      en_securities = map (\<lambda>(s, is). (s, map (\<lambda>i. r ! i) is)) (fe_securities fe)\<rparr>"
    "\<And>i. i < length (fe_entries fe) \<Longrightarrow> r ! i < length ?es \<and> ?es ! (r ! i) = fe_entries fe ! i"
    using to_envelope_wf [OF assms(2)] assms(3) by auto
  let ?ss = "map (\<lambda>(s, is). (s, map (\<lambda>i. r ! i) is)) (fe_securities fe)"
  let ?fe = "\<lparr>fe_entries = ?es, fe_securities = ?ss\<rparr>"
  have b: "bt_wf ?ss" "distinct ?es" using assms(2) by (simp_all add: fe_wf_def)
  have i: "\<forall>(_, is) \<in> set ?ss. \<forall>i \<in> set is. i < length ?es" using assms(2) r(2) by (fastforce simp: fe_wf_def)
  have w: "fe_wf ?fe" using b i by (simp add: fe_wf_def)
  have "from_json c (cd_envelope c env) = Inr ?fe"
    using assms(1) from_envelope_wf [OF b(2,1) i] b(1)
    by (simp add: from_json_def codec_ok_def normal_encoded_def r(1) bt_extend_Nil)
  moreover have "fe_view ?fe s = fe_view fe s" for s
    unfolding fe_view_map_of [OF w] fe_view_map_of [OF assms(2)]
    using assms(2) r(2) by (auto simp: map_of_map_snd fe_wf_alt split: option.split)
  ultimately show ?thesis by blast
qed

lemma ids_attach_metadata_cases:
  assumes "enc (cd_ids c) ids = Some j"
  shows "ids_attach_metadata c ids m = Some (if ids = [] then m
     else if length ids = 1 then m(key_request_id := Some (cd_text c (hd ids)), key_request_ids := None)
     else m(key_request_id := None, key_request_ids := Some j))"
proof -
  have k: "key_request_id \<noteq> key_request_ids" by (simp add: metadata_keys)
  consider "ids = []" | i where "ids = [i]" | x y zs where "ids = x # y # zs" by (metis neq_Nil_conv)
  then show ?thesis
    using assms k by cases (simp_all add: ids_attach_metadata_def Let_def fun_upd_twist)
qed

text \<open>The metadata after attaching, key by key.\<close>

lemma rm_attach_at:
  assumes "codec_ok c" "rm_wf rm"
  obtains m where "rm_attach c rm batch = Some (batch\<lparr>rb_metadata := m\<rparr>)"
    "m key_type_misses = (if rm_type_misses rm \<noteq> [] then enc (cd_misses c) (rm_type_misses rm)
       else rb_metadata batch key_type_misses)"
    "m key_field_exceptions = (if fe_is_empty (rm_field_exceptions rm) then rb_metadata batch key_field_exceptions
       else map_option (cd_envelope c) (to_envelope (rm_field_exceptions rm)))"
    "rm_ids rm \<noteq> [] \<Longrightarrow> m key_request_id = (if length (rm_ids rm) = 1 then Some (cd_text c (hd (rm_ids rm))) else None)"
    "rm_ids rm \<noteq> [] \<Longrightarrow> m key_request_ids = (if length (rm_ids rm) = 1 then None else enc (cd_ids c) (rm_ids rm))"
    "rm_ids rm = [] \<Longrightarrow> m key_request_id = rb_metadata batch key_request_id \<and>
       m key_request_ids = rb_metadata batch key_request_ids"
proof (cases "rm_is_empty rm")
  case True
  then show ?thesis by (intro that [of "rb_metadata batch"]) (simp_all add: rm_attach_def rm_is_empty_def)
next
  case False
  have J: "json_ok (cd_ids c)" "json_ok (cd_eids c)" "json_ok (cd_errors c)" "json_ok (cd_delayed c)"
    "json_ok (cd_misses c)" using assms(1) by (simp_all add: codec_ok_def)
  let ?m2 = "insert_json (cd_errors c) key_security_errors (rm_security_errors rm)
      (insert_json (cd_eids c) key_eid_data (rm_eid_data rm) (rb_metadata batch))"
  obtain env where env: "to_envelope (rm_field_exceptions rm) = Some env"
    using to_envelope_wf [of "rm_field_exceptions rm"] assms(2) by (auto simp: rm_wf_def)
  define m3 where "m3 = (if fe_is_empty (rm_field_exceptions rm) then ?m2
      else ?m2(key_field_exceptions := Some (cd_envelope c env)))"
  have m3: "insert_exceptions c (rm_field_exceptions rm) ?m2 = Some m3"
    using env by (simp add: insert_exceptions_def m3_def)
  have at3: "m3 k = (if k = key_field_exceptions \<and> \<not> fe_is_empty (rm_field_exceptions rm)
      then Some (cd_envelope c env) else ?m2 k)" for k by (simp add: m3_def)
  let ?m5 = "insert_json (cd_misses c) key_type_misses (rm_type_misses rm)
      (insert_json (cd_delayed c) key_delayed (rm_delayed rm) m3)"
  obtain j where j: "enc (cd_ids c) (rm_ids rm) = Some j" using J(1) by (auto simp: json_ok_def)
  define m where "m = (if rm_ids rm = [] then ?m5
     else if length (rm_ids rm) = 1
     then ?m5(key_request_id := Some (cd_text c (hd (rm_ids rm))), key_request_ids := None)
     else ?m5(key_request_id := None, key_request_ids := Some j))"
  have "ids_attach_metadata c (rm_ids rm) ?m5 = Some m"
    unfolding m_def by (rule ids_attach_metadata_cases [OF j])
  then have a: "rm_attach c rm batch = Some (batch\<lparr>rb_metadata := m\<rparr>)"
    using False m3 by (simp add: rm_attach_def Let_def)
  note at = insert_json_at [OF J(2)] insert_json_at [OF J(3)] insert_json_at [OF J(4)] insert_json_at [OF J(5)] at3
  show ?thesis
    by (rule that [OF a]) (simp_all add: m_def at env j metadata_keys)
qed

text \<open>Reading the diagnostics of a batch to which a union with at least its own diagnostics was
  attached gives the union.\<close>

lemma rm_attach_read:
  assumes "codec_ok c" "rm_wf rm" "rm_attach c rm batch = Some batch'"
    "rm_ids rm = [] \<Longrightarrow> batch_request_ids c batch = []"
    "rm_type_misses rm = [] \<Longrightarrow> batch_misses c batch = (\<lambda>_. 0)"
    "fe_is_empty (rm_field_exceptions rm) \<Longrightarrow> batch_exceptions c batch = (\<lambda>_. [])"
  shows "batch_request_ids c batch' = rm_ids rm" "batch_misses c batch' = misses_of (rm_type_misses rm)"
    "batch_exceptions c batch' = fe_view (rm_field_exceptions rm)"
proof -
  obtain m where m: "rm_attach c rm batch = Some (batch\<lparr>rb_metadata := m\<rparr>)"
    "m key_type_misses = (if rm_type_misses rm \<noteq> [] then enc (cd_misses c) (rm_type_misses rm)
       else rb_metadata batch key_type_misses)"
    "m key_field_exceptions = (if fe_is_empty (rm_field_exceptions rm) then rb_metadata batch key_field_exceptions
       else map_option (cd_envelope c) (to_envelope (rm_field_exceptions rm)))"
    "rm_ids rm \<noteq> [] \<Longrightarrow> m key_request_id = (if length (rm_ids rm) = 1 then Some (cd_text c (hd (rm_ids rm))) else None)"
    "rm_ids rm \<noteq> [] \<Longrightarrow> m key_request_ids = (if length (rm_ids rm) = 1 then None else enc (cd_ids c) (rm_ids rm))"
    "rm_ids rm = [] \<Longrightarrow> m key_request_id = rb_metadata batch key_request_id \<and>
       m key_request_ids = rb_metadata batch key_request_ids"
    using rm_attach_at [OF assms(1,2)] by blast
  have b: "batch' = batch\<lparr>rb_metadata := m\<rparr>" using m(1) assms(3) by simp
  have w: "ids_wf (rm_ids rm)" "bt_wf (rm_type_misses rm)" "fe_wf (rm_field_exceptions rm)"
    using assms(2) by (simp_all add: rm_wf_def)
  have J: "json_ok (cd_ids c)" "json_ok (cd_misses c)" "\<And>s. cd_string c (cd_text c s) = s"
    using assms(1) by (simp_all add: codec_ok_def)
  show "batch_request_ids c batch' = rm_ids rm"
  proof (cases "rm_ids rm = []")
    case True
    with m(6) assms(4) show ?thesis by (simp add: b batch_request_ids_def ids_collect_def)
  next
    case False
    obtain j where j: "enc (cd_ids c) (rm_ids rm) = Some j" "dec (cd_ids c) j = Some (rm_ids rm)"
      using J(1) by (auto simp: json_ok_def)
    have "ids_extend [] (rm_ids rm) = rm_ids rm"
      using w(1) ids_extend_wf [of "[]" "rm_ids rm"] by (intro sorted_distinct_set_unique) (simp_all add: ids_wf_def)
    then show ?thesis
      using False m(4,5) j J(3)
      by (cases "rm_ids rm") (auto simp: b batch_request_ids_def ids_collect_def parse_json_def Let_def
          insort_insert_key_def split: list.splits)
  qed
  show "batch_misses c batch' = misses_of (rm_type_misses rm)"
    using m(2) assms(5) parse_map_enc [OF J(2) w(2)]
    by (auto simp: b batch_misses_def misses_of_def split: if_splits)
  show "batch_exceptions c batch' = fe_view (rm_field_exceptions rm)"
  proof (cases "fe_is_empty (rm_field_exceptions rm)")
    case True
    then have "fe_view (rm_field_exceptions rm) = (\<lambda>_. [])"
      by (simp add: fe_is_empty_def fe_view_def for_security_def fun_eq_iff)
    with True m(3) assms(6) show ?thesis by (simp add: b batch_exceptions_def)
  next
    case False
    obtain env where "to_envelope (rm_field_exceptions rm) = Some env"
      using to_envelope_wf [OF w(3)] by auto
    with False m(3) from_json_envelope [OF assms(1) w(3)] show ?thesis
      by (fastforce simp: b batch_exceptions_def)
  qed
qed

end
