(* ===== verification/Request_Errors.thy ===== *)
theory Request_Errors
  imports Presentation Request_Params
begin

text \<open>
  Completing the error of a failed request with the caller's label and the SDK request
  identifiers of everything that contributed to it (\<open>engine/request_pool.rs\<close>).
\<close>

definition async_error_to_string :: "blp_async_error \<Rightarrow> string" where
  "async_error_to_string e =
     (case e of
        Blp b \<Rightarrow> blp_error_to_string b
      | AsyncInternal m \<Rightarrow> ''internal error: '' @ m
      | ConfigError d \<Rightarrow> ''configuration error: '' @ d
      | ChannelClosed \<Rightarrow> ''channel closed''
      | AllWorkersDown n \<Rightarrow> ''all '' @ show_nat n @ '' request workers are dead '' @ em_dash @
          '' no healthy worker available'')"

fun enrich_request_error ::
  "blp_error \<Rightarrow> string \<Rightarrow> string \<Rightarrow> string option \<Rightarrow> string list \<Rightarrow> blp_error" where
  "enrich_request_error (RequestFailure sv op cid l label old src) service operation request_id ids =
     extend_bloomberg_request_ids
       (RequestFailure sv op cid l (if label = None then request_id else label) old src) ids"
| "enrich_request_error (RequestTimeout label old) service operation request_id ids =
     extend_bloomberg_request_ids (RequestTimeout (if label = None then request_id else label) old) ids"
| "enrich_request_error (Internal detail) service operation request_id ids =
     (if ids \<noteq> []
      then RequestFailure service (Some operation) None None request_id ids
             (Some (blp_error_to_string (Internal detail)))
      else Internal detail)"
| "enrich_request_error e service operation request_id ids = e"

definition enrich_async_request_error ::
  "blp_async_error \<Rightarrow> request_params \<Rightarrow> string list \<Rightarrow> blp_async_error" where
  "enrich_async_request_error e params ids =
     (case e of
        Blp b \<Rightarrow> Blp (enrich_request_error b (rq_service params) (params_effective_operation params)
                   (rq_request_id params) ids)
      | _ \<Rightarrow>
        if ids \<noteq> []
        then Blp (RequestFailure (rq_service params) (Some (params_effective_operation params)) None None
                   (rq_request_id params) ids (Some (async_error_to_string e)))
        else e)"

text \<open>Errors that can carry identifiers receive all of them; the error is otherwise unchanged when
  there are none.\<close>

definition carries_ids :: "blp_async_error \<Rightarrow> bool" where
  "carries_ids e \<longleftrightarrow> (case e of Blp b \<Rightarrow> is_request_error b \<or> (\<exists>d. b = Internal d) | _ \<Rightarrow> True)"

lemma enrich_ids:
  assumes "carries_ids e"
  shows "set (async_bloomberg_request_ids (enrich_async_request_error e params ids)) =
    set (async_bloomberg_request_ids e) \<union> set ids"
proof (cases e)
  case (Blp b)
  with assms show ?thesis by (cases b) (auto simp: carries_ids_def enrich_async_request_error_def)
qed (use assms in \<open>auto simp: enrich_async_request_error_def\<close>)

end
