(* ===== verification/Sharding.thy ===== *)
theory Sharding
  imports Request_Plan_Props Response_Metadata Request_Errors
begin

text \<open>
  Splitting a request over many securities into shards and joining the results
  (\<open>engine/request_sharding.rs\<close>). The request pool that runs a shard and the Arrow kernels are
  parameters.
\<close>

section \<open>Shard planning\<close>

text \<open>The sharding knobs of \<open>EngineConfig\<close>.\<close>

record shard_config =
  shard_requests :: bool
  shard_threshold :: nat
  shard_chunk_size :: nat

definition usize_max :: nat where
  "usize_max = 2 ^ 64 - 1"

text \<open>\<open>slice::chunks\<close>.\<close>

function chunks :: "nat \<Rightarrow> 'a list \<Rightarrow> 'a list list" where
  "chunks n xs = (if n = 0 \<or> xs = [] then [] else take n xs # chunks n (drop n xs))"
  by pat_completeness auto
termination by (relation "measure (length \<circ> snd)") auto

declare chunks.simps [simp del]

definition shard_security_chunks :: "string list \<Rightarrow> nat \<Rightarrow> string list list" where
  "shard_security_chunks securities chunk_size = (if chunk_size = 0 then [] else chunks chunk_size securities)"

definition merge_override_pairs ::
  "override_pairs option \<Rightarrow> override_pairs option \<Rightarrow> override_pairs option" where
  "merge_override_pairs global security =
     (if length (opt_list global) + length (opt_list security) = 0 then None
      else Some (fold (\<lambda>(k, v). AList.update k v) (opt_list security) (opt_list global)))"

record shard_state =
  sh_shards :: "prepared_request list"
  sh_securities :: "string list"
  sh_overrides :: "override_pairs option"
  sh_have_current :: bool

definition push_security_override_shard :: "prepared_request \<Rightarrow> shard_state \<Rightarrow> shard_state" where
  "push_security_override_shard prepared st =
     (if sh_securities st = [] then st
      else st\<lparr>sh_shards := sh_shards st @ [for_security_shard (sh_securities st)
               (merge_override_pairs (rq_overrides (pr_params prepared)) (sh_overrides st)) prepared],
             sh_securities := []\<rparr>)"

definition shard_step ::
  "nat \<Rightarrow> (string \<Rightarrow> override_pairs option) \<Rightarrow> prepared_request \<Rightarrow> string \<Rightarrow> shard_state \<Rightarrow> shard_state" where
  "shard_step max_chunk lookup prepared security st =
     (let next = lookup security;
          st1 = (if sh_have_current st \<and>
                    (sh_overrides st \<noteq> next \<or> length (sh_securities st) \<ge> max_chunk)
                 then (push_security_override_shard prepared st)\<lparr>sh_have_current := False\<rparr>
                 else st);
          st2 = (if \<not> sh_have_current st1 then st1\<lparr>sh_overrides := next, sh_have_current := True\<rparr> else st1)
      in st2\<lparr>sh_securities := sh_securities st2 @ [security]\<rparr>)"

definition shard_start :: shard_state where
  "shard_start = \<lparr>sh_shards = [], sh_securities = [], sh_overrides = None, sh_have_current = False\<rparr>"

definition security_override_shards :: "shard_config \<Rightarrow> prepared_request \<Rightarrow> prepared_request list option" where
  "security_override_shards config prepared =
     (case normalize_vec (rq_security_overrides (pr_params prepared)) of
        None \<Rightarrow> None
      | Some security_overrides \<Rightarrow>
          (case normalize_vec (rq_securities (pr_params prepared)) of
             None \<Rightarrow> None
           | Some securities \<Rightarrow>
               (let lookup = map_of (rev security_overrides);
                    max_chunk = (if shard_requests config then shard_chunk_size config else usize_max);
                    st = fold (shard_step max_chunk lookup prepared) securities shard_start
                in Some (sh_shards (if sh_have_current st then push_security_override_shard prepared st else st)))))"

definition sharded_requests :: "shard_config \<Rightarrow> prepared_request \<Rightarrow> prepared_request list option" where
  "sharded_requests config prepared =
     (if pr_raw prepared then None
      else if pr_operation prepared \<notin> {operation.ReferenceData, operation.HistoricalData} then None
      else if \<not> (case pr_shape prepared of RefDataShape _ \<Rightarrow> True | HistDataShape _ \<Rightarrow> True | _ \<Rightarrow> False) then None
      else case security_override_shards config prepared of
             Some shards \<Rightarrow> Some shards
           | None \<Rightarrow>
               if \<not> shard_requests config then None
               else case rq_securities (pr_params prepared) of
                      None \<Rightarrow> None
                    | Some securities \<Rightarrow>
                        if securities = [] \<or> length securities < shard_threshold config then None
                        else (let parts = shard_security_chunks securities (shard_chunk_size config) in
                              if length parts < 2 then None
                              else Some (map (\<lambda>ss. for_security_shard ss (rq_overrides (pr_params prepared)) prepared) parts)))"

section \<open>Joining the results\<close>

text \<open>The kernels of arrow-rs: build a batch from columns, append batches, and the \<open>Debug\<close> text of a
  type.\<close>

record ('v, 'j) arrow =
  ar_try_new :: "field list \<Rightarrow> (string \<Rightarrow> 'j option) \<Rightarrow> 'v column list \<Rightarrow> (('v, 'j) record_batch, string) result"
  ar_concat :: "field list \<Rightarrow> (string \<Rightarrow> 'j option) \<Rightarrow> ('v, 'j) record_batch list \<Rightarrow>
    (('v, 'j) record_batch, string) result"
  ar_debug :: "data_type \<Rightarrow> string"

fun to_arrow_datatype :: "arrow_type \<Rightarrow> data_type" where
  "to_arrow_datatype Float64 = Float64Type"
| "to_arrow_datatype Int64 = Int64Type"
| "to_arrow_datatype Int32 = Int32Type"
| "to_arrow_datatype String = Utf8"
| "to_arrow_datatype Bool = BooleanType"
| "to_arrow_datatype Date32 = Date32Type"
| "to_arrow_datatype TimestampMicros = TimestampType Microsecond (Some ''UTC'')"
| "to_arrow_datatype Time64Micros = Time64Type Microsecond"

definition supported_null_type :: "data_type \<Rightarrow> arrow_type option" where
  "supported_null_type t =
     (if t = Utf8 then Some String
      else if t = Float64Type then Some Float64
      else if t = Int64Type then Some Int64
      else if t = Int32Type then Some Int32
      else if t = BooleanType then Some Bool
      else if t = Date32Type then Some Date32
      else if t = TimestampType Microsecond (Some ''UTC'') then Some TimestampMicros
      else if t = Time64Type Microsecond then Some Time64Micros
      else None)"

definition null_array_for_datatype ::
  "('v, 'j) arrow \<Rightarrow> data_type \<Rightarrow> nat \<Rightarrow> ('v column, blp_async_error) result" where
  "null_array_for_datatype a t len =
     (case supported_null_type t of
        None \<Rightarrow> Inl (AsyncInternal (''cannot build null shard column for Arrow type '' @ ar_debug a t))
      | Some arrow_type \<Rightarrow> Inr \<lparr>col_type = to_arrow_datatype arrow_type, col_values = replicate len None\<rparr>)"

definition normalize_column ::
  "('v, 'j) arrow \<Rightarrow> nat \<Rightarrow> nat \<Rightarrow> field \<Rightarrow> field \<Rightarrow> 'v column \<Rightarrow> ('v column, blp_async_error) result" where
  "normalize_column a rows idx target source col =
     (if fd_name source \<noteq> fd_name target
      then Inl (AsyncInternal (''sharded request column mismatch at index '' @ show_nat idx @ '': expected '' @
             fd_name target @ '', got '' @ fd_name source))
      else if col_type col = fd_type target then Inr col
      else if length (filter (\<lambda>v. v = None) (col_values col)) = length (col_values col)
      then null_array_for_datatype a (fd_type target) rows
      else Inl (AsyncInternal (''sharded request column type mismatch for '' @ fd_name target @ '': expected '' @
             ar_debug a (fd_type target) @ '', got '' @ ar_debug a (col_type col))))"

text \<open>Arrow keeps as many fields as columns in a batch, so the three lists have one length.\<close>

fun normalize_columns ::
  "('v, 'j) arrow \<Rightarrow> nat \<Rightarrow> nat \<Rightarrow> field list \<Rightarrow> (field \<times> 'v column) list \<Rightarrow> ('v column list, blp_async_error) result" where
  "normalize_columns a rows idx (target # ts) ((source, col) # cs) =
     and_then (normalize_column a rows idx target source col) (\<lambda>c.
     and_then (normalize_columns a rows (Suc idx) ts cs) (\<lambda>rest. Inr (c # rest)))"
| "normalize_columns a rows idx _ _ = Inr []"

definition normalize_batch_to_schema ::
  "('v, 'j) arrow \<Rightarrow> ('v, 'j) record_batch \<Rightarrow> field list \<Rightarrow> (string \<Rightarrow> 'j option) \<Rightarrow>
     (('v, 'j) record_batch, blp_async_error) result" where
  "normalize_batch_to_schema a batch fs meta =
     (if rb_fields batch = fs then Inr batch
      else if length (rb_columns batch) \<noteq> length fs
      then Inl (AsyncInternal ''sharded request produced incompatible column count'')
      else and_then (normalize_columns a (rb_rows batch) 0 fs (zip (rb_fields batch) (rb_columns batch))) (\<lambda>cols.
        map_err (\<lambda>err. AsyncInternal (''concatenate sharded request batches: '' @ err))
          (ar_try_new a fs meta cols)))"

fun normalize_rest ::
  "('v, 'j) arrow \<Rightarrow> field list \<Rightarrow> (string \<Rightarrow> 'j option) \<Rightarrow> ('v, 'j) record_batch list \<Rightarrow>
     (('v, 'j) record_batch list, blp_async_error) result" where
  "normalize_rest a fs meta [] = Inr []"
| "normalize_rest a fs meta (b # bs) =
     and_then (normalize_batch_to_schema a b fs meta) (\<lambda>n.
     and_then (normalize_rest a fs meta bs) (\<lambda>ns. Inr (n # ns)))"

text \<open>The outer \<open>None\<close> is a panic while merging or writing the diagnostics.\<close>

definition concat_sharded_batches ::
  "'j codec \<Rightarrow> ('v, 'j) arrow \<Rightarrow> ('v, 'j) record_batch list \<Rightarrow> (('v, 'j) record_batch, blp_async_error) result option" where
  "concat_sharded_batches c a batches =
     (case batches of
        [] \<Rightarrow> Some (Inl (AsyncInternal ''cannot concatenate zero sharded batches''))
      | first # rest \<Rightarrow>
          if rest = [] then Some (Inr first)
          else (case union_of c batches of
                  None \<Rightarrow> None
                | Some (Inl e) \<Rightarrow> Some (Inl (Blp e))
                | Some (Inr merged) \<Rightarrow>
                    (case normalize_rest a (rb_fields first) (rb_metadata first) rest of
                       Inl e \<Rightarrow> Some (Inl e)
                     | Inr normalized \<Rightarrow>
                         (case ar_concat a (rb_fields first) (rb_metadata first) (first # normalized) of
                            Inl err \<Rightarrow> Some (Inl (AsyncInternal (''concatenate sharded request batches: '' @ err)))
                          | Inr batch \<Rightarrow> map_option Inr (rm_attach c merged batch)))))"

section \<open>Running the shards\<close>

definition shard_error_context :: "prepared_request list \<Rightarrow> request_params" where
  "shard_error_context shards =
     (case shards of
        [] \<Rightarrow> request_params_default
      | r # _ \<Rightarrow> request_params_default\<lparr>rq_service := rq_service (pr_params r),
          rq_operation := operation_as_str (pr_operation r), rq_request_id := rq_request_id (pr_params r)\<rparr>)"

text \<open>The identifiers of every shard and the first error, in the order of the shards.\<close>

fun collect_shard_errors ::
  "'j codec \<Rightarrow> (('v, 'j) record_batch, blp_async_error) result list \<Rightarrow> string list \<Rightarrow> blp_async_error option \<Rightarrow>
     string list \<times> blp_async_error option" where
  "collect_shard_errors c [] ids first_error = (ids, first_error)"
| "collect_shard_errors c (Inr batch # rs) ids first_error =
     collect_shard_errors c rs (ids_collect c batch ids) first_error"
| "collect_shard_errors c (Inl e # rs) ids first_error =
     collect_shard_errors c rs (ids_extend ids (async_bloomberg_request_ids e))
       (if first_error = None then Some e else first_error)"

definition is_err :: "('a, 'e) result \<Rightarrow> bool" where
  "is_err r \<longleftrightarrow> (case r of Inl _ \<Rightarrow> True | Inr _ \<Rightarrow> False)"

text \<open>\<open>buffered\<close> runs up to \<open>shard_max_concurrent\<close> shards at a time and yields their results in
  order, so the results are those of the pool, shard by shard.\<close>

definition request_shards_ordered ::
  "'j codec \<Rightarrow> ('v, 'j) arrow \<Rightarrow> (prepared_request \<Rightarrow> (('v, 'j) record_batch, blp_async_error) result) \<Rightarrow>
     prepared_request list \<Rightarrow> (('v, 'j) record_batch, blp_async_error) result option" where
  "request_shards_ordered c a pool shards =
     (let results = map pool shards in
      if \<exists>r \<in> set results. is_err r
      then (case collect_shard_errors c results [] None of
              (ids, first_error) \<Rightarrow>
                map_option (\<lambda>e. Inl (enrich_async_request_error e (shard_error_context shards) ids)) first_error)
      else concat_sharded_batches c a (List.map_filter (\<lambda>r. case r of Inr b \<Rightarrow> Some b | Inl _ \<Rightarrow> None) results))"

section \<open>Lemmas on planning\<close>

lemma concat_chunks: "0 < n \<Longrightarrow> concat (chunks n xs) = xs"
proof (induction n xs rule: chunks.induct)
  case (1 n xs)
  show ?case
  proof (cases "xs = []")
    case True
    then show ?thesis by (simp add: chunks.simps)
  next
    case False
    with 1 show ?thesis by (simp add: chunks.simps [of n xs])
  qed
qed

lemma chunks_sizes: "c \<in> set (chunks n xs) \<Longrightarrow> c \<noteq> [] \<and> length c \<le> n"
proof (induction n xs rule: chunks.induct)
  case (1 n xs)
  then show ?case by (auto simp: chunks.simps [of n xs] split: if_splits)
qed

lemma opt_list_simps [simp]: "opt_list None = []" "opt_list (Some xs) = xs" "opt_list (normalize_vec v) = opt_list v"
  by (simp_all add: opt_list_def normalize_vec_def split: option.split)

lemma map_of_merge:
  "map_of (opt_list (merge_override_pairs global security)) =
     map_of (opt_list global) ++ map_of (rev (opt_list security))"
proof -
  have "map_of (fold (\<lambda>(k, v). AList.update k v) s g) = map_of g ++ map_of (rev s)" for s g :: override_pairs
    by (induction s arbitrary: g) (auto simp: update_conv' map_add_assoc)
  then show ?thesis by (auto simp: merge_override_pairs_def)
qed

definition shard_securities :: "prepared_request \<Rightarrow> string list" where
  "shard_securities r = opt_list (rq_securities (pr_params r))"

text \<open>A shard for some of the securities, all with the same override entry.\<close>

definition override_shard ::
  "nat \<Rightarrow> (string \<Rightarrow> override_pairs option) \<Rightarrow> prepared_request \<Rightarrow> prepared_request \<Rightarrow> bool" where
  "override_shard limit lookup r sh \<longleftrightarrow>
     (\<exists>ss o'. sh = for_security_shard ss (merge_override_pairs (rq_overrides (pr_params r)) o') r \<and> ss \<noteq> [] \<and>
        length ss \<le> max 1 limit \<and> (\<forall>s \<in> set ss. lookup s = o'))"

definition shard_inv ::
  "nat \<Rightarrow> (string \<Rightarrow> override_pairs option) \<Rightarrow> prepared_request \<Rightarrow> string list \<Rightarrow> shard_state \<Rightarrow> bool" where
  "shard_inv limit lookup r processed st \<longleftrightarrow>
     concat (map shard_securities (sh_shards st)) @ sh_securities st = processed \<and>
     (\<forall>sh \<in> set (sh_shards st). override_shard limit lookup r sh) \<and>
     (sh_have_current st \<longleftrightarrow> sh_securities st \<noteq> []) \<and> length (sh_securities st) \<le> max 1 limit \<and>
     (\<forall>s \<in> set (sh_securities st). lookup s = sh_overrides st)"

lemma push_inv:
  assumes "shard_inv limit lookup r processed st"
  shows "shard_inv limit lookup r processed ((push_security_override_shard r st)\<lparr>sh_have_current := False\<rparr>)"
    "sh_securities (push_security_override_shard r st) = []"
proof -
  have "override_shard limit lookup r (for_security_shard (sh_securities st)
      (merge_override_pairs (rq_overrides (pr_params r)) (sh_overrides st)) r)" if "sh_securities st \<noteq> []"
    using assms that unfolding shard_inv_def override_shard_def by blast
  moreover have "shard_securities (for_security_shard ss o' r) = ss" for ss o'
    by (simp add: shard_securities_def for_security_shard_def)
  ultimately show "shard_inv limit lookup r processed ((push_security_override_shard r st)\<lparr>sh_have_current := False\<rparr>)"
    using assms by (auto simp: shard_inv_def push_security_override_shard_def)
  show "sh_securities (push_security_override_shard r st) = []"
    by (simp add: push_security_override_shard_def)
qed

lemma shard_invI:
  assumes "concat (map shard_securities (sh_shards st)) @ sh_securities st = processed"
    "\<And>sh. sh \<in> set (sh_shards st) \<Longrightarrow> override_shard limit lookup r sh"
    "sh_have_current st \<longleftrightarrow> sh_securities st \<noteq> []" "length (sh_securities st) \<le> max 1 limit"
    "\<And>s. s \<in> set (sh_securities st) \<Longrightarrow> lookup s = sh_overrides st"
  shows "shard_inv limit lookup r processed st"
  using assms unfolding shard_inv_def by blast

lemma shard_invD:
  assumes "shard_inv limit lookup r processed st"
  shows "concat (map shard_securities (sh_shards st)) @ sh_securities st = processed"
    "\<And>sh. sh \<in> set (sh_shards st) \<Longrightarrow> override_shard limit lookup r sh"
    "sh_have_current st \<longleftrightarrow> sh_securities st \<noteq> []" "length (sh_securities st) \<le> max 1 limit"
    "\<And>s. s \<in> set (sh_securities st) \<Longrightarrow> lookup s = sh_overrides st"
  using assms unfolding shard_inv_def by blast+

lemma step_inv:
  assumes "shard_inv limit lookup r processed st"
  shows "shard_inv limit lookup r (processed @ [security]) (shard_step limit lookup r security st)"
proof (cases "sh_have_current st \<and> (sh_overrides st \<noteq> lookup security \<or> length (sh_securities st) \<ge> limit)")
  case True
  let ?st = "(push_security_override_shard r st)\<lparr>sh_have_current := False\<rparr>"
  note p = shard_invD [OF push_inv(1) [OF assms]] and e = push_inv(2) [OF assms]
  have st: "shard_step limit lookup r security st =
      ?st\<lparr>sh_overrides := lookup security, sh_have_current := True, sh_securities := [security]\<rparr>"
    using True e by (simp add: shard_step_def Let_def)
  show ?thesis
    unfolding st by (rule shard_invI) (use p(1,2) e in simp_all)
next
  case False
  note i = shard_invD [OF assms]
  show ?thesis
  proof (cases "sh_have_current st")
    case True
    then have st: "shard_step limit lookup r security st = st\<lparr>sh_securities := sh_securities st @ [security]\<rparr>"
      and o: "sh_overrides st = lookup security" and l: "length (sh_securities st) < limit"
      using False by (auto simp: shard_step_def Let_def)
    show ?thesis
      unfolding st by (rule shard_invI) (use i True o l in auto)
  next
    case False
    then have st: "shard_step limit lookup r security st =
        st\<lparr>sh_overrides := lookup security, sh_have_current := True, sh_securities := [security]\<rparr>"
      using i(3) by (simp add: shard_step_def Let_def)
    show ?thesis
      unfolding st by (rule shard_invI) (use i(1-3) False in simp_all)
  qed
qed

lemma fold_inv:
  assumes "shard_inv limit lookup r processed st"
  shows "shard_inv limit lookup r (processed @ ss) (fold (shard_step limit lookup r) ss st)"
  using assms
proof (induction ss arbitrary: processed st)
  case (Cons s ss)
  show ?case using Cons.IH [OF step_inv [OF Cons.prems], of s] by simp
qed simp

lemma security_override_shards_props:
  assumes "security_override_shards config r = Some shards"
  shows "concat (map shard_securities shards) = opt_list (rq_securities (pr_params r))"
    "\<forall>sh \<in> set shards. override_shard (if shard_requests config then shard_chunk_size config else usize_max)
       (map_of (rev (opt_list (rq_security_overrides (pr_params r))))) r sh"
proof -
  define limit where "limit = (if shard_requests config then shard_chunk_size config else usize_max)"
  obtain os ss where os: "normalize_vec (rq_security_overrides (pr_params r)) = Some os"
    and ss: "normalize_vec (rq_securities (pr_params r)) = Some ss"
    using assms by (auto simp: security_override_shards_def split: option.splits)
  define st where "st = fold (shard_step limit (map_of (rev os)) r) ss shard_start"
  have o: "opt_list (rq_security_overrides (pr_params r)) = os" "opt_list (rq_securities (pr_params r)) = ss"
    using arg_cong [OF os, of opt_list] arg_cong [OF ss, of opt_list] by simp_all
  have "shard_inv limit (map_of (rev os)) r [] shard_start" by (simp add: shard_inv_def shard_start_def)
  then have inv: "shard_inv limit (map_of (rev os)) r ss st"
    using fold_inv [of limit "map_of (rev os)" r "[]" shard_start ss] by (simp add: st_def)
  have shards: "shards = sh_shards (if sh_have_current st then push_security_override_shard r st else st)"
    using assms by (simp only: security_override_shards_def os ss Let_def option.simps st_def limit_def)
  have "\<exists>st'. shard_inv limit (map_of (rev os)) r ss st' \<and> sh_shards st' = shards \<and> sh_securities st' = []"
  proof (cases "sh_have_current st")
    case True
    then show ?thesis using push_inv [OF inv] shards
      by (intro exI [of _ "(push_security_override_shard r st)\<lparr>sh_have_current := False\<rparr>"]) simp
  next
    case False
    then show ?thesis using inv shards shard_invD(3) [OF inv] by (intro exI [of _ st]) simp
  qed
  then obtain st' where st': "shard_inv limit (map_of (rev os)) r ss st'" "sh_shards st' = shards" "sh_securities st' = []"
    by blast
  show "concat (map shard_securities shards) = opt_list (rq_securities (pr_params r))"
    "\<forall>sh \<in> set shards. override_shard (if shard_requests config then shard_chunk_size config else usize_max)
      (map_of (rev (opt_list (rq_security_overrides (pr_params r))))) r sh"
    unfolding o limit_def [symmetric] using shard_invD(1,2) [OF st'(1)] st'(2,3) by simp_all
qed

section \<open>Lemmas on joining\<close>

text \<open>What the engine relies on of arrow-rs: a new batch has the given schema and columns, and
  appending batches appends their columns under the given schema.\<close>

definition arrow_ok :: "('v, 'j) arrow \<Rightarrow> bool" where
  "arrow_ok a \<longleftrightarrow>
     (\<forall>fs m cols b. ar_try_new a fs m cols = Inr b \<longrightarrow> rb_fields b = fs \<and> rb_metadata b = m \<and> rb_columns b = cols) \<and>
     (\<forall>fs m bs b. ar_concat a fs m bs = Inr b \<longrightarrow> rb_fields b = fs \<and> rb_metadata b = m \<and>
        (\<forall>k < length fs. col_values (rb_columns b ! k) = concat (map (\<lambda>x. col_values (rb_columns x ! k)) bs)))"

definition batch_ok :: "('v, 'j) record_batch \<Rightarrow> bool" where
  "batch_ok b \<longleftrightarrow> length (rb_columns b) = length (rb_fields b) \<and>
     (\<forall>col \<in> set (rb_columns b). length (col_values col) = rb_rows b)"

lemma arrow_ok_concat:
  assumes "arrow_ok a" "ar_concat a fs m bs = Inr b"
  shows "rb_metadata b = m"
    "k < length fs \<Longrightarrow> col_values (rb_columns b ! k) = concat (map (\<lambda>x. col_values (rb_columns x ! k)) bs)"
  using assms unfolding arrow_ok_def by blast+

lemma rm_attach_columns: "rm_attach c rm b = Some b' \<Longrightarrow> rb_columns b' = rb_columns b"
  by (auto simp: rm_attach_def Let_def split: if_splits Option.bind_splits)

lemma all_null:
  "length (filter (\<lambda>v. v = None) xs) = length xs \<Longrightarrow> replicate (length xs) None = xs"
proof (induction xs)
  case (Cons x xs)
  then show ?case using length_filter_le [of "\<lambda>v. v = None" xs] by (cases x) auto
qed simp

lemma normalize_column_values:
  assumes "normalize_column a rows idx target source col = Inr col'" "length (col_values col) = rows"
  shows "col_values col' = col_values col"
  using assms all_null [of "col_values col"]
  by (auto simp: normalize_column_def null_array_for_datatype_def split: if_splits option.splits)

lemma normalize_columns_values:
  assumes "normalize_columns a rows idx ts cs = Inr cols" "length cs = length ts"
    "\<forall>col \<in> snd ` set cs. length (col_values col) = rows"
  shows "map col_values cols = map (col_values \<circ> snd) cs"
  using assms
proof (induction a rows idx ts cs arbitrary: cols rule: normalize_columns.induct)
  case (1 a rows idx target ts source col cs)
  then obtain c rest where "normalize_column a rows idx target source col = Inr c"
    "normalize_columns a rows (Suc idx) ts cs = Inr rest" "cols = c # rest"
    by (auto simp: and_then_Inr)
  with 1 show ?case using normalize_column_values by fastforce
qed auto

lemma normalize_batch_values:
  assumes "normalize_batch_to_schema a b fs m = Inr n" "batch_ok b" "arrow_ok a"
  shows "map col_values (rb_columns n) = map col_values (rb_columns b)" "length (rb_columns b) = length fs"
proof -
  show l: "length (rb_columns b) = length fs"
    using assms(1,2) by (auto simp: normalize_batch_to_schema_def batch_ok_def split: if_splits)
  show "map col_values (rb_columns n) = map col_values (rb_columns b)"
  proof (cases "rb_fields b = fs")
    case True
    then show ?thesis using assms(1) by (simp add: normalize_batch_to_schema_def)
  next
    case False
    then obtain cols where cols: "normalize_columns a (rb_rows b) 0 fs (zip (rb_fields b) (rb_columns b)) = Inr cols"
      and n: "map_err (\<lambda>err. AsyncInternal (''concatenate sharded request batches: '' @ err)) (ar_try_new a fs m cols) = Inr n"
      using assms(1) l by (auto simp: normalize_batch_to_schema_def and_then_Inr)
    have "rb_columns n = cols" using n assms(3) by (cases "ar_try_new a fs m cols") (auto simp: arrow_ok_def)
    moreover have "map col_values cols = map (col_values \<circ> snd) (zip (rb_fields b) (rb_columns b))"
      by (rule normalize_columns_values [OF cols])
        (use assms(2) l in \<open>auto simp: batch_ok_def dest: set_zip_rightD\<close>)
    ultimately show ?thesis using assms(2) by (simp add: batch_ok_def flip: map_map)
  qed
qed

lemma normalize_rest_values:
  assumes "normalize_rest a fs m bs = Inr ns" "\<forall>b \<in> set bs. batch_ok b" "arrow_ok a" "k < length fs"
  shows "map (\<lambda>x. col_values (rb_columns x ! k)) ns = map (\<lambda>x. col_values (rb_columns x ! k)) bs"
  using assms
proof (induction bs arbitrary: ns)
  case (Cons b bs)
  obtain n ns' where n: "normalize_batch_to_schema a b fs m = Inr n" "normalize_rest a fs m bs = Inr ns'" "ns = n # ns'"
    using Cons.prems(1) by (auto simp: and_then_Inr)
  have v: "map col_values (rb_columns n) = map col_values (rb_columns b)" "length (rb_columns b) = length fs"
    using normalize_batch_values [OF n(1) _ assms(3)] Cons.prems(2) by simp_all
  have "length (rb_columns n) = length fs" using arg_cong [OF v(1), of length] v(2) by simp
  then have "col_values (rb_columns n ! k) = col_values (rb_columns b ! k)"
    using arg_cong [OF v(1), of "\<lambda>xs. xs ! k"] v(2) Cons.prems(4) by simp
  with Cons n show ?case by simp
qed simp

text \<open>The union over the batches is what each of them carries, summed.\<close>

lemma foldl_union: "foldl (\<union>) s ss = s \<union> \<Union> (set ss)"
  by (induction ss arbitrary: s) auto

lemma foldl_add: "foldl (\<lambda>m n f. m f + n f) z ms = (\<lambda>f. z f + sum_list (map (\<lambda>m. m f) ms))" for z :: "'x \<Rightarrow> u64"
  by (induction ms arbitrary: z) (simp_all add: add.assoc)

lemma foldl_append: "foldl (\<lambda>a b s. a s @ b s) z ms = (\<lambda>s. z s @ concat (map (\<lambda>m. m s) ms))"
  by (induction ms arbitrary: z) simp_all

lemma union_contents:
  assumes "rm = fold (union_step c) batches rm_default"
  shows "rm_wf rm" "set (rm_ids rm) = (\<Union>b \<in> set batches. set (batch_request_ids c b))"
    "misses_of (rm_type_misses rm) = (\<lambda>f. sum_list (map (\<lambda>b. batch_misses c b f) batches))"
    "fe_view (rm_field_exceptions rm) = (\<lambda>s. concat (map (\<lambda>b. batch_exceptions c b s) batches))"
proof -
  have d: "ids_wf (rm_ids rm_default)" "bt_wf (rm_type_misses rm_default)" "fe_wf (rm_field_exceptions rm_default)"
    using rm_wf_default by (simp_all add: rm_wf_def)
  have z: "set (rm_ids rm_default) = {}" "misses_of (rm_type_misses rm_default) = (\<lambda>_. 0)"
    "fe_view (rm_field_exceptions rm_default) = (\<lambda>_. [])"
    by (simp_all add: rm_default_def misses_of_def fe_view_def for_security_def fe_default_def fun_eq_iff)
  show "rm_wf rm" unfolding assms by (rule fold_union_wf) simp
  show "set (rm_ids rm) = (\<Union>b \<in> set batches. set (batch_request_ids c b))"
    unfolding assms fold_union_step request_ids.contents_collect_all [OF d(1)] by (simp add: foldl_union z)
  show "misses_of (rm_type_misses rm) = (\<lambda>f. sum_list (map (\<lambda>b. batch_misses c b f) batches))"
    unfolding assms fold_union_step type_misses.contents_collect_all [OF d(2)]
    by (simp add: foldl_add z comp_def)
  show "fe_view (rm_field_exceptions rm) = (\<lambda>s. concat (map (\<lambda>b. batch_exceptions c b s) batches))"
    unfolding assms fold_union_step exceptions.contents_collect_all [OF d(3)]
    by (simp add: foldl_append z comp_def)
qed

lemma no_misses:
  fixes c :: "'j codec" and bs :: "('v, 'j) record_batch list"
  assumes "fold (collect_type_misses c) bs t = []" "b \<in> set bs"
  shows "batch_misses c b = (\<lambda>_. 0)"
proof -
  have step: "t = [] \<and> u = []" if "fold (\<lambda>(f, n :: u64). bt_update f 0 (\<lambda>m. m + n)) u t = []"
    for u and t :: "(string, u64) btree"
    using that
  proof (induction u arbitrary: t)
    case (Cons e u)
    obtain f n where "e = (f, n)" by (cases e)
    with Cons.prems have "fold (\<lambda>(f, n). bt_update f 0 (\<lambda>m. m + n)) u (bt_update f 0 (\<lambda>m. m + n) t) = []" by simp
    from Cons.IH [OF this] show ?case by (simp add: bt_update_def)
  qed simp
  have one: "t = [] \<and> batch_misses c b = (\<lambda>_. 0)" if "collect_type_misses c b t = []" for b :: "('v, 'j) record_batch" and t
  proof (cases "parse_map (cd_misses c) (rb_metadata b key_type_misses)")
    case (Some u)
    then have "t = [] \<and> u = []" using that by (intro step) (simp add: collect_type_misses_def)
    then show ?thesis using Some by (simp add: batch_misses_def misses_of_def fun_eq_iff)
  qed (use that in \<open>simp add: collect_type_misses_def batch_misses_def\<close>)
  have all: "t = [] \<and> (\<forall>b \<in> set bs. batch_misses c b = (\<lambda>_. 0))" if "fold (collect_type_misses c) bs t = []"
    for bs :: "('v, 'j) record_batch list" and t
    using that
  proof (induction bs arbitrary: t)
    case (Cons b bs)
    have "collect_type_misses c b t = [] \<and> (\<forall>b \<in> set bs. batch_misses c b = (\<lambda>_. 0))"
      using Cons.IH [of "collect_type_misses c b t"] Cons.prems by simp
    with one [of b t] show ?case by simp
  qed simp
  show ?thesis using all [OF assms(1)] assms(2) by blast
qed

lemma joined_diagnostics:
  assumes "codec_ok c" "rm = fold (union_step c) batches rm_default" "first \<in> set batches"
    "rb_metadata b = rb_metadata first" "rm_attach c rm b = Some b'"
  shows "set (batch_request_ids c b') = (\<Union>b \<in> set batches. set (batch_request_ids c b))"
    "batch_misses c b' = (\<lambda>f. sum_list (map (\<lambda>b. batch_misses c b f) batches))"
    "batch_exceptions c b' = (\<lambda>s. concat (map (\<lambda>b. batch_exceptions c b s) batches))"
proof -
  note u = union_contents [OF assms(2)]
  have same: "batch_request_ids c b = batch_request_ids c first" "batch_misses c b = batch_misses c first"
    "batch_exceptions c b = batch_exceptions c first"
    using assms(4) by (simp_all add: batch_request_ids_def ids_collect_def batch_misses_def batch_exceptions_def)
  have i: "batch_request_ids c b = []" if "rm_ids rm = []"
    using u(2) that assms(3) same(1) by auto
  have m: "batch_misses c b = (\<lambda>_. 0)" if "rm_type_misses rm = []"
    using no_misses [OF _ assms(3)] that same(2) by (simp add: assms(2) fold_union_step)
  have e: "batch_exceptions c b = (\<lambda>_. [])" if "fe_is_empty (rm_field_exceptions rm)"
  proof -
    have "fe_view (rm_field_exceptions rm) = (\<lambda>_. [])"
      using that by (simp add: fe_is_empty_def fe_view_def for_security_def fun_eq_iff)
    then show ?thesis using u(4) assms(3) same(3) by (auto simp: fun_eq_iff)
  qed
  note read = rm_attach_read [OF assms(1) u(1) assms(5) i m e]
  show "set (batch_request_ids c b') = (\<Union>b \<in> set batches. set (batch_request_ids c b))"
    using read(1) u(2) by simp
  show "batch_misses c b' = (\<lambda>f. sum_list (map (\<lambda>b. batch_misses c b f) batches))"
    using read(2) u(3) by simp
  show "batch_exceptions c b' = (\<lambda>s. concat (map (\<lambda>b. batch_exceptions c b s) batches))"
    using read(3) u(4) by simp
qed

section \<open>Properties\<close>

text \<open>The overrides a security is requested with: its own entry over the global ones.\<close>

definition effective_overrides :: "prepared_request \<Rightarrow> string \<Rightarrow> string \<Rightarrow> string option" where
  "effective_overrides r s =
     map_of (opt_list (rq_overrides (pr_params r))) ++
     map_of (rev (opt_list (map_of (rev (opt_list (rq_security_overrides (pr_params r)))) s)))"

text \<open>C37: Sharding partitions a request: the shards' securities are the request's, each once and in
  order; no shard is empty or, when sharding is on, larger than the chunk size; a shard differs
  from the request only in its securities and overrides; and every security is requested with
  its own overrides over the global ones, although a shard has a single list for all of its
  securities.\<close>

theorem shards_partition_request:
  assumes "sharded_requests config r = Some shards"
  shows "concat (map shard_securities shards) = opt_list (rq_securities (pr_params r)) \<and>
    (\<forall>sh \<in> set shards. shard_securities sh \<noteq> [] \<and>
       (shard_requests config \<longrightarrow> length (shard_securities sh) \<le> max 1 (shard_chunk_size config)) \<and>
       (\<exists>ss os. sh = for_security_shard ss os r) \<and>
       (\<forall>s \<in> set (shard_securities sh).
          map_of (opt_list (rq_overrides (pr_params sh))) = effective_overrides r s))"
proof (cases "security_override_shards config r")
  case (Some shards')
  then have s: "security_override_shards config r = Some shards"
    using assms by (simp add: sharded_requests_def split: if_splits)
  note p = security_override_shards_props [OF s]
  show ?thesis
  proof (intro conjI ballI p(1))
    fix sh assume "sh \<in> set shards"
    then obtain ss o' where sh: "sh = for_security_shard ss (merge_override_pairs (rq_overrides (pr_params r)) o') r"
      "ss \<noteq> []" "length ss \<le> max 1 (if shard_requests config then shard_chunk_size config else usize_max)"
      "\<And>s. s \<in> set ss \<Longrightarrow> map_of (rev (opt_list (rq_security_overrides (pr_params r)))) s = o'"
      using p(2) unfolding override_shard_def by blast
    have ss: "shard_securities sh = ss" by (simp add: sh(1) shard_securities_def for_security_shard_def)
    show "shard_securities sh \<noteq> []" using ss sh(2) by simp
    show "shard_requests config \<longrightarrow> length (shard_securities sh) \<le> max 1 (shard_chunk_size config)"
      using ss sh(3) by (auto split: if_splits)
    show "\<exists>ss os. sh = for_security_shard ss os r" using sh(1) by blast
    show "map_of (opt_list (rq_overrides (pr_params sh))) = effective_overrides r s" if "s \<in> set (shard_securities sh)" for s
      using that sh(4) [of s] ss by (simp add: effective_overrides_def sh(1) for_security_shard_def map_of_merge)
  qed
next
  case None
  then obtain ss where ss: "rq_securities (pr_params r) = Some ss" "ss \<noteq> []" "shard_requests config"
    and sh: "shards = map (\<lambda>ss. for_security_shard ss (rq_overrides (pr_params r)) r)
        (shard_security_chunks ss (shard_chunk_size config))" "shards \<noteq> []"
    using assms by (fastforce simp: sharded_requests_def Let_def split: if_splits option.splits)
  have n: "normalize_vec (rq_security_overrides (pr_params r)) = None"
    using None ss(1,2) by (auto simp: security_override_shards_def normalize_vec_def [of "Some ss"] Let_def split: option.splits)
  then have no: "opt_list (rq_security_overrides (pr_params r)) = []"
    using opt_list_simps(3) [of "rq_security_overrides (pr_params r)"] by simp
  have pos: "0 < shard_chunk_size config" using sh by (auto simp: shard_security_chunks_def split: if_splits)
  have c: "shard_security_chunks ss (shard_chunk_size config) = chunks (shard_chunk_size config) ss"
    using pos by (simp add: shard_security_chunks_def)
  have "map shard_securities shards = chunks (shard_chunk_size config) ss"
    by (simp add: sh(1) c shard_securities_def for_security_shard_def comp_def)
  then have "concat (map shard_securities shards) = ss" using concat_chunks [OF pos] by simp
  then have "concat (map shard_securities shards) = opt_list (rq_securities (pr_params r))" by (simp add: ss(1))
  then show ?thesis
  proof (intro conjI ballI)
    fix sh assume "sh \<in> set shards"
    then obtain part where part: "part \<in> set (chunks (shard_chunk_size config) ss)"
      and sh': "sh = for_security_shard part (rq_overrides (pr_params r)) r" by (auto simp: sh(1) c)
    have p: "shard_securities sh = part" "rq_overrides (pr_params sh) = rq_overrides (pr_params r)"
      by (simp_all add: sh' shard_securities_def for_security_shard_def)
    show "shard_securities sh \<noteq> []" using chunks_sizes [OF part] p by simp
    show "shard_requests config \<longrightarrow> length (shard_securities sh) \<le> max 1 (shard_chunk_size config)"
      using chunks_sizes [OF part] p by (simp add: max_def)
    show "\<exists>ss os. sh = for_security_shard ss os r" using sh' by blast
    show "map_of (opt_list (rq_overrides (pr_params sh))) = effective_overrides r s" for s
      using p by (simp add: effective_overrides_def no)
  qed
qed

definition sample_request :: prepared_request where
  "sample_request = \<lparr>pr_params = request_params_default\<lparr>rq_service := ''//blp/refdata'',
       rq_operation := ''ReferenceDataRequest'', rq_securities := Some [''A'', ''B'', ''C''],
       rq_fields := Some [''PX_LAST''], rq_overrides := Some [(''X'', ''1'')],
       rq_security_overrides := Some [(''B'', [(''X'', ''2'')])]\<rparr>,
     pr_shape = RefDataShape \<lparr>po_format = LongOutput, po_long_mode = StringMode\<rparr>,
     pr_operation = operation.ReferenceData, pr_field_types = [], pr_raw = False\<rparr>"

definition sample_shard_config :: shard_config where
  "sample_shard_config = \<lparr>shard_requests = False, shard_threshold = 20, shard_chunk_size = 16\<rparr>"

theorem shards_partition_request_witness:
  "\<exists>shards. sharded_requests sample_shard_config sample_request = Some shards \<and>
     map shard_securities shards = [[''A''], [''B''], [''C'']] \<and>
     concat (map shard_securities shards) = [''A'', ''B'', ''C'']"
proof -
  have "\<exists>shards. sharded_requests sample_shard_config sample_request = Some shards \<and>
      map shard_securities shards = [[''A''], [''B''], [''C'']]"
    by (simp add: sharded_requests_def security_override_shards_def sample_request_def sample_shard_config_def
        request_params_default_def normalize_vec_def Let_def shard_step_def shard_start_def usize_max_def
        push_security_override_shard_def shard_securities_def for_security_shard_def)
  then show ?thesis
    using shards_partition_request [of sample_shard_config sample_request]
    by (auto simp: sample_request_def)
qed

text \<open>C38: Joining the results of the shards loses nothing and never panics. The rows of every column are
  those of the shards in shard order, whether or not a column had to be retyped; the SDK request
  identifiers, the conversion-miss counts and the field exceptions read from the joined batch are
  the union, the sum and the concatenation of those of the shards.\<close>

theorem sharded_result_complete:
  assumes "codec_ok c" "arrow_ok a" "\<forall>b \<in> set batches. batch_ok b"
  shows "\<exists>r. concat_sharded_batches c a batches = Some r \<and>
    (\<forall>result. r = Inr result \<longrightarrow>
       (\<forall>k < length (rb_fields (hd batches)). col_values (rb_columns result ! k) =
          concat (map (\<lambda>b. col_values (rb_columns b ! k)) batches)) \<and>
       set (batch_request_ids c result) = (\<Union>b \<in> set batches. set (batch_request_ids c b)) \<and>
       batch_misses c result = (\<lambda>f. sum_list (map (\<lambda>b. batch_misses c b f) batches)) \<and>
       batch_exceptions c result = (\<lambda>s. concat (map (\<lambda>b. batch_exceptions c b s) batches)))"
proof (cases batches)
  case Nil
  then show ?thesis by (simp add: concat_sharded_batches_def)
next
  case (Cons first rest)
  show ?thesis
  proof (cases "rest = []")
    case True
    then show ?thesis using Cons by (simp add: concat_sharded_batches_def)
  next
    case False
    define rm where "rm = fold (union_step c) batches rm_default"
    note u = union_contents [OF rm_def]
    obtain r where r: "union_of c batches = Some r" "\<And>rm'. r = Inr rm' \<Longrightarrow> rm' = rm"
      using union_from_total [OF rm_wf_default, of c batches] by (auto simp: union_of_def rm_def)
    consider (union) e where "r = Inl e"
      | (norm) e where "r = Inr rm" "normalize_rest a (rb_fields first) (rb_metadata first) rest = Inl e"
      | (concat) ns e where "r = Inr rm" "normalize_rest a (rb_fields first) (rb_metadata first) rest = Inr ns"
          "ar_concat a (rb_fields first) (rb_metadata first) (first # ns) = Inl e"
      | (ok) ns b where "r = Inr rm" "normalize_rest a (rb_fields first) (rb_metadata first) rest = Inr ns"
          "ar_concat a (rb_fields first) (rb_metadata first) (first # ns) = Inr b"
    proof (cases r)
      case (Inr rm')
      then have rr: "r = Inr rm" using r(2) by simp
      show thesis
      proof (cases "normalize_rest a (rb_fields first) (rb_metadata first) rest")
        case (Inr ns)
        then show thesis
          using concat [OF rr Inr] ok [OF rr Inr]
          by (cases "ar_concat a (rb_fields first) (rb_metadata first) (first # ns)") auto
      qed (rule norm [OF rr])
    qed (rule union)
    then show ?thesis
    proof cases
      case ok
      obtain b' where b': "rm_attach c rm b = Some b'" using rm_attach_at [OF assms(1) u(1), of b] by blast
      have b: "rb_metadata b = rb_metadata first"
        "\<And>k. k < length (rb_fields first) \<Longrightarrow>
          col_values (rb_columns b ! k) = concat (map (\<lambda>x. col_values (rb_columns x ! k)) (first # ns))"
        using arrow_ok_concat [OF assms(2) ok(3)] by simp_all
      have cols: "rb_columns b' = rb_columns b"
        using b' by (rule rm_attach_columns)
      have d: "set (batch_request_ids c b') = (\<Union>b \<in> set batches. set (batch_request_ids c b))"
        "batch_misses c b' = (\<lambda>f. sum_list (map (\<lambda>b. batch_misses c b f) batches))"
        "batch_exceptions c b' = (\<lambda>s. concat (map (\<lambda>b. batch_exceptions c b s) batches))"
        using joined_diagnostics [OF assms(1) rm_def _ b(1) b'] Cons by simp_all
      have "concat_sharded_batches c a batches = Some (Inr b')"
        using r(1) ok b' False Cons by (simp add: concat_sharded_batches_def)
      moreover have "col_values (rb_columns b' ! k) = concat (map (\<lambda>b. col_values (rb_columns b ! k)) batches)"
        if "k < length (rb_fields first)" for k
        using b(2) [OF that] normalize_rest_values [OF ok(2) _ assms(2) that] assms(3) Cons cols by simp
      ultimately show ?thesis using d Cons by simp
    qed (use r(1) False Cons in \<open>simp_all add: concat_sharded_batches_def\<close>)
  qed
qed

text \<open>A codec and kernels for evaluation: metadata texts are tagged values, and batches are appended
  column by column.\<close>

datatype sample_json =
    TextJson string | IdsJson "string list" | EidsJson "(string \<times> int list) list"
  | ErrorsJson "(string \<times> security_error_meta) list" | DelayedJson "(string \<times> delayed_meta) list"
  | MissesJson "(string \<times> u64) list" | EnvelopeJson envelope

definition sample_codec :: "sample_json codec" where
  "sample_codec = \<lparr>cd_text = TextJson, cd_string = (\<lambda>j. case j of TextJson s \<Rightarrow> s | _ \<Rightarrow> []),
     cd_ids = \<lparr>enc = Some \<circ> IdsJson, dec = (\<lambda>j. case j of IdsJson x \<Rightarrow> Some x | _ \<Rightarrow> None)\<rparr>,
     cd_eids = \<lparr>enc = Some \<circ> EidsJson, dec = (\<lambda>j. case j of EidsJson x \<Rightarrow> Some x | _ \<Rightarrow> None)\<rparr>,
     cd_errors = \<lparr>enc = Some \<circ> ErrorsJson, dec = (\<lambda>j. case j of ErrorsJson x \<Rightarrow> Some x | _ \<Rightarrow> None)\<rparr>,
     cd_delayed = \<lparr>enc = Some \<circ> DelayedJson, dec = (\<lambda>j. case j of DelayedJson x \<Rightarrow> Some x | _ \<Rightarrow> None)\<rparr>,
     cd_misses = \<lparr>enc = Some \<circ> MissesJson, dec = (\<lambda>j. case j of MissesJson x \<Rightarrow> Some x | _ \<Rightarrow> None)\<rparr>,
     cd_envelope = EnvelopeJson,
     cd_encoded = (\<lambda>j. case j of EnvelopeJson x \<Rightarrow> Inr (Compact x) | _ \<Rightarrow> Inl ''not an envelope'')\<rparr>"

lemma sample_codec_ok: "codec_ok sample_codec"
  by (simp add: codec_ok_def json_ok_def sample_codec_def)

definition sample_concat ::
  "field list \<Rightarrow> (string \<Rightarrow> 'j option) \<Rightarrow> ('v, 'j) record_batch list \<Rightarrow> (('v, 'j) record_batch, string) result" where
  "sample_concat fs m bs =
     Inr \<lparr>rb_fields = fs, rb_metadata = m,
       rb_columns = map (\<lambda>k. \<lparr>col_type = fd_type (fs ! k),
         col_values = concat (map (\<lambda>x. col_values (rb_columns x ! k)) bs)\<rparr>) [0..<length fs],
       rb_rows = sum_list (map rb_rows bs)\<rparr>"

definition sample_arrow :: "(nat, sample_json) arrow" where
  "sample_arrow = \<lparr>ar_try_new = (\<lambda>fs m cols. Inr \<lparr>rb_fields = fs, rb_metadata = m, rb_columns = cols,
       rb_rows = (case cols of [] \<Rightarrow> 0 | col # _ \<Rightarrow> length (col_values col))\<rparr>),
     ar_concat = sample_concat, ar_debug = (\<lambda>_. [])\<rparr>"

lemma sample_arrow_ok: "arrow_ok sample_arrow"
  by (auto simp: arrow_ok_def sample_arrow_def sample_concat_def)

definition sample_batch :: "string \<Rightarrow> data_type \<Rightarrow> nat option \<Rightarrow> (nat, sample_json) record_batch" where
  "sample_batch rid t v = \<lparr>rb_fields = [\<lparr>fd_name = ''value'', fd_type = t, fd_nullable = True\<rparr>],
     rb_metadata = [key_request_id \<mapsto> TextJson rid], rb_columns = [\<lparr>col_type = t, col_values = [v]\<rparr>], rb_rows = 1\<rparr>"

theorem sharded_result_complete_witness:
  "\<exists>result. concat_sharded_batches sample_codec sample_arrow
       [sample_batch ''a'' Float64Type (Some 1), sample_batch ''b'' Utf8 None] = Some (Inr result) \<and>
     col_values (rb_columns result ! 0) = [Some 1, None] \<and>
     set (batch_request_ids sample_codec result) = {''a'', ''b''}"
proof -
  let ?bs = "[sample_batch ''a'' Float64Type (Some 1), sample_batch ''b'' Utf8 None]"
  have ok: "\<forall>b \<in> set ?bs. batch_ok b" by (simp add: batch_ok_def sample_batch_def)
  have "\<exists>result. concat_sharded_batches sample_codec sample_arrow ?bs = Some (Inr result)"
    by (simp add: concat_sharded_batches_def union_of_def union_batch_def extend_exceptions_def sample_batch_def
        metadata_keys rm_default_def ids_collect_def collect_type_misses_def extend_map_def parse_map_def parse_json_def
        sample_codec_def sample_arrow_def sample_concat_def normalize_batch_to_schema_def normalize_column_def
        null_array_for_datatype_def supported_null_type_def insort_insert_key_def rm_attach_def rm_is_empty_def
        insert_json_def insert_exceptions_def fe_is_empty_def fe_default_def ids_attach_metadata_def Let_def)
  moreover have "set (batch_request_ids sample_codec (sample_batch i t v)) = {i}" for i t v
    by (simp add: batch_request_ids_def ids_collect_def sample_batch_def sample_codec_def metadata_keys parse_json_def
        insort_insert_key_def)
  ultimately show ?thesis
    using sharded_result_complete [OF sample_codec_ok sample_arrow_ok ok]
    by (force simp: sample_batch_def)
qed

definition result_ids :: "'j codec \<Rightarrow> (('v, 'j) record_batch, blp_async_error) result \<Rightarrow> string set" where
  "result_ids c r = (case r of Inr b \<Rightarrow> set (batch_request_ids c b) | Inl e \<Rightarrow> set (async_bloomberg_request_ids e))"

lemma collect_shard_errors_props:
  assumes "ids_wf ids"
  shows "ids_wf (fst (collect_shard_errors c rs ids fe)) \<and>
    set (fst (collect_shard_errors c rs ids fe)) = set ids \<union> (\<Union>r \<in> set rs. result_ids c r) \<and>
    snd (collect_shard_errors c rs ids fe) =
      (case fe of Some e \<Rightarrow> Some e | None \<Rightarrow> map_option projl (find is_err rs))"
  using assms
proof (induction c rs ids fe rule: collect_shard_errors.induct)
  case (2 c batch rs ids fe)
  then show ?case using ids_collect_wf [of ids c batch] set_ids_collect [of c batch ids]
    by (auto simp: result_ids_def is_err_def split: option.split)
next
  case (3 c e rs ids fe)
  then show ?case using ids_extend_wf [of ids "async_bloomberg_request_ids e"]
    by (auto simp: result_ids_def is_err_def split: option.split)
qed (auto split: option.split)



end
