(* ===== verification/Spec2Isabelle.thy ===== *)
theory Spec2Isabelle
  imports Channel_Concurrency State_Delivery_Props Service_Open_Props Services Status_Props Request_Plan_Props
    Sharding
begin

text \<open>
  A verification development for the request and subscription engine of xbbg, a Bloomberg
  client whose core is written in Rust (crates/xbbg-core, crates/xbbg-async).
\<close>

end
